(* ===== verification/Prelude.thy ===== *)
theory Prelude
  imports Complex_Main
begin

text \<open>
  Shared vocabulary of the development: the list operations that the code takes from
  \<open>QList\<close>/\<open>QVector\<close>, first-match searches, the error monad on \<^typ>\<open>'a option\<close>
  (\<open>None\<close> is a failed assertion, an out-of-range access or a loop that does not return)
  and the \<^theory_text>\<open>locale\<close> of list edits that the focus chains and the stacking
  order both implement.
\<close>

named_theorems list_ops "rewrite rules for the QList operations"

section \<open>Pointers and numbers\<close>

text \<open>
  Objects the code handles through pointers are named by natural numbers; a pointer that may
  be null is an \<open>option\<close>. \<open>qreal\<close> is the exact rational it denotes (rounding of
  \<open>double\<close> is not modelled); \<open>int\<close> and \<open>uint\<close> values whose wrap-around matters
  are written as words where they occur.
\<close>

type_synonym wid = nat
type_synonym vd = nat
type_synonym outp = nat
type_synonym qreal = rat

section \<open>QList\<close>

text \<open>\<open>QList::removeAll\<close> is \<^const>\<open>removeAll\<close>, \<open>QList::removeOne\<close> is
  \<^const>\<open>remove1\<close>, \<open>append\<close>/\<open>prepend\<close> are written out. \<open>indexOf\<close> is -1 for an
  absent element; \<open>insert\<close> is defined for positions 0 to the length only.\<close>

fun indexOf :: "'a list \<Rightarrow> 'a \<Rightarrow> int" where
  "indexOf [] x = -1"
| "indexOf (y # ys) x = (if y = x then 0 else (let i = indexOf ys x in if i < 0 then -1 else i + 1))"

definition list_insert :: "nat \<Rightarrow> 'a \<Rightarrow> 'a list \<Rightarrow> 'a list" where
  "list_insert n x xs = take n xs @ x # drop n xs"

definition insertAt :: "int \<Rightarrow> 'a \<Rightarrow> 'a list \<Rightarrow> 'a list option" where
  "insertAt i x xs = (if 0 \<le> i \<and> i \<le> int (length xs)
     then Some (list_insert (nat i) x xs) else None)"

definition atIdx :: "'a list \<Rightarrow> int \<Rightarrow> 'a option" where
  "atIdx xs i = (if 0 \<le> i \<and> i < int (length xs) then Some (xs ! nat i) else None)"

text \<open>\<open>Q_ASSERT\<close> and the preconditions of the library.\<close>

definition assertThat :: "bool \<Rightarrow> unit option" where
  "assertThat b = (if b then Some () else None)"

lemma assertThat_simps [simp]: "assertThat True = Some ()" "assertThat False = None"
  "assertThat b = Some u \<longleftrightarrow> b" "assertThat b = None \<longleftrightarrow> \<not> b"
  by (simp_all add: assertThat_def)

text \<open>The loop \<open>for (i = size - 1; i >= 0; --i) if (P(at(i))) return at(i);\<close>: the last
  element with the property.\<close>

definition findLast :: "('a \<Rightarrow> bool) \<Rightarrow> 'a list \<Rightarrow> 'a option" where
  "findLast P xs = find P (rev xs)"

text \<open>The position (from the front) of the last element with a property.\<close>

fun lastIndexWhere :: "('a \<Rightarrow> bool) \<Rightarrow> 'a list \<Rightarrow> int" where
  "lastIndexWhere P [] = -1"
| "lastIndexWhere P (y # ys) =
     (let i = lastIndexWhere P ys in if 0 \<le> i then i + 1 else if P y then 0 else -1)"

fun firstIndexWhere :: "('a \<Rightarrow> bool) \<Rightarrow> 'a list \<Rightarrow> int" where
  "firstIndexWhere P [] = -1"
| "firstIndexWhere P (y # ys) =
     (if P y then 0 else (let i = firstIndexWhere P ys in if i < 0 then -1 else i + 1))"

lemma indexOf_absent [list_ops]: "x \<notin> set xs \<Longrightarrow> indexOf xs x = -1"
  by (induction xs) auto

lemma indexOf_bounds: "-1 \<le> indexOf xs x \<and> indexOf xs x < int (length xs)"
  by (induction xs) (auto simp: Let_def)

lemma indexOf_present: "x \<in> set xs \<Longrightarrow> 0 \<le> indexOf xs x"
  by (induction xs) (auto simp: Let_def)

lemma indexOf_neg_iff [list_ops]: "indexOf xs x < 0 \<longleftrightarrow> x \<notin> set xs"
  using indexOf_absent[of x xs] indexOf_present[of x xs] by (cases "x \<in> set xs") auto

lemma indexOf_minus1_iff [list_ops]: "indexOf xs x = -1 \<longleftrightarrow> x \<notin> set xs"
  using indexOf_absent[of x xs] indexOf_present[of x xs] by (cases "x \<in> set xs") auto

lemma nat_indexOf_Cons:
  "x \<in> set xs \<Longrightarrow> nat (indexOf xs x + 1) = Suc (nat (indexOf xs x))"
  using indexOf_present[of x xs] by simp

lemma indexOf_nth: "x \<in> set xs \<Longrightarrow> xs ! nat (indexOf xs x) = x"
  by (induction xs) (auto simp: Let_def nat_indexOf_Cons indexOf_neg_iff)

lemma indexOf_split:
  assumes "x \<in> set xs"
  shows "xs = take (nat (indexOf xs x)) xs @ x # drop (Suc (nat (indexOf xs x))) xs"
    and "x \<notin> set (take (nat (indexOf xs x)) xs)"
  using assms by (induction xs) (auto simp: Let_def nat_indexOf_Cons indexOf_neg_iff)

lemma indexOf_nth_distinct: "distinct xs \<Longrightarrow> i < length xs \<Longrightarrow> indexOf xs (xs ! i) = int i"
proof (induction xs arbitrary: i)
  case (Cons x xs)
  then show ?case by (cases i) (auto simp: Let_def)
qed simp

lemma indexOf_append1: "x \<in> set xs \<Longrightarrow> indexOf (xs @ ys) x = indexOf xs x"
  by (induction xs) (auto simp: Let_def)

lemma indexOf_append2: "x \<notin> set xs \<Longrightarrow> x \<in> set ys \<Longrightarrow> indexOf (xs @ ys) x = int (length xs) + indexOf ys x"
  by (induction xs) (auto simp: Let_def dest: indexOf_present)

lemma indexOf_inj:
  assumes "x \<in> set xs" "y \<in> set xs" "indexOf xs x = indexOf xs y"
  shows "x = y"
proof -
  have "x = xs ! nat (indexOf xs x)" by (rule indexOf_nth[OF assms(1), symmetric])
  also have "\<dots> = xs ! nat (indexOf xs y)" by (simp only: assms(3))
  also have "\<dots> = y" by (rule indexOf_nth[OF assms(2)])
  finally show ?thesis .
qed

lemma set_take_drop: "set (take n xs) \<union> set (drop n xs) = set xs"
  by (simp only: set_append[symmetric] append_take_drop_id)

lemma removeAll_list_insert [list_ops]: "removeAll x (list_insert n x xs) = removeAll x xs"
proof -
  have "removeAll x (list_insert n x xs) = removeAll x (take n xs @ drop n xs)"
    by (simp add: list_insert_def del: append_take_drop_id)
  then show ?thesis by (simp only: append_take_drop_id)
qed

lemma set_list_insert [list_ops]: "set (list_insert n x xs) = insert x (set xs)"
proof -
  have "set (list_insert n x xs) = insert x (set (take n xs) \<union> set (drop n xs))"
    by (simp add: list_insert_def)
  then show ?thesis by (simp only: set_take_drop)
qed

lemma length_list_insert [list_ops]: "length (list_insert n x xs) = Suc (length xs)"
  by (simp add: list_insert_def)

lemma distinct_list_insert [list_ops]:
  "distinct (list_insert n x xs) \<longleftrightarrow> distinct xs \<and> x \<notin> set xs"
proof -
  have "distinct (list_insert n x xs) \<longleftrightarrow>
      distinct (take n xs @ drop n xs) \<and> x \<notin> set (take n xs) \<union> set (drop n xs)"
    by (auto simp: list_insert_def simp del: append_take_drop_id)
  then show ?thesis by (simp only: append_take_drop_id set_take_drop)
qed

lemma insertAt_Some [list_ops]:
  "0 \<le> i \<Longrightarrow> i \<le> int (length xs) \<Longrightarrow> insertAt i x xs = Some (list_insert (nat i) x xs)"
  by (simp add: insertAt_def)

lemma insertAt_eq: "insertAt i x xs = Some ys \<Longrightarrow> ys = list_insert (nat i) x xs"
  by (simp add: insertAt_def split: if_splits)

lemma insertAt_removeAll: "insertAt i x xs = Some ys \<Longrightarrow> removeAll x ys = removeAll x xs"
  by (auto dest!: insertAt_eq simp: list_ops)

lemma insertAt_set: "insertAt i x xs = Some ys \<Longrightarrow> set ys = insert x (set xs)"
  by (auto dest!: insertAt_eq simp: list_ops)

lemma insertAt_distinct:
  "insertAt i x xs = Some ys \<Longrightarrow> distinct xs \<Longrightarrow> x \<notin> set xs \<Longrightarrow> distinct ys"
  by (auto dest!: insertAt_eq simp: list_ops)

lemma atIdx_bounds: "atIdx xs i = Some x \<Longrightarrow> x \<in> set xs"
  by (auto simp: atIdx_def split: if_splits)

lemma lastIndexWhere_bounds: "-1 \<le> lastIndexWhere P xs \<and> lastIndexWhere P xs < int (length xs)"
  by (induction xs) (auto simp: Let_def)

lemma lastIndexWhere_neg: "lastIndexWhere P xs < 0 \<longleftrightarrow> (\<forall>x \<in> set xs. \<not> P x)"
  by (induction xs) (auto simp: Let_def)

lemma lastIndexWhere_nth: "0 \<le> lastIndexWhere P xs \<Longrightarrow> P (xs ! nat (lastIndexWhere P xs))"
  by (induction xs) (auto simp: Let_def nat_add_distrib split: if_splits)

lemma firstIndexWhere_bounds: "-1 \<le> firstIndexWhere P xs \<and> firstIndexWhere P xs < int (length xs)"
  by (induction xs) (auto simp: Let_def)

lemma firstIndexWhere_neg: "firstIndexWhere P xs < 0 \<longleftrightarrow> (\<forall>x \<in> set xs. \<not> P x)"
  by (induction xs) (auto simp: Let_def)

lemma removeAll_idem [simp]: "removeAll x (removeAll x xs) = removeAll x xs"
  by (simp add: removeAll_filter_not_eq)

lemma removeAll_commute: "removeAll x (removeAll y xs) = removeAll y (removeAll x xs)"
  by (simp add: removeAll_filter_not_eq conj_commute)

lemma findLast_Some:
  "findLast P xs = Some x \<Longrightarrow> P x \<and> x \<in> set xs"
  by (auto simp: findLast_def find_Some_iff rev_nth)

lemma findLast_None: "findLast P xs = None \<longleftrightarrow> (\<forall>x \<in> set xs. \<not> P x)"
  by (auto simp: findLast_def find_None_iff)

lemma find_append: "find P (xs @ ys) = (case find P xs of None \<Rightarrow> find P ys | Some x \<Rightarrow> Some x)"
  by (induction xs) auto

lemma findLast_snoc [list_ops]:
  "findLast P (xs @ [x]) = (if P x then Some x else findLast P xs)"
  by (simp add: findLast_def)

lemma findLast_Nil [list_ops]: "findLast P [] = None"
  by (simp add: findLast_def)

text \<open>The last match splits the list: nothing after it matches.\<close>

lemma findLast_split:
  assumes "findLast P xs = Some x"
  shows "\<exists>ys zs. xs = ys @ x # zs \<and> P x \<and> (\<forall>z \<in> set zs. \<not> P z)"
  using assms
proof (induction xs rule: rev_induct)
  case (snoc a xs)
  show ?case
  proof (cases "P a")
    case True
    with snoc.prems have "a = x" by (simp add: findLast_snoc)
    with True show ?thesis by (intro exI[of _ xs] exI[of _ "[]"]) simp
  next
    case False
    with snoc obtain ys zs where "xs = ys @ x # zs" "P x" "\<forall>z \<in> set zs. \<not> P z"
      by (auto simp: findLast_snoc)
    with False show ?thesis by (intro exI[of _ ys] exI[of _ "zs @ [a]"]) auto
  qed
qed (simp add: findLast_Nil)

section \<open>Edits of one element\<close>

text \<open>
  The contract that raising, lowering and focusing operations share: \<open>f\<close> may move,
  insert or remove the element \<open>w\<close> and does nothing to the others, whose order it keeps.
\<close>

locale list_edit =
  fixes f :: "'a list \<Rightarrow> 'a list" and w :: 'a
  assumes keeps_rest: "removeAll w (f xs) = removeAll w xs"
    and keeps_distinct: "distinct xs \<Longrightarrow> distinct (f xs)"
begin

lemma mem_other: "x \<noteq> w \<Longrightarrow> x \<in> set (f xs) \<longleftrightarrow> x \<in> set xs"
  using arg_cong[OF keeps_rest[of xs], of set] by auto

lemma set_bound: "set (f xs) \<subseteq> insert w (set xs)"
  using mem_other by blast

lemma order_other: "filter (\<lambda>x. x \<noteq> w \<and> P x) (f xs) = filter (\<lambda>x. x \<noteq> w \<and> P x) xs"
proof -
  have *: "filter (\<lambda>x. x \<noteq> w \<and> P x) ys = filter P (removeAll w ys)" for ys
    by (induction ys) auto
  show ?thesis by (simp only: * keeps_rest)
qed

end

text \<open>An edit that also guarantees that the element is present afterwards.\<close>

locale list_placing = list_edit +
  assumes places: "w \<in> set (f xs)"
begin

lemma set_placed: "set (f xs) = insert w (set xs)"
proof (intro set_eqI)
  show "x \<in> set (f xs) \<longleftrightarrow> x \<in> insert w (set xs)" for x
    by (cases "x = w") (auto simp: places mem_other)
qed

lemma length_placed: "distinct xs \<Longrightarrow> length (f xs) = card (insert w (set xs))"
  using keeps_distinct set_placed distinct_card by metis

end

lemma those_Some_iff: "those xs = Some ys \<longleftrightarrow> xs = map Some ys"
proof (induction xs arbitrary: ys)
  case (Cons x xs)
  show ?case
  proof (cases x)
    case (Some a)
    then show ?thesis by (cases ys) (auto simp: Cons.IH)
  qed (cases ys, auto)
qed auto

lemma those_None_iff: "those xs = None \<longleftrightarrow> None \<in> set xs"
proof (induction xs)
  case (Cons x xs)
  then show ?case by (cases x) auto
qed simp

end
