(* ===== verification/Qt_Geometry.thy ===== *)
theory Qt_Geometry
  imports Prelude
begin

text \<open>
  The geometry value types the code computes with: \<open>QPointF\<close>, \<open>QSizeF\<close>, \<open>QRectF\<close>
  over \<^typ>\<open>qreal\<close> and \<open>QPoint\<close>, \<open>QRect\<close> over \<^typ>\<open>int\<close>, with the accessors
  and mutators the modelled code uses. \<open>QRectF::right()\<close> is \<open>x + width\<close>, while
  \<open>QRect::right()\<close> is \<open>x + width - 1\<close> (as documented). \<open>setLeft\<close> and its kin move one
  edge, \<open>moveLeft\<close> and its kin move the rectangle and keep its size.
\<close>

record qpointf =
  pointX :: qreal
  pointY :: qreal

record qsizef =
  sizeW :: qreal
  sizeH :: qreal

record qrectf =
  rectX :: qreal
  rectY :: qreal
  rectW :: qreal
  rectH :: qreal

record qpoint =
  ipointX :: int
  ipointY :: int

record qrect =
  irectX :: int
  irectY :: int
  irectW :: int
  irectH :: int

section \<open>QRectF\<close>

abbreviation rleft :: "qrectf \<Rightarrow> qreal" where "rleft r \<equiv> rectX r"
abbreviation rtop :: "qrectf \<Rightarrow> qreal" where "rtop r \<equiv> rectY r"

definition rright :: "qrectf \<Rightarrow> qreal" where "rright r = rectX r + rectW r"
definition rbottom :: "qrectf \<Rightarrow> qreal" where "rbottom r = rectY r + rectH r"
definition rvalid :: "qrectf \<Rightarrow> bool" where "rvalid r \<longleftrightarrow> 0 < rectW r \<and> 0 < rectH r"
definition rsize :: "qrectf \<Rightarrow> qsizef" where "rsize r = \<lparr>sizeW = rectW r, sizeH = rectH r\<rparr>"
definition rtopLeft :: "qrectf \<Rightarrow> qpointf" where "rtopLeft r = \<lparr>pointX = rectX r, pointY = rectY r\<rparr>"
definition rcenter :: "qrectf \<Rightarrow> qpointf" where
  "rcenter r = \<lparr>pointX = rectX r + rectW r / 2, pointY = rectY r + rectH r / 2\<rparr>"

definition setLeft :: "qreal \<Rightarrow> qrectf \<Rightarrow> qrectf" where
  "setLeft v r = r\<lparr>rectX := v, rectW := rectW r + (rectX r - v)\<rparr>"
definition setTop :: "qreal \<Rightarrow> qrectf \<Rightarrow> qrectf" where
  "setTop v r = r\<lparr>rectY := v, rectH := rectH r + (rectY r - v)\<rparr>"
definition setRight :: "qreal \<Rightarrow> qrectf \<Rightarrow> qrectf" where
  "setRight v r = r\<lparr>rectW := v - rectX r\<rparr>"
definition setBottom :: "qreal \<Rightarrow> qrectf \<Rightarrow> qrectf" where
  "setBottom v r = r\<lparr>rectH := v - rectY r\<rparr>"
definition setSize :: "qsizef \<Rightarrow> qrectf \<Rightarrow> qrectf" where
  "setSize s r = r\<lparr>rectW := sizeW s, rectH := sizeH s\<rparr>"
definition moveLeft :: "qreal \<Rightarrow> qrectf \<Rightarrow> qrectf" where "moveLeft v r = r\<lparr>rectX := v\<rparr>"
definition moveTop :: "qreal \<Rightarrow> qrectf \<Rightarrow> qrectf" where "moveTop v r = r\<lparr>rectY := v\<rparr>"
definition moveRight :: "qreal \<Rightarrow> qrectf \<Rightarrow> qrectf" where "moveRight v r = r\<lparr>rectX := v - rectW r\<rparr>"
definition moveBottom :: "qreal \<Rightarrow> qrectf \<Rightarrow> qrectf" where "moveBottom v r = r\<lparr>rectY := v - rectH r\<rparr>"
definition moveTopLeft :: "qpointf \<Rightarrow> qrectf \<Rightarrow> qrectf" where
  "moveTopLeft p r = r\<lparr>rectX := pointX p, rectY := pointY p\<rparr>"
definition moveCenter :: "qpointf \<Rightarrow> qrectf \<Rightarrow> qrectf" where
  "moveCenter p r = r\<lparr>rectX := pointX p - rectW r / 2, rectY := pointY p - rectH r / 2\<rparr>"

text \<open>\<open>QRectF::intersects\<close> and \<open>intersected\<close>. A rectangle with a negative size covers the same points as the
  normalized one; one without an area intersects nothing.\<close>

definition rlow :: "qrectf \<Rightarrow> qpointf" where
  "rlow r = \<lparr>pointX = min (rectX r) (rright r), pointY = min (rectY r) (rbottom r)\<rparr>"
definition rhigh :: "qrectf \<Rightarrow> qpointf" where
  "rhigh r = \<lparr>pointX = max (rectX r) (rright r), pointY = max (rectY r) (rbottom r)\<rparr>"

definition rintersects :: "qrectf \<Rightarrow> qrectf \<Rightarrow> bool" where
  "rintersects a b \<longleftrightarrow> rectW a \<noteq> 0 \<and> rectH a \<noteq> 0 \<and> rectW b \<noteq> 0 \<and> rectH b \<noteq> 0 \<and>
     pointX (rlow a) < pointX (rhigh b) \<and> pointX (rlow b) < pointX (rhigh a) \<and>
     pointY (rlow a) < pointY (rhigh b) \<and> pointY (rlow b) < pointY (rhigh a)"

definition rnullRect :: qrectf where "rnullRect = \<lparr>rectX = 0, rectY = 0, rectW = 0, rectH = 0\<rparr>"

definition rintersected :: "qrectf \<Rightarrow> qrectf \<Rightarrow> qrectf" where
  "rintersected a b = (if rintersects a b
     then (let x = max (pointX (rlow a)) (pointX (rlow b)); y = max (pointY (rlow a)) (pointY (rlow b))
       in \<lparr>rectX = x, rectY = y, rectW = min (pointX (rhigh a)) (pointX (rhigh b)) - x,
           rectH = min (pointY (rhigh a)) (pointY (rhigh b)) - y\<rparr>)
     else rnullRect)"

definition rempty :: "qrectf \<Rightarrow> bool" where "rempty r \<longleftrightarrow> rectW r \<le> 0 \<or> rectH r \<le> 0"
definition rnull :: "qrectf \<Rightarrow> bool" where "rnull r \<longleftrightarrow> rectW r = 0 \<and> rectH r = 0"

text \<open>\<open>QRectF::contains\<close> of a point, edges included.\<close>

definition rcontains :: "qrectf \<Rightarrow> qpointf \<Rightarrow> bool" where
  "rcontains r p \<longleftrightarrow> rectW r \<noteq> 0 \<and> rectH r \<noteq> 0 \<and>
     min (rectX r) (rright r) \<le> pointX p \<and> pointX p \<le> max (rectX r) (rright r) \<and>
     min (rectY r) (rbottom r) \<le> pointY p \<and> pointY p \<le> max (rectY r) (rbottom r)"

definition boundedTo :: "qsizef \<Rightarrow> qsizef \<Rightarrow> qsizef" where
  "boundedTo a b = \<lparr>sizeW = min (sizeW a) (sizeW b), sizeH = min (sizeH a) (sizeH b)\<rparr>"

definition expandedTo :: "qsizef \<Rightarrow> qsizef \<Rightarrow> qsizef" where
  "expandedTo a b = \<lparr>sizeW = max (sizeW a) (sizeW b), sizeH = max (sizeH a) (sizeH b)\<rparr>"

lemmas rect_ops = rright_def rbottom_def rvalid_def rsize_def rtopLeft_def rcenter_def setLeft_def
  setTop_def setRight_def setBottom_def setSize_def moveLeft_def moveTop_def moveRight_def
  moveBottom_def moveTopLeft_def moveCenter_def boundedTo_def expandedTo_def

text \<open>One rectangle lies within another.\<close>

definition rwithin :: "qrectf \<Rightarrow> qrectf \<Rightarrow> bool" where
  "rwithin g a \<longleftrightarrow> rectX a \<le> rectX g \<and> rectY a \<le> rectY g \<and> rright g \<le> rright a \<and> rbottom g \<le> rbottom a"

section \<open>QRect\<close>

definition iright :: "qrect \<Rightarrow> int" where "iright r = irectX r + irectW r - 1"
definition ibottom :: "qrect \<Rightarrow> int" where "ibottom r = irectY r + irectH r - 1"
definition ivalid :: "qrect \<Rightarrow> bool" where "ivalid r \<longleftrightarrow> 0 < irectW r \<and> 0 < irectH r"

definition iintersects :: "qrect \<Rightarrow> qrect \<Rightarrow> bool" where
  "iintersects a b \<longleftrightarrow> ivalid a \<and> ivalid b \<and>
     irectX a \<le> iright b \<and> irectX b \<le> iright a \<and> irectY a \<le> ibottom b \<and> irectY b \<le> ibottom a"

definition inullRect :: qrect where "inullRect = \<lparr>irectX = 0, irectY = 0, irectW = 0, irectH = 0\<rparr>"
definition inull :: "qrect \<Rightarrow> bool" where "inull r \<longleftrightarrow> irectW r = 0 \<and> irectH r = 0"

definition isetLeft :: "int \<Rightarrow> qrect \<Rightarrow> qrect" where
  "isetLeft v r = r\<lparr>irectX := v, irectW := irectW r + (irectX r - v)\<rparr>"
definition isetTop :: "int \<Rightarrow> qrect \<Rightarrow> qrect" where
  "isetTop v r = r\<lparr>irectY := v, irectH := irectH r + (irectY r - v)\<rparr>"

text \<open>\<open>QRect::operator&\<close> and \<open>operator|\<close>: a rectangle with a negative size reaches from its right to its left edge.\<close>

definition ispan :: "int \<Rightarrow> int \<Rightarrow> int \<times> int" where
  "ispan x n = (if n < 0 then (x + n - 1, x) else (x, x + n - 1))"

definition iintersected :: "qrect \<Rightarrow> qrect \<Rightarrow> qrect" where
  "iintersected a b = (if inull a \<or> inull b then inullRect
     else (let (l1, r1) = ispan (irectX a) (irectW a); (l2, r2) = ispan (irectX b) (irectW b);
               (t1, b1) = ispan (irectY a) (irectH a); (t2, b2) = ispan (irectY b) (irectH b)
       in if r2 < l1 \<or> r1 < l2 \<or> b2 < t1 \<or> b1 < t2 then inullRect
          else \<lparr>irectX = max l1 l2, irectY = max t1 t2, irectW = min r1 r2 - max l1 l2 + 1, irectH = min b1 b2 - max t1 t2 + 1\<rparr>))"

definition iunited :: "qrect \<Rightarrow> qrect \<Rightarrow> qrect" where
  "iunited a b = (if inull a then b else if inull b then a
     else (let (l1, r1) = ispan (irectX a) (irectW a); (l2, r2) = ispan (irectX b) (irectW b);
               (t1, b1) = ispan (irectY a) (irectH a); (t2, b2) = ispan (irectY b) (irectH b)
       in \<lparr>irectX = min l1 l2, irectY = min t1 t2, irectW = max r1 r2 - min l1 l2 + 1, irectH = max b1 b2 - min t1 t2 + 1\<rparr>))"

definition irect_to_rectf :: "qrect \<Rightarrow> qrectf" where
  "irect_to_rectf r = \<lparr>rectX = of_int (irectX r), rectY = of_int (irectY r),
     rectW = of_int (irectW r), rectH = of_int (irectH r)\<rparr>"

lemmas irect_ops = iright_def ibottom_def ivalid_def

lemma iintersects_sym: "iintersects a b = iintersects b a"
  by (auto simp: iintersects_def)

lemma rintersects_sym: "rintersects a b = rintersects b a"
  by (auto simp: rintersects_def)

lemma rwithin_refl [simp]: "rwithin r r"
  by (simp add: rwithin_def)

lemma rwithin_trans: "rwithin a b \<Longrightarrow> rwithin b c \<Longrightarrow> rwithin a c"
  by (auto simp: rwithin_def)

text \<open>\<open>qRound\<close> rounds to the nearest integer, halves up; \<open>QRectF::toRect\<close> rounds the edges.\<close>

definition qRound :: "qreal \<Rightarrow> int" where "qRound x = \<lfloor>x + 1 / 2\<rfloor>"

definition rtoRect :: "qrectf \<Rightarrow> qrect" where
  "rtoRect r = \<lparr>irectX = qRound (rectX r), irectY = qRound (rectY r),
     irectW = qRound (rright r) - qRound (rectX r), irectH = qRound (rbottom r) - qRound (rectY r)\<rparr>"

definition rtoPoint :: "qpointf \<Rightarrow> qpoint" where
  "rtoPoint p = \<lparr>ipointX = qRound (pointX p), ipointY = qRound (pointY p)\<rparr>"

text \<open>\<open>std::clamp\<close> with ordered bounds.\<close>

definition clampTo :: "'a::linorder \<Rightarrow> 'a \<Rightarrow> 'a \<Rightarrow> 'a" where
  "clampTo lo hi v = (if v < lo then lo else if hi < v then hi else v)"

lemma qRound_of_int [simp]: "qRound (of_int n) = n"
  by (simp add: qRound_def) linarith

text \<open>The conversion of a number to \<open>int\<close> truncates towards zero.\<close>

definition trunc_int :: "qreal \<Rightarrow> int" where
  "trunc_int x = (if 0 \<le> x then \<lfloor>x\<rfloor> else \<lceil>x\<rceil>)"

definition idiv :: "int \<Rightarrow> int \<Rightarrow> int" where
  "idiv a b = sgn a * sgn b * (\<bar>a\<bar> div \<bar>b\<bar>)"

definition icenter :: "qrect \<Rightarrow> qpoint" where
  "icenter r = \<lparr>ipointX = idiv (irectX r + iright r) 2, ipointY = idiv (irectY r + ibottom r) 2\<rparr>"

lemma trunc_int_of_int [simp]: "trunc_int (of_int n) = n"
  by (simp add: trunc_int_def)

lemma trunc_int_le: "0 \<le> x \<Longrightarrow> of_int (trunc_int x) \<le> x"
  by (simp add: trunc_int_def)

lemma idiv_nonneg: "0 \<le> a \<Longrightarrow> 0 < b \<Longrightarrow> idiv a b = a div b"
  by (auto simp: idiv_def sgn_if)

section \<open>QRegion\<close>

text \<open>\<open>QRegion\<close> as a list of rectangles that are not empty.\<close>

definition iminus :: "qrect \<Rightarrow> qrect \<Rightarrow> qrect list" where
  "iminus a b = (if \<not> iintersects a b then filter ivalid [a]
     else (let t = max (irectY a) (irectY b); m = min (ibottom a) (ibottom b) in
       filter ivalid
         [a\<lparr>irectH := irectY b - irectY a\<rparr>,
          a\<lparr>irectY := ibottom b + 1, irectH := ibottom a - ibottom b\<rparr>,
          \<lparr>irectX = irectX a, irectY = t, irectW = irectX b - irectX a, irectH = m - t + 1\<rparr>,
          \<lparr>irectX = iright b + 1, irectY = t, irectW = iright a - iright b, irectH = m - t + 1\<rparr>]))"

definition regionMinus :: "qrect list \<Rightarrow> qrect \<Rightarrow> qrect list" where
  "regionMinus rs b = concat (map (\<lambda>a. iminus a b) rs)"

text \<open>Union, intersection, emptiness and equality as sets of points.\<close>

type_synonym qregion = "qrect list"

definition regionUnited :: "qregion \<Rightarrow> qregion \<Rightarrow> qregion" where
  "regionUnited a b = a @ filter ivalid b"

definition regionMeet :: "qregion \<Rightarrow> qregion \<Rightarrow> qregion" where
  "regionMeet a b = filter ivalid (concat (map (\<lambda>r. map (iintersected r) b) a))"

definition regionWithout :: "qregion \<Rightarrow> qregion \<Rightarrow> qregion" where
  "regionWithout a b = foldl regionMinus a b"

definition sameRegion :: "qregion \<Rightarrow> qregion \<Rightarrow> bool" where
  "sameRegion a b \<longleftrightarrow> regionWithout a b = [] \<and> regionWithout b a = []"

definition icontains :: "qrect \<Rightarrow> int \<Rightarrow> int \<Rightarrow> bool" where
  "icontains r x y \<longleftrightarrow> irectX r \<le> x \<and> x \<le> iright r \<and> irectY r \<le> y \<and> y \<le> ibottom r"

definition regionContains :: "qregion \<Rightarrow> int \<Rightarrow> int \<Rightarrow> bool" where
  "regionContains rs x y \<longleftrightarrow> list_ex (\<lambda>r. icontains r x y) rs"

text \<open>\<open>QRectF::toAlignedRect\<close>.\<close>

definition alignedRect :: "qrectf \<Rightarrow> qrect" where
  "alignedRect r = \<lparr>irectX = \<lfloor>rectX r\<rfloor>, irectY = \<lfloor>rectY r\<rfloor>,
     irectW = \<lceil>rright r\<rceil> - \<lfloor>rectX r\<rfloor>, irectH = \<lceil>rbottom r\<rceil> - \<lfloor>rectY r\<rfloor>\<rparr>"

end
