(* ===== verification/Window_Model.thy ===== *)
theory Window_Model
  imports Qt_Geometry
begin

text \<open>
  The facts about windows that the workspace components read, from \<open>src/src/window.cpp\<close>,
  \<open>src/src/window.h\<close> and \<open>src/src/utils/common.h\<close>. A \<open>Window\<close> is a record of its fields
  and of the values of its virtual getters (which the subclasses compute); the predicates that
  \<open>Window\<close> itself defines from them are functions. The record \<open>env\<close> is the rest of the
  process as these predicates see it: the manager's current desktop, the outputs, the options.
\<close>

section \<open>Types\<close>

text \<open>\<open>NET::WindowType\<close> values the code names.\<close>

datatype net_type = NETUnknown | NETNormal | NETDesktop | NETDock | NETToolbar | NETMenu
  | NETDialog | NETUtility | NETSplash | NETDropdownMenu | NETPopupMenu | NETTooltip
  | NETNotification | NETComboBox | NETDNDIcon | NETOnScreenDisplay | NETCriticalNotification
  | NETAppletPopup

datatype layer = UnknownLayer | UnderDesktopLayer | DesktopLayer | BelowLayer | NormalLayer
  | DockLayer | AboveLayer | NotificationLayer | ActiveLayer | PopupLayer
  | CriticalNotificationLayer | OnScreenDisplayLayer | UnmanagedLayer

text \<open>The numeric value of the enumerators.\<close>

fun layerIndex :: "layer \<Rightarrow> int" where
  "layerIndex UnknownLayer = -1"
| "layerIndex UnderDesktopLayer = 0"
| "layerIndex DesktopLayer = 1"
| "layerIndex BelowLayer = 2"
| "layerIndex NormalLayer = 3"
| "layerIndex DockLayer = 4"
| "layerIndex AboveLayer = 5"
| "layerIndex NotificationLayer = 6"
| "layerIndex ActiveLayer = 7"
| "layerIndex PopupLayer = 8"
| "layerIndex CriticalNotificationLayer = 9"
| "layerIndex OnScreenDisplayLayer = 10"
| "layerIndex UnmanagedLayer = 11"

lemma layerIndex_inj: "layerIndex a = layerIndex b \<Longrightarrow> a = b"
  by (cases a; cases b; simp)

instantiation layer :: linorder
begin

definition less_eq_layer :: "layer \<Rightarrow> layer \<Rightarrow> bool" where
  "less_eq_layer a b \<longleftrightarrow> layerIndex a \<le> layerIndex b"

definition less_layer :: "layer \<Rightarrow> layer \<Rightarrow> bool" where
  "less_layer a b \<longleftrightarrow> layerIndex a < layerIndex b"

instance
  by standard (auto simp: less_eq_layer_def less_layer_def intro: layerIndex_inj)

end

record window =
  windowType :: net_type
  desktops :: "vd list"
  activities :: "string list"
  outputOf :: outp
  frameGeometry :: qrectf
  isClient :: bool
  isUnmanaged :: bool
  isInternal :: bool
  isLockScreen :: bool
  isLockScreenOverlay :: bool
  isInputMethod :: bool
  isOverride :: bool
  isActiveFullScreenRole :: bool
  belongsToDesktop :: bool
  isFullScreen :: bool
  isMinimized :: bool
  isShade :: bool
  isShown :: bool
  wantsInput :: bool
  keepAbove :: bool
  keepBelow :: bool
  isModal :: bool
  groupTransient :: bool
  hasTransientPlacementHint :: bool
  isX11 :: bool
  isTransient :: bool
  transientFor :: "wid option"

record env =
  windowAt :: "wid \<Rightarrow> window"
  currentDesktop :: "vd option"
  currentActivity :: "string option"
  activeOutput :: outp
  outputGeometry :: "outp \<Rightarrow> qrect"
  toRect :: "qrectf \<Rightarrow> qrect"
  belongToSameApplication :: "wid \<Rightarrow> wid \<Rightarrow> bool"
  moveMinimizedWindowsToEnd :: bool
  isWaylandServer :: bool
  isScreenLocked :: bool
  showingDesktop :: bool
  previewingClients :: "wid list"
  mostRecentlyActivated :: "wid option"
  allMainWindows :: "wid \<Rightarrow> wid list"

section \<open>Desktops, activities, outputs\<close>

definition isOnAllDesktops :: "window \<Rightarrow> bool" where
  "isOnAllDesktops c \<longleftrightarrow> desktops c = []"

definition isOnDesktop :: "window \<Rightarrow> vd option \<Rightarrow> bool" where
  "isOnDesktop c d \<longleftrightarrow> isOnAllDesktops c \<or> (case d of None \<Rightarrow> False | Some v \<Rightarrow> v \<in> set (desktops c))"

definition isOnCurrentDesktop :: "env \<Rightarrow> window \<Rightarrow> bool" where
  "isOnCurrentDesktop E c = isOnDesktop c (currentDesktop E)"

definition isOnActivity :: "window \<Rightarrow> string \<Rightarrow> bool" where
  "isOnActivity c a \<longleftrightarrow> activities c = [] \<or> a \<in> set (activities c)"

definition isOnCurrentActivity :: "env \<Rightarrow> window \<Rightarrow> bool" where
  "isOnCurrentActivity E c =
     (case currentActivity E of None \<Rightarrow> True | Some a \<Rightarrow> isOnActivity c a)"

definition isOnOutput :: "env \<Rightarrow> window \<Rightarrow> outp \<Rightarrow> bool" where
  "isOnOutput E c out = iintersects (outputGeometry E out) (toRect E (frameGeometry c))"

section \<open>Window types\<close>

abbreviation isDesktop :: "window \<Rightarrow> bool" where "isDesktop c \<equiv> windowType c = NETDesktop"
abbreviation isDock :: "window \<Rightarrow> bool" where "isDock c \<equiv> windowType c = NETDock"
abbreviation isToolbar :: "window \<Rightarrow> bool" where "isToolbar c \<equiv> windowType c = NETToolbar"
abbreviation isSplash :: "window \<Rightarrow> bool" where "isSplash c \<equiv> windowType c = NETSplash"
abbreviation isUtility :: "window \<Rightarrow> bool" where "isUtility c \<equiv> windowType c = NETUtility"
abbreviation isDialog :: "window \<Rightarrow> bool" where "isDialog c \<equiv> windowType c = NETDialog"
abbreviation isNormalWindow :: "window \<Rightarrow> bool" where "isNormalWindow c \<equiv> windowType c = NETNormal"
abbreviation isNotification :: "window \<Rightarrow> bool" where
  "isNotification c \<equiv> windowType c = NETNotification"
abbreviation isCriticalNotification :: "window \<Rightarrow> bool" where
  "isCriticalNotification c \<equiv> windowType c = NETCriticalNotification"
abbreviation isAppletPopup :: "window \<Rightarrow> bool" where "isAppletPopup c \<equiv> windowType c = NETAppletPopup"
abbreviation isOnScreenDisplay :: "window \<Rightarrow> bool" where
  "isOnScreenDisplay c \<equiv> windowType c = NETOnScreenDisplay"

definition isPopupWindow :: "window \<Rightarrow> bool" where
  "isPopupWindow c = (case windowType c of
      NETComboBox \<Rightarrow> True | NETDropdownMenu \<Rightarrow> True | NETPopupMenu \<Rightarrow> True | NETTooltip \<Rightarrow> True
    | _ \<Rightarrow> False)"

definition wantsTabFocus :: "window \<Rightarrow> bool" where
  "wantsTabFocus c \<longleftrightarrow> (isNormalWindow c \<or> isDialog c \<or> isAppletPopup c) \<and> wantsInput c"

definition isSpecialWindow :: "window \<Rightarrow> bool" where
  "isSpecialWindow c \<longleftrightarrow> isDesktop c \<or> isDock c \<or> isSplash c \<or> isToolbar c \<or> isNotification c
     \<or> isOnScreenDisplay c \<or> isCriticalNotification c"

section \<open>Layers\<close>

definition layerForDock :: "window \<Rightarrow> layer" where
  "layerForDock c = (if keepBelow c then NormalLayer
     else if keepAbove c then AboveLayer else DockLayer)"

definition isActiveFullScreen :: "env \<Rightarrow> wid \<Rightarrow> bool" where
  "isActiveFullScreen E w = (let c = windowAt E w in
     if \<not> isFullScreen c then False
     else (case mostRecentlyActivated E of None \<Rightarrow> False
       | Some ac \<Rightarrow> ac = w \<or> \<not> isOnOutput E (windowAt E ac) (outputOf c) \<or> w \<in> set (allMainWindows E ac)))"

definition previewingClientList :: "env \<Rightarrow> bool" where
  "previewingClientList E \<longleftrightarrow> previewingClients E \<noteq> []"

definition previewingClient :: "env \<Rightarrow> wid \<Rightarrow> bool" where
  "previewingClient E w \<longleftrightarrow> w \<in> set (previewingClients E)"

definition belongsToLayer :: "env \<Rightarrow> wid \<Rightarrow> layer" where
  "belongsToLayer E w = (let c = windowAt E w in
     if isUnmanaged c \<or> isInternal c then UnmanagedLayer
     else if isLockScreen c \<and> \<not> isWaylandServer E then UnmanagedLayer
     else if isInputMethod c then UnmanagedLayer
     else if isLockScreenOverlay c \<and> isWaylandServer E \<and> isScreenLocked E then UnmanagedLayer
     else if isDesktop c then (if showingDesktop E then AboveLayer else DesktopLayer)
     else if isSplash c then NormalLayer
     else if isDock c \<or> isAppletPopup c
       then (if showingDesktop E then NotificationLayer else layerForDock c)
     else if previewingClientList E \<and> \<not> previewingClient E w then UnderDesktopLayer
     else if isOverride c then UnmanagedLayer
     else if isPopupWindow c then PopupLayer
     else if isOnScreenDisplay c then OnScreenDisplayLayer
     else if isNotification c then NotificationLayer
     else if isCriticalNotification c then CriticalNotificationLayer
     else if showingDesktop E \<and> belongsToDesktop c then AboveLayer
     else if keepBelow c then BelowLayer
     else if isActiveFullScreen E w \<or> isActiveFullScreenRole c then ActiveLayer
     else if keepAbove c then (if showingDesktop E then NormalLayer else AboveLayer)
     else if showingDesktop E \<and> previewingClientList E \<and> previewingClient E w then AboveLayer
     else NormalLayer)"

text \<open>Whether a transient is kept above its parent (\<open>shouldKeepTransientAbove\<close>).\<close>

definition shouldKeepTransientAbove :: "window \<Rightarrow> window \<Rightarrow> bool" where
  "shouldKeepTransientAbove parent transient =
     (if isSplash transient \<and> isDialog parent then False
      else if isDialog transient \<and> \<not> isModal transient \<and> groupTransient transient then False
      else if isDock parent \<and> \<not> hasTransientPlacementHint transient then False
      else True)"

text \<open>No window is computed into the unknown layer, so \<open>Window::layer\<close> never caches it.\<close>

lemma belongsToLayer_known: "belongsToLayer E w \<noteq> UnknownLayer"
  by (simp add: belongsToLayer_def layerForDock_def Let_def)

lemma layerIndex_range: "l \<noteq> UnknownLayer \<Longrightarrow> 0 \<le> layerIndex l \<and> layerIndex l < 12"
  by (cases l) auto

end
