(* ===== verification/Focus_Chain.thy ===== *)
theory Focus_Chain
  imports Window_Model
begin

text \<open>
  \<open>FocusChain\<close> (\<open>src/src/focuschain.cpp\<close>): one chain of windows per virtual desktop and one
  most-recently-used chain; the last element of a chain is the most recent. The \<open>QHash\<close> of
  chains is an association list with distinct keys (its iteration order is arbitrary, and every
  loop over it treats the keys independently). A position outside \<open>0 .. size\<close> given to
  \<open>QList::insert\<close> fails its assertion: the result is \<open>None\<close>.
\<close>

type_synonym chain = "wid list"

datatype change = MakeFirst | MakeLast | Update

record focus_chain =
  m_mostRecentlyUsed :: chain
  m_desktopFocusChains :: "(vd \<times> chain) list"
  m_separateScreenFocus :: bool
  m_activeWindow :: "wid option"
  m_currentDesktop :: "vd option"

section \<open>Operations on one chain\<close>

definition makeLastInChain :: "wid \<Rightarrow> chain \<Rightarrow> chain" where
  "makeLastInChain w chain = w # removeAll w chain"

text \<open>A minimized window goes right after the last minimized one, or to the front of the list
  (the end of the chain) when there is none.\<close>

definition makeFirstInChain :: "env \<Rightarrow> wid \<Rightarrow> chain \<Rightarrow> chain" where
  "makeFirstInChain E w chain = (let chain' = removeAll w chain in
     if moveMinimizedWindowsToEnd E then
       (if isMinimized (windowAt E w) then
          (let i = lastIndexWhere (\<lambda>x. isMinimized (windowAt E x)) chain' in
           if 0 \<le> i then list_insert (nat (i + 1)) w chain'
           else w # chain')
        else chain' @ [w])
     else chain' @ [w])"

definition insertWindowIntoChain :: "wid option \<Rightarrow> wid \<Rightarrow> chain \<Rightarrow> chain" where
  "insertWindowIntoChain active w chain =
     (if w \<in> set chain then chain
      else if active \<noteq> None \<and> active \<noteq> Some w \<and> chain \<noteq> [] \<and> Some (last chain) = active
      then list_insert (length chain - 1) w chain
      else chain @ [w])"

definition updateWindowInChain :: "env \<Rightarrow> wid option \<Rightarrow> wid \<Rightarrow> change \<Rightarrow> chain \<Rightarrow> chain" where
  "updateWindowInChain E active w change chain =
     (if change = MakeFirst then makeFirstInChain E w chain
      else if change = MakeLast then makeLastInChain w chain
      else insertWindowIntoChain active w chain)"

definition moveAfterWindowInChain :: "env \<Rightarrow> wid \<Rightarrow> wid option \<Rightarrow> chain \<Rightarrow> chain option" where
  "moveAfterWindowInChain E w reference chain =
     (case reference of None \<Rightarrow> Some chain
      | Some ref \<Rightarrow>
        if ref \<notin> set chain then Some chain
        else (let chain' = removeAll w chain in
          if belongToSameApplication E ref w then insertAt (indexOf chain' ref) w chain'
          else (let i = lastIndexWhere (\<lambda>x. belongToSameApplication E ref x) chain' in
                if 0 \<le> i then insertAt i w chain' else Some chain')))"

section \<open>Operations on all chains\<close>

text \<open>A loop over \<open>m_desktopFocusChains\<close> that rewrites every chain.\<close>

definition mapChains :: "(vd \<Rightarrow> chain \<Rightarrow> chain) \<Rightarrow> (vd \<times> chain) list \<Rightarrow> (vd \<times> chain) list" where
  "mapChains f m = map (\<lambda>(d, c). (d, f d c)) m"

definition remove :: "wid \<Rightarrow> focus_chain \<Rightarrow> focus_chain" where
  "remove w s = s\<lparr>
     m_desktopFocusChains := mapChains (\<lambda>_ c. removeAll w c) (m_desktopFocusChains s),
     m_mostRecentlyUsed := removeAll w (m_mostRecentlyUsed s)\<rparr>"

definition addDesktop :: "vd \<Rightarrow> focus_chain \<Rightarrow> focus_chain" where
  "addDesktop d s = s\<lparr>m_desktopFocusChains :=
     (d, []) # filter (\<lambda>(k, _). k \<noteq> d) (m_desktopFocusChains s)\<rparr>"

definition removeDesktop :: "vd \<Rightarrow> focus_chain \<Rightarrow> focus_chain" where
  "removeDesktop d s = (let s' = (if m_currentDesktop s = Some d then s\<lparr>m_currentDesktop := None\<rparr> else s)
     in s'\<lparr>m_desktopFocusChains := filter (\<lambda>(k, _). k \<noteq> d) (m_desktopFocusChains s')\<rparr>)"

definition setSeparateScreenFocus :: "bool \<Rightarrow> focus_chain \<Rightarrow> focus_chain" where
  "setSeparateScreenFocus b s = s\<lparr>m_separateScreenFocus := b\<rparr>"

definition setActiveWindow :: "wid option \<Rightarrow> focus_chain \<Rightarrow> focus_chain" where
  "setActiveWindow w s = s\<lparr>m_activeWindow := w\<rparr>"

definition setCurrentDesktop :: "vd option \<Rightarrow> focus_chain \<Rightarrow> focus_chain" where
  "setCurrentDesktop d s = s\<lparr>m_currentDesktop := d\<rparr>"

definition update :: "env \<Rightarrow> wid \<Rightarrow> change \<Rightarrow> focus_chain \<Rightarrow> focus_chain" where
  "update E w change s =
     (if \<not> wantsTabFocus (windowAt E w) then remove w s
      else (let s' =
        (if isOnAllDesktops (windowAt E w) then
           s\<lparr>m_desktopFocusChains := mapChains (\<lambda>d c.
               if Some d = m_currentDesktop s \<and> (change = MakeFirst \<or> change = MakeLast)
               then (if change = MakeFirst then makeFirstInChain E w c else makeLastInChain w c)
               else insertWindowIntoChain (m_activeWindow s) w c) (m_desktopFocusChains s)\<rparr>
         else
           s\<lparr>m_desktopFocusChains := mapChains (\<lambda>d c.
               if isOnDesktop (windowAt E w) (Some d)
               then updateWindowInChain E (m_activeWindow s) w change c
               else removeAll w c) (m_desktopFocusChains s)\<rparr>)
      in s'\<lparr>m_mostRecentlyUsed :=
           updateWindowInChain E (m_activeWindow s') w change (m_mostRecentlyUsed s')\<rparr>))"

definition moveAfterWindow :: "env \<Rightarrow> wid \<Rightarrow> wid option \<Rightarrow> focus_chain \<Rightarrow> focus_chain option" where
  "moveAfterWindow E w reference s =
     (if \<not> wantsTabFocus (windowAt E w) then Some s
      else (case those (map (\<lambda>(d, c).
               if \<not> isOnDesktop (windowAt E w) (Some d) then Some (d, c)
               else map_option (Pair d) (moveAfterWindowInChain E w reference c))
               (m_desktopFocusChains s)) of
          None \<Rightarrow> None
        | Some m \<Rightarrow> (case moveAfterWindowInChain E w reference (m_mostRecentlyUsed s) of
            None \<Rightarrow> None
          | Some mru \<Rightarrow> Some (s\<lparr>m_desktopFocusChains := m, m_mostRecentlyUsed := mru\<rparr>))))"

section \<open>Queries\<close>

definition getForActivation :: "env \<Rightarrow> vd \<Rightarrow> outp \<Rightarrow> focus_chain \<Rightarrow> wid option" where
  "getForActivation E d out s =
     (case map_of (m_desktopFocusChains s) d of None \<Rightarrow> None
      | Some chain \<Rightarrow> findLast (\<lambda>x. let c = windowAt E x in
          \<not> isShade c \<and> isShown c \<and> isOnCurrentActivity E c
          \<and> (\<not> m_separateScreenFocus s \<or> outputOf c = out)) chain)"

definition getForActivationOnActiveOutput :: "env \<Rightarrow> vd \<Rightarrow> focus_chain \<Rightarrow> wid option" where
  "getForActivationOnActiveOutput E d s = getForActivation E d (activeOutput E) s"

definition isUsableFocusCandidate :: "env \<Rightarrow> wid \<Rightarrow> wid option \<Rightarrow> focus_chain \<Rightarrow> bool" where
  "isUsableFocusCandidate E x prev s \<longleftrightarrow> (let c = windowAt E x in
     Some x \<noteq> prev \<and> \<not> isShade c \<and> isShown c \<and> isOnCurrentDesktop E c \<and> isOnCurrentActivity E c
     \<and> (\<not> m_separateScreenFocus s \<or> isOnOutput E c
          (case prev of Some p \<Rightarrow> outputOf (windowAt E p) | None \<Rightarrow> activeOutput E)))"

definition nextForDesktop :: "env \<Rightarrow> wid option \<Rightarrow> vd \<Rightarrow> focus_chain \<Rightarrow> wid option" where
  "nextForDesktop E reference d s =
     (case map_of (m_desktopFocusChains s) d of None \<Rightarrow> None
      | Some chain \<Rightarrow> findLast (\<lambda>x. isUsableFocusCandidate E x reference s) chain)"

definition firstMostRecentlyUsed :: "focus_chain \<Rightarrow> wid option" where
  "firstMostRecentlyUsed s =
     (if m_mostRecentlyUsed s = [] then None else Some (hd (m_mostRecentlyUsed s)))"

definition nextMostRecentlyUsed :: "wid \<Rightarrow> focus_chain \<Rightarrow> wid option" where
  "nextMostRecentlyUsed reference s = (let m = m_mostRecentlyUsed s in
     if m = [] then None
     else (let index = indexOf m reference in
       if index = -1 then Some (hd m)
       else if index = 0 then Some (last m)
       else Some (m ! nat (index - 1))))"

definition containsWindow :: "wid \<Rightarrow> focus_chain \<Rightarrow> bool" where
  "containsWindow w s \<longleftrightarrow> w \<in> set (m_mostRecentlyUsed s)"

definition containsWindowOn :: "wid \<Rightarrow> vd \<Rightarrow> focus_chain \<Rightarrow> bool" where
  "containsWindowOn w d s \<longleftrightarrow>
     (case map_of (m_desktopFocusChains s) d of None \<Rightarrow> False | Some c \<Rightarrow> w \<in> set c)"

section \<open>Every chain operation is an edit of its window\<close>

interpretation drop: list_edit "removeAll w" w for w
  by unfold_locales (auto simp: distinct_removeAll)

lemma removeAll_makeFirst: "removeAll w (makeFirstInChain E w c) = removeAll w c"
  by (simp add: makeFirstInChain_def Let_def list_ops)

interpretation mkLast: list_placing "makeLastInChain w" w for w
  by unfold_locales (auto simp: makeLastInChain_def distinct_removeAll)

interpretation mkFirst: list_placing "makeFirstInChain E w" w for E w
proof unfold_locales
  show "removeAll w (makeFirstInChain E w c) = removeAll w c" for c
    by (rule removeAll_makeFirst)
  show "distinct (makeFirstInChain E w c)" if "distinct c" for c
    using that by (simp add: makeFirstInChain_def Let_def distinct_removeAll list_ops)
  show "w \<in> set (makeFirstInChain E w c)" for c
    by (simp add: makeFirstInChain_def Let_def list_ops)
qed

interpretation ins: list_placing "insertWindowIntoChain a w" w for a w
  by unfold_locales (auto simp: insertWindowIntoChain_def list_ops)

interpretation upd: list_placing "updateWindowInChain E a w ch" w for E a w ch
  by unfold_locales (auto simp: updateWindowInChain_def mkFirst.keeps_rest mkLast.keeps_rest
      ins.keeps_rest mkFirst.places mkLast.places ins.places
      intro: mkFirst.keeps_distinct mkLast.keeps_distinct ins.keeps_distinct)

lemma moveAfter_rest:
  "moveAfterWindowInChain E w r c = Some c' \<Longrightarrow> removeAll w c' = removeAll w c"
  by (auto simp: moveAfterWindowInChain_def Let_def dest: insertAt_removeAll
      split: option.splits if_splits)

lemma moveAfter_distinct:
  "moveAfterWindowInChain E w r c = Some c' \<Longrightarrow> distinct c \<Longrightarrow> distinct c'"
  by (auto simp: moveAfterWindowInChain_def Let_def distinct_removeAll dest: insertAt_distinct
      split: option.splits if_splits)

lemma moveAfter_mem:
  assumes "moveAfterWindowInChain E w r c = Some c'" "x \<noteq> w"
  shows "x \<in> set c' \<longleftrightarrow> x \<in> set c"
  using arg_cong[OF moveAfter_rest[OF assms(1)], of set] assms(2) by auto

text \<open>Whether the moved window ends up in a chain: it stays out where the reference is absent,
  and otherwise it is put in exactly when some other member counts as the same application.\<close>

lemma moveAfter_moved:
  assumes "moveAfterWindowInChain E w r c = Some c'"
  shows "w \<in> set c' \<longleftrightarrow>
    (case r of None \<Rightarrow> w \<in> set c
     | Some ref \<Rightarrow> if ref \<notin> set c then w \<in> set c
        else belongToSameApplication E ref w
          \<or> (\<exists>x \<in> set c. x \<noteq> w \<and> belongToSameApplication E ref x))"
proof -
  have neg: "lastIndexWhere (\<lambda>x. belongToSameApplication E ref x) (removeAll w c) < 0
      \<longleftrightarrow> \<not> (\<exists>x \<in> set c. x \<noteq> w \<and> belongToSameApplication E ref x)" for ref
    by (auto simp: lastIndexWhere_neg)
  show ?thesis
    using assms neg by (auto simp: moveAfterWindowInChain_def Let_def not_less[symmetric]
        dest: insertAt_set split: option.splits if_splits)
qed

section \<open>The invariant and its preservation\<close>

text \<open>No chain holds a window twice, no desktop has two chains, and the chains of the desktops
  hold only windows of the most-recently-used chain.\<close>

definition fc_inv :: "focus_chain \<Rightarrow> bool" where
  "fc_inv s \<longleftrightarrow> distinct (map fst (m_desktopFocusChains s)) \<and> distinct (m_mostRecentlyUsed s) \<and>
     (\<forall>(d, c) \<in> set (m_desktopFocusChains s). distinct c \<and> set c \<subseteq> set (m_mostRecentlyUsed s))"

lemma fc_invD:
  assumes "fc_inv s"
  shows "distinct (map fst (m_desktopFocusChains s))" and "distinct (m_mostRecentlyUsed s)"
    and "(d, c) \<in> set (m_desktopFocusChains s) \<Longrightarrow> distinct c"
    and "(d, c) \<in> set (m_desktopFocusChains s) \<Longrightarrow> set c \<subseteq> set (m_mostRecentlyUsed s)"
  using assms by (auto simp: fc_inv_def)

lemma map_fst_mapChains [simp]: "map fst (mapChains f m) = map fst m"
  by (induction m) (auto simp: mapChains_def)

lemma map_of_mapChains: "map_of (mapChains f m) d = map_option (f d) (map_of m d)"
  by (induction m) (auto simp: mapChains_def)

lemma mem_mapChains: "(d, c') \<in> set (mapChains f m) \<longleftrightarrow> (\<exists>c. (d, c) \<in> set m \<and> c' = f d c)"
  by (auto simp: mapChains_def)

text \<open>Rewriting every chain by an edit of \<open>w\<close> keeps the invariant, when the edit of the
  most-recently-used chain is compatible.\<close>

lemma fc_inv_mapChains:
  assumes "fc_inv s"
    and dist: "\<And>d c. distinct c \<Longrightarrow> distinct (f d c)" and "distinct mru"
    and sub: "\<And>d c. (d, c) \<in> set (m_desktopFocusChains s) \<Longrightarrow> set (f d c) \<subseteq> set mru"
  shows "fc_inv (s\<lparr>m_desktopFocusChains := mapChains f (m_desktopFocusChains s),
    m_mostRecentlyUsed := mru\<rparr>)"
proof -
  have "distinct c' \<and> set c' \<subseteq> set mru"
    if "(d, c') \<in> set (mapChains f (m_desktopFocusChains s))" for d c'
    using that fc_invD(3)[OF assms(1)] dist sub unfolding mem_mapChains by blast
  then show ?thesis using assms(3) fc_invD(1)[OF assms(1)] by (auto simp: fc_inv_def)
qed

lemma remove_inv: "fc_inv s \<Longrightarrow> fc_inv (remove w s)"
  unfolding remove_def
  by (rule fc_inv_mapChains) (auto simp: distinct_removeAll dest: fc_invD)

text \<open>The edit that \<open>update\<close> applies to the chain of one desktop.\<close>

definition updateChain :: "env \<Rightarrow> wid \<Rightarrow> change \<Rightarrow> focus_chain \<Rightarrow> vd \<Rightarrow> chain \<Rightarrow> chain" where
  "updateChain E w change s d c =
     (if isOnAllDesktops (windowAt E w) then
        (if Some d = m_currentDesktop s \<and> change \<noteq> Update
         then updateWindowInChain E (m_activeWindow s) w change c
         else insertWindowIntoChain (m_activeWindow s) w c)
      else if isOnDesktop (windowAt E w) (Some d)
      then updateWindowInChain E (m_activeWindow s) w change c else removeAll w c)"

lemma update_eq:
  "update E w change s =
     (if wantsTabFocus (windowAt E w) then
        s\<lparr>m_desktopFocusChains := mapChains (updateChain E w change s) (m_desktopFocusChains s),
          m_mostRecentlyUsed := updateWindowInChain E (m_activeWindow s) w change (m_mostRecentlyUsed s)\<rparr>
      else remove w s)"
proof -
  have "(\<lambda>d c. if Some d = m_currentDesktop s \<and> (change = MakeFirst \<or> change = MakeLast)
          then if change = MakeFirst then makeFirstInChain E w c else makeLastInChain w c
          else insertWindowIntoChain (m_activeWindow s) w c) = updateChain E w change s"
    if "isOnAllDesktops (windowAt E w)"
    using that by (intro ext) (cases change; auto simp: updateChain_def updateWindowInChain_def)
  moreover have "(\<lambda>d c. if isOnDesktop (windowAt E w) (Some d)
          then updateWindowInChain E (m_activeWindow s) w change c else removeAll w c) =
        updateChain E w change s"
    if "\<not> isOnAllDesktops (windowAt E w)"
    using that by (intro ext) (simp add: updateChain_def)
  ultimately show ?thesis by (simp add: update_def Let_def)
qed

interpretation updChain: list_edit "updateChain E w change s d" w for E w change s d
  by unfold_locales (auto simp: updateChain_def upd.keeps_rest ins.keeps_rest distinct_removeAll
      intro: upd.keeps_distinct ins.keeps_distinct)

lemma updateChain_mem:
  "w \<in> set (updateChain E w change s d c) \<longleftrightarrow> isOnDesktop (windowAt E w) (Some d)"
  by (auto simp: updateChain_def upd.places ins.places isOnDesktop_def)

lemma update_inv:
  assumes "fc_inv s"
  shows "fc_inv (update E w change s)"
proof (cases "wantsTabFocus (windowAt E w)")
  case True
  have "fc_inv (s\<lparr>m_desktopFocusChains := mapChains (updateChain E w change s) (m_desktopFocusChains s),
      m_mostRecentlyUsed := updateWindowInChain E (m_activeWindow s) w change (m_mostRecentlyUsed s)\<rparr>)"
  proof (rule fc_inv_mapChains[OF assms])
    show "set (updateChain E w change s d c)
        \<subseteq> set (updateWindowInChain E (m_activeWindow s) w change (m_mostRecentlyUsed s))"
      if "(d, c) \<in> set (m_desktopFocusChains s)" for d c
      using updChain.set_bound[of E w change s d c] fc_invD(4)[OF assms that]
      by (auto simp: upd.set_placed)
  qed (use fc_invD(2)[OF assms] in \<open>auto intro: updChain.keeps_distinct upd.keeps_distinct\<close>)
  with True show ?thesis by (simp add: update_eq)
qed (simp add: update_eq remove_inv assms)

lemma addDesktop_inv: "fc_inv s \<Longrightarrow> fc_inv (addDesktop d s)"
  by (auto simp: fc_inv_def addDesktop_def distinct_map_filter)

lemma removeDesktop_inv: "fc_inv s \<Longrightarrow> fc_inv (removeDesktop d s)"
  by (auto simp: fc_inv_def removeDesktop_def Let_def distinct_map_filter)

lemma moveAfterWindow_Some:
  assumes "moveAfterWindow E w r s = Some t" "wantsTabFocus (windowAt E w)"
  shows "moveAfterWindowInChain E w r (m_mostRecentlyUsed s) = Some (m_mostRecentlyUsed t)"
    and "map fst (m_desktopFocusChains t) = map fst (m_desktopFocusChains s)"
    and "(d, c') \<in> set (m_desktopFocusChains t) \<Longrightarrow> \<exists>c. (d, c) \<in> set (m_desktopFocusChains s) \<and>
      (if isOnDesktop (windowAt E w) (Some d)
       then moveAfterWindowInChain E w r c = Some c' else c' = c)"
proof -
  let ?f = "\<lambda>(d, c). if \<not> isOnDesktop (windowAt E w) (Some d) then Some (d, c)
               else map_option (Pair d) (moveAfterWindowInChain E w r c)"
  from assms obtain m where m: "those (map ?f (m_desktopFocusChains s)) = Some m"
    and t: "moveAfterWindowInChain E w r (m_mostRecentlyUsed s) = Some (m_mostRecentlyUsed t)"
      "m_desktopFocusChains t = m"
    by (auto simp: moveAfterWindow_def split: option.splits)
  then have eq: "map ?f (m_desktopFocusChains s) = map Some (m_desktopFocusChains t)"
    by (simp add: those_Some_iff)
  show "moveAfterWindowInChain E w r (m_mostRecentlyUsed s) = Some (m_mostRecentlyUsed t)" by (rule t(1))
  have f_fst: "fst p = fst q" if "?f p = Some q" for p q
    using that by (auto split: if_splits prod.splits)
  have len: "length (m_desktopFocusChains t) = length (m_desktopFocusChains s)"
    using arg_cong[OF eq, of length] by simp
  have nth: "?f (m_desktopFocusChains s ! i) = Some (m_desktopFocusChains t ! i)"
    if "i < length (m_desktopFocusChains s)" for i
    using arg_cong[OF eq, of "\<lambda>l. l ! i"] that len by simp
  show "map fst (m_desktopFocusChains t) = map fst (m_desktopFocusChains s)"
    using f_fst[OF nth] len by (intro nth_equalityI) auto
  show "\<exists>c. (d, c) \<in> set (m_desktopFocusChains s) \<and>
      (if isOnDesktop (windowAt E w) (Some d)
       then moveAfterWindowInChain E w r c = Some c' else c' = c)"
    if mem: "(d, c') \<in> set (m_desktopFocusChains t)"
  proof -
    from mem obtain i where i: "i < length (m_desktopFocusChains s)" "m_desktopFocusChains t ! i = (d, c')"
      by (metis in_set_conv_nth len)
    obtain c where c: "m_desktopFocusChains s ! i = (d, c)"
      using f_fst[OF nth[OF i(1)]] i(2) by (metis fst_conv prod.collapse)
    then have "(d, c) \<in> set (m_desktopFocusChains s)" using i(1) nth_mem by metis
    with nth[OF i(1)] i(2) c show ?thesis by (auto split: if_splits)
  qed
qed

text \<open>Where every window counts as its own application, the reference keeps the moved window in
  the most-recently-used chain.\<close>

lemma moveAfter_kept:
  assumes "moveAfterWindowInChain E w r c = Some c'" "\<forall>x. belongToSameApplication E x x" "w \<in> set c"
  shows "w \<in> set c'"
  using moveAfter_moved[OF assms(1)] assms(2,3) by (auto split: option.splits if_splits)

lemma moveAfterWindow_inv:
  assumes "fc_inv s" "moveAfterWindow E w r s = Some t" "\<forall>x. belongToSameApplication E x x"
  shows "fc_inv t"
proof (cases "wantsTabFocus (windowAt E w)")
  case True
  note moved = moveAfterWindow_Some[OF assms(2) True]
  have "distinct c' \<and> set c' \<subseteq> set (m_mostRecentlyUsed t)"
    if dc': "(d, c') \<in> set (m_desktopFocusChains t)" for d c'
  proof -
    obtain c where c: "(d, c) \<in> set (m_desktopFocusChains s)"
      "if isOnDesktop (windowAt E w) (Some d) then moveAfterWindowInChain E w r c = Some c' else c' = c"
      using moved(3)[OF dc'] by blast
    note old = fc_invD(3,4)[OF assms(1) c(1)]
    have others: "x \<in> set (m_mostRecentlyUsed t)" if "x \<in> set c'" "x \<noteq> w" for x
      using that c(2) old moveAfter_mem[of E w r c c' x] moveAfter_mem[OF moved(1), of x]
      by (auto split: if_splits)
    have "w \<in> set (m_mostRecentlyUsed t)" if wc': "w \<in> set c'"
    proof (cases "w \<in> set c")
      case True
      then show ?thesis using old(2) moveAfter_kept[OF moved(1) assms(3)] by blast
    next
      case False
      then obtain ref where "r = Some ref" "ref \<in> set c"
        using wc' c(2) moveAfter_moved[of E w r c c'] by (auto split: option.splits if_splits)
      then show ?thesis using old(2) False assms(3) moveAfter_moved[OF moved(1)] by auto
    qed
    then have "set c' \<subseteq> set (m_mostRecentlyUsed t)" using others by blast
    moreover have "distinct c'"
      using old(1) c(2) moveAfter_distinct[of E w r c c'] by (auto split: if_splits)
    ultimately show ?thesis by blast
  qed
  then show ?thesis using moved(1,2) fc_invD(1,2)[OF assms(1)] moveAfter_distinct
    by (auto simp: fc_inv_def)
qed (use assms in \<open>simp add: moveAfterWindow_def\<close>)

section \<open>Reachable focus chains\<close>

text \<open>A focus chain is only changed through its slots and methods; each call sees some state of
  the windows (\<open>E\<close>), which other code changes in between.\<close>

inductive fc_step :: "focus_chain \<Rightarrow> focus_chain \<Rightarrow> bool" where
  fc_remove: "fc_step s (remove w s)"
| fc_addDesktop: "fc_step s (addDesktop d s)"
| fc_removeDesktop: "fc_step s (removeDesktop d s)"
| fc_setSeparate: "fc_step s (setSeparateScreenFocus b s)"
| fc_setActive: "fc_step s (setActiveWindow a s)"
| fc_setCurrent: "fc_step s (setCurrentDesktop cd s)"
| fc_update: "fc_step s (update E w ch s)"
| fc_moveAfter: "moveAfterWindow E w r s = Some t \<Longrightarrow> \<forall>x. belongToSameApplication E x x \<Longrightarrow> fc_step s t"

definition fc_init :: focus_chain where
  "fc_init = \<lparr>m_mostRecentlyUsed = [], m_desktopFocusChains = [], m_separateScreenFocus = False,
     m_activeWindow = None, m_currentDesktop = None\<rparr>"

inductive fc_reachable :: "focus_chain \<Rightarrow> bool" where
  fc_start: "fc_reachable fc_init"
| fc_next: "fc_reachable s \<Longrightarrow> fc_step s t \<Longrightarrow> fc_reachable t"

lemma fc_step_inv: "fc_step s t \<Longrightarrow> fc_inv s \<Longrightarrow> fc_inv t"
proof (induction rule: fc_step.induct)
  case (fc_moveAfter E w r s t)
  then show ?case by (blast intro: moveAfterWindow_inv)
next
  case (fc_update s E w ch)
  then show ?case by (simp add: update_inv)
qed (simp_all add: remove_inv addDesktop_inv removeDesktop_inv,
     simp_all add: fc_inv_def setSeparateScreenFocus_def setActiveWindow_def setCurrentDesktop_def)

lemma fc_reachable_inv: "fc_reachable s \<Longrightarrow> fc_inv s"
proof (induction rule: fc_reachable.induct)
  case fc_start
  show ?case by (simp add: fc_init_def fc_inv_def)
qed (rule fc_step_inv)

section \<open>Properties\<close>

text \<open>C1: Whatever sequence of slots and methods has run since construction (with windows changing
  arbitrarily in between), no focus chain contains a window twice, every desktop has at most one
  chain, and every window of a desktop's chain is in the most-recently-used chain.\<close>

theorem fc_reachable_wellformed:
  assumes "fc_reachable s"
  shows "distinct (map fst (m_desktopFocusChains s)) \<and> distinct (m_mostRecentlyUsed s)
    \<and> (\<forall>d c. map_of (m_desktopFocusChains s) d = Some c \<longrightarrow> distinct c \<and> set c \<subseteq> set (m_mostRecentlyUsed s))"
  using fc_invD[OF fc_reachable_inv[OF assms]] map_of_SomeD by metis

text \<open>Two windows on desktop 7, used to show that the hypotheses of the properties can hold.\<close>

definition demo_window :: window where
  "demo_window = \<lparr>windowType = NETNormal, desktops = [7], activities = [], outputOf = 0,
     frameGeometry = \<lparr>rectX = 0, rectY = 0, rectW = 100, rectH = 100\<rparr>,
     isClient = True, isUnmanaged = False, isInternal = False, isLockScreen = False,
     isLockScreenOverlay = False, isInputMethod = False, isOverride = False,
     isActiveFullScreenRole = False, belongsToDesktop = False, isFullScreen = False,
     isMinimized = False, isShade = False, isShown = True, wantsInput = True, keepAbove = False,
     keepBelow = False, isModal = False, groupTransient = False,
     hasTransientPlacementHint = False, isX11 = True, isTransient = False, transientFor = None\<rparr>"

definition demo_env :: env where
  "demo_env = \<lparr>windowAt = (\<lambda>_. demo_window), currentDesktop = Some 7, currentActivity = None,
     activeOutput = 0, outputGeometry = (\<lambda>_. \<lparr>irectX = 0, irectY = 0, irectW = 1920, irectH = 1080\<rparr>),
     toRect = (\<lambda>r. \<lparr>irectX = \<lfloor>rectX r\<rfloor>, irectY = \<lfloor>rectY r\<rfloor>, irectW = \<lfloor>rectW r\<rfloor>, irectH = \<lfloor>rectH r\<rfloor>\<rparr>),
     belongToSameApplication = (\<lambda>a b. a = b), moveMinimizedWindowsToEnd = True,
     isWaylandServer = False, isScreenLocked = False, showingDesktop = False, previewingClients = [],
     mostRecentlyActivated = None, allMainWindows = (\<lambda>_. [])\<rparr>"

lemma demo_simps [simp]:
  "windowAt demo_env w = demo_window" "wantsTabFocus demo_window"
  "isOnDesktop demo_window (Some d) = (d = 7)" "\<not> isOnAllDesktops demo_window"
  "isMinimized demo_window = False" "belongToSameApplication demo_env a b = (a = b)"
  by (auto simp: demo_env_def demo_window_def wantsTabFocus_def isOnDesktop_def isOnAllDesktops_def)

definition demo_chain :: focus_chain where
  "demo_chain = update demo_env 2 MakeFirst (update demo_env 1 MakeFirst (addDesktop 7 fc_init))"

lemma demo_chain_eq:
  "demo_chain = \<lparr>m_mostRecentlyUsed = [1, 2], m_desktopFocusChains = [(7, [1, 2])],
     m_separateScreenFocus = False, m_activeWindow = None, m_currentDesktop = None\<rparr>"
  by (simp add: demo_chain_def update_def updateWindowInChain_def makeFirstInChain_def mapChains_def
      addDesktop_def fc_init_def)

lemma demo_chain_reachable: "fc_reachable demo_chain"
  unfolding demo_chain_def
  by (rule fc_next[OF fc_next[OF fc_next[OF fc_start fc_addDesktop] fc_update] fc_update])

theorem fc_reachable_wellformed_witness:
  "fc_reachable demo_chain \<and> distinct (m_mostRecentlyUsed demo_chain)
    \<and> m_mostRecentlyUsed demo_chain = [1, 2]"
  using fc_reachable_wellformed[OF demo_chain_reachable] demo_chain_reachable by (simp add: demo_chain_eq)

text \<open>After \<open>FocusChain::update\<close> of a window that wants tab focus, the window is in the
  most-recently-used chain and in exactly the chains of the desktops it is on; a window that does
  not want tab focus is in no chain at all. This holds for every kind of change.\<close>

theorem fc_update_membership:
  "containsWindow w (update E w change s) = wantsTabFocus (windowAt E w) \<and>
   containsWindowOn w d (update E w change s) =
     (wantsTabFocus (windowAt E w) \<and> map_of (m_desktopFocusChains s) d \<noteq> None
      \<and> isOnDesktop (windowAt E w) (Some d))"
  by (auto simp: update_eq remove_def containsWindow_def containsWindowOn_def map_of_mapChains
      upd.places updateChain_mem split: option.splits)

text \<open>\<open>FocusChain::update\<close> of one window is invisible to all the others: in every chain the
  other windows are the same as before, in the same order of recency.\<close>

theorem fc_update_keeps_others:
  "removeAll w (m_mostRecentlyUsed (update E w change s)) = removeAll w (m_mostRecentlyUsed s) \<and>
   map_option (removeAll w) (map_of (m_desktopFocusChains (update E w change s)) d)
     = map_option (removeAll w) (map_of (m_desktopFocusChains s) d)"
  by (cases "map_of (m_desktopFocusChains s) d")
    (auto simp: update_eq remove_def map_of_mapChains upd.keeps_rest updChain.keeps_rest)

text \<open>What makes a window eligible for activation on output \<open>out\<close>.\<close>

definition activatable :: "env \<Rightarrow> outp \<Rightarrow> focus_chain \<Rightarrow> wid \<Rightarrow> bool" where
  "activatable E out s x \<longleftrightarrow> \<not> isShade (windowAt E x) \<and> isShown (windowAt E x)
     \<and> isOnCurrentActivity E (windowAt E x) \<and> (m_separateScreenFocus s \<longrightarrow> outputOf (windowAt E x) = out)"

text \<open>\<open>getForActivation\<close> returns the most recent usable window of the desktop's chain: the
  chain splits at the result, which is not shaded, is shown, is on the current activity and (with
  separate screen focus) on the given output, and no later window of the chain qualifies. Without a
  result no window of the chain qualifies.\<close>

theorem fc_getForActivation_spec:
  assumes chain: "map_of (m_desktopFocusChains s) d = Some c"
  shows "case getForActivation E d out s of
      Some w \<Rightarrow> \<exists>older newer. c = older @ w # newer \<and> activatable E out s w \<and> (\<forall>x \<in> set newer. \<not> activatable E out s x)
    | None \<Rightarrow> \<forall>x \<in> set c. \<not> activatable E out s x"
proof -
  have eq: "getForActivation E d out s = findLast (activatable E out s) c"
    using chain by (simp add: getForActivation_def activatable_def[abs_def] Let_def disj_imp)
  show ?thesis
  proof (cases "findLast (activatable E out s) c")
    case None
    then show ?thesis using eq findLast_None[of "activatable E out s" c] by simp
  next
    case (Some w)
    then show ?thesis using eq findLast_split[OF Some] by simp
  qed
qed

theorem fc_getForActivation_witness:
  "map_of (m_desktopFocusChains demo_chain) 7 = Some [1, 2] \<and>
   getForActivation demo_env 7 0 demo_chain = Some 2"
proof -
  have c: "map_of (m_desktopFocusChains demo_chain) 7 = Some [1, 2]" by (simp add: demo_chain_eq)
  have "getForActivation demo_env 7 0 demo_chain \<noteq> None"
    by (simp add: getForActivation_def c findLast_def)
      (simp add: demo_window_def isOnCurrentActivity_def demo_env_def demo_chain_eq)
  moreover have "getForActivation demo_env 7 0 demo_chain \<noteq> Some 1"
    using fc_getForActivation_spec[OF c, of demo_env 0]
    by (auto simp: activatable_def demo_window_def isOnCurrentActivity_def demo_env_def Cons_eq_append_conv
        append_eq_Cons_conv)
  moreover have "getForActivation demo_env 7 0 demo_chain = Some w \<Longrightarrow> w \<in> {1, 2}" for w
    using fc_getForActivation_spec[OF c, of demo_env 0]
    by (auto simp: Cons_eq_append_conv append_eq_Cons_conv)
  ultimately show ?thesis using c by auto
qed

lemma nextMostRecentlyUsed_nth:
  assumes "distinct (m_mostRecentlyUsed s)" "i < length (m_mostRecentlyUsed s)"
  shows "nextMostRecentlyUsed (m_mostRecentlyUsed s ! i) s =
    Some (m_mostRecentlyUsed s ! ((i + length (m_mostRecentlyUsed s) - 1) mod length (m_mostRecentlyUsed s)))"
proof -
  let ?m = "m_mostRecentlyUsed s"
  have "indexOf ?m (?m ! i) = int i" using assms by (rule indexOf_nth_distinct)
  moreover have "?m \<noteq> []" using assms(2) by auto
  moreover have "(i + length ?m - 1) mod length ?m = (if i = 0 then length ?m - 1 else i - 1)"
    using assms(2) by (cases i) auto
  ultimately show ?thesis
    by (auto simp: nextMostRecentlyUsed_def Let_def last_conv_nth nat_diff_distrib)
qed

text \<open>The list of windows that \<open>n\<close> successive calls of \<open>nextMostRecentlyUsed\<close> visit (TabBox
  cycles through the windows this way).\<close>

fun cycleFrom :: "focus_chain \<Rightarrow> nat \<Rightarrow> wid \<Rightarrow> wid list" where
  "cycleFrom s 0 w = []"
| "cycleFrom s (Suc n) w = w # (case nextMostRecentlyUsed w s of None \<Rightarrow> [] | Some v \<Rightarrow> cycleFrom s n v)"

lemma cycleFrom_nth:
  assumes "distinct (m_mostRecentlyUsed s)" "i < length (m_mostRecentlyUsed s)" "k \<le> Suc i"
  shows "cycleFrom s k (m_mostRecentlyUsed s ! i) = rev (take k (drop (Suc i - k) (m_mostRecentlyUsed s)))"
  using assms(2,3)
proof (induction k arbitrary: i)
  case (Suc k)
  let ?m = "m_mostRecentlyUsed s"
  show ?case
  proof (cases k)
    case 0
    then show ?thesis using Suc.prems nextMostRecentlyUsed_nth[OF assms(1) Suc.prems(1)]
      by (simp add: take_Suc_conv_app_nth)
  next
    case (Suc k')
    then obtain j where i: "i = Suc j" using Suc.prems by (cases i) auto
    have "nextMostRecentlyUsed (?m ! i) s = Some (?m ! j)"
      using nextMostRecentlyUsed_nth[OF assms(1) Suc.prems(1)] Suc.prems(1) i by simp
    moreover have "cycleFrom s k (?m ! j) = rev (take k (drop (Suc j - k) ?m))"
      using Suc.prems i by (intro Suc.IH) auto
    moreover have "take (Suc k) (drop (Suc i - Suc k) ?m) = take k (drop (Suc j - k) ?m) @ [?m ! i]"
      using Suc.prems i by (simp add: take_Suc_conv_app_nth)
    ultimately show ?thesis by simp
  qed
qed simp

text \<open>Cycling through the most-recently-used chain from its most recent window visits every
  window exactly once, most recent first, and the call after the last one starts over: the windows
  Alt+Tab offers are exactly the chain reversed.\<close>

theorem fc_mru_cycle:
  assumes "fc_reachable s" "m_mostRecentlyUsed s \<noteq> []"
  shows "cycleFrom s (length (m_mostRecentlyUsed s)) (last (m_mostRecentlyUsed s)) = rev (m_mostRecentlyUsed s)
    \<and> nextMostRecentlyUsed (hd (m_mostRecentlyUsed s)) s = Some (last (m_mostRecentlyUsed s))"
proof -
  let ?m = "m_mostRecentlyUsed s"
  have d: "distinct ?m" by (rule fc_invD(2)[OF fc_reachable_inv[OF assms(1)]])
  have "cycleFrom s (length ?m) (?m ! (length ?m - 1)) = rev ?m"
    using cycleFrom_nth[OF d, of "length ?m - 1" "length ?m"] assms(2) by simp
  moreover have "nextMostRecentlyUsed (?m ! 0) s = Some (?m ! (length ?m - 1))"
    using nextMostRecentlyUsed_nth[OF d, of 0] assms(2) by simp
  ultimately show ?thesis using assms(2) by (simp add: last_conv_nth hd_conv_nth)
qed

theorem fc_mru_cycle_witness: "cycleFrom demo_chain 2 2 = [2, 1]"
proof -
  have m: "m_mostRecentlyUsed demo_chain = [1, 2]" by (simp add: demo_chain_eq)
  show ?thesis using fc_mru_cycle[OF demo_chain_reachable] unfolding m by (simp add: numeral_2_eq_2)
qed

lemma moveAfterWindowInChain_defined:
  "reference \<noteq> Some w \<Longrightarrow> moveAfterWindowInChain E w reference c \<noteq> None"
  using indexOf_bounds[of "removeAll w c"] lastIndexWhere_bounds[of _ "removeAll w c"]
    indexOf_present[of _ "removeAll w c"]
  by (auto simp: moveAfterWindowInChain_def Let_def insertAt_def less_imp_le split: option.splits)

text \<open>Moving a window after a different reference never inserts at an invalid position, and when
  both belong to one application the window ends up immediately behind the reference in recency: in
  the most-recently-used chain it directly precedes the reference.\<close>

theorem fc_moveAfter_places:
  assumes "wantsTabFocus (windowAt E w)" "ref \<noteq> w"
    and "belongToSameApplication E ref w" "ref \<in> set (m_mostRecentlyUsed s)"
  shows "\<exists>t older newer. moveAfterWindow E w (Some ref) s = Some t \<and>
    m_mostRecentlyUsed t = older @ w # ref # newer \<and> older @ ref # newer = removeAll w (m_mostRecentlyUsed s)"
proof -
  let ?m = "removeAll w (m_mostRecentlyUsed s)"
  let ?i = "nat (indexOf ?m ref)"
  have "None \<notin> set (map (\<lambda>(d, c). if \<not> isOnDesktop (windowAt E w) (Some d) then Some (d, c)
       else map_option (Pair d) (moveAfterWindowInChain E w (Some ref) c)) (m_desktopFocusChains s))"
    using moveAfterWindowInChain_defined[of "Some ref" w E] assms(2)
    by (auto split: if_splits) (metis option.distinct(1))
  then obtain m where m: "those (map (\<lambda>(d, c). if \<not> isOnDesktop (windowAt E w) (Some d) then Some (d, c)
       else map_option (Pair d) (moveAfterWindowInChain E w (Some ref) c)) (m_desktopFocusChains s)) = Some m"
    using those_None_iff by fastforce
  have ref: "ref \<in> set ?m" using assms(2,4) by simp
  have mru: "moveAfterWindowInChain E w (Some ref) (m_mostRecentlyUsed s) = Some (list_insert ?i w ?m)"
    using assms(3,4) ref indexOf_bounds[of ?m ref] indexOf_present[of ref ?m]
    by (simp add: moveAfterWindowInChain_def insertAt_Some Let_def)
  have "?m = take ?i ?m @ ref # drop (Suc ?i) ?m" using ref by (rule indexOf_split)
  moreover from this have "drop ?i ?m = ref # drop (Suc ?i) ?m"
    by (metis append_eq_conv_conj length_take min.absorb2 nat_le_linear take_all append_take_drop_id same_append_eq)
  ultimately show ?thesis using assms(1) m mru
    by (intro exI[of _ "s\<lparr>m_desktopFocusChains := m, m_mostRecentlyUsed := list_insert ?i w ?m\<rparr>"]
        exI[of _ "take ?i ?m"] exI[of _ "drop (Suc ?i) ?m"])
      (simp add: moveAfterWindow_def list_insert_def)
qed

theorem fc_moveAfter_places_witness:
  "\<exists>t. moveAfterWindow (demo_env\<lparr>belongToSameApplication := (\<lambda>_ _. True)\<rparr>) 1 (Some 2) demo_chain = Some t
    \<and> m_mostRecentlyUsed t = [1, 2]"
proof -
  have m: "m_mostRecentlyUsed demo_chain = [1, 2]" by (simp add: demo_chain_eq)
  have w: "windowAt (demo_env\<lparr>belongToSameApplication := (\<lambda>_ _. True)\<rparr>) 1 = demo_window"
    by (simp add: demo_env_def)
  show ?thesis
    using fc_moveAfter_places[of "demo_env\<lparr>belongToSameApplication := (\<lambda>_ _. True)\<rparr>" 1 2 demo_chain]
    unfolding m w by (auto simp: append_eq_Cons_conv Cons_eq_append_conv)
qed

end
