(* ===== verification/Virtual_Desktops.thy ===== *)
theory Virtual_Desktops
  imports Prelude Qt_Geometry "HOL-Library.Monad_Syntax"
begin

text \<open>
  \<open>VirtualDesktop\<close>, \<open>VirtualDesktopGrid\<close> and \<open>VirtualDesktopManager\<close>
  (\<open>src/src/virtualdesktops.cpp\<close>, \<open>src/src/virtualdesktops.h\<close>). Operations thread the
  manager's state through the \<^typ>\<open>'a option\<close> monad: \<open>None\<close> is a failed \<open>Q_ASSERT\<close>, an
  access outside a \<open>QVector\<close>, a division by zero, a null dereference or a loop that does not end.
  Signals and the calls to the X11 root info are appended to \<open>signals\<close> in the order the code makes
  them. \<open>uint\<close> values are natural numbers; the products and sums that could wrap are written
  modulo \<open>2 ^ 32\<close>. What the code takes from KDE libraries (translated default names, fresh ids, the
  root info's reaction to a layout) is the record \<open>vd_env\<close>.
\<close>

section \<open>Types\<close>

datatype orientation = Horizontal | Vertical

datatype direction = Up | Down | DRight | DLeft | Next | Previous

record vdesktop =
  m_id :: string
  m_name :: string
  m_x11DesktopNumber :: int

record rootinfo =
  layoutColumns :: int
  layoutRows :: int
  layoutOrientation :: orientation

datatype cfg_key = CfgNumber | CfgRows | CfgName int | CfgId int
datatype cfg_val = CfgInt int | CfgStr string

datatype vd_signal =
    NameChanged vd
  | X11DesktopNumberChanged vd
  | DesktopCreated vd
  | DesktopRemoved vd
  | CountChanged nat nat
  | CurrentChanged nat nat
  | CurrentChangingCancelled
  | LayoutChanged int int
  | RowsChanged nat
  | NavigationWrappingAroundChanged
  | RootSetDesktopName int string
  | RootSetNumberOfDesktops int
  | RootSetDesktopViewport int
  | RootSetDesktopLayout orientation int int
  | RootSetCurrentDesktop int
  | RootActivate

record vdgrid =
  gridW :: int
  gridH :: int
  cells :: "vd list list"

record vd_env =
  defaultName :: "int \<Rightarrow> string"
  generateDesktopId :: "nat \<Rightarrow> string"
  rootinfoSetLayout :: "orientation \<Rightarrow> int \<Rightarrow> int \<Rightarrow> rootinfo \<Rightarrow> rootinfo"

record vdm =
  heap :: "vd \<Rightarrow> vdesktop"
  nextPtr :: vd
  m_desktops :: "vd list"
  m_current :: "vd option"
  m_rows :: nat
  m_navigationWrapsAround :: bool
  m_grid :: vdgrid
  m_rootInfo :: "rootinfo option"
  m_config :: "(cfg_key \<times> cfg_val) list option"
  m_currentDesktopOffset :: qpointf
  s_loadingDesktopSettings :: bool
  signals :: "vd_signal list"

definition emit :: "vd_signal \<Rightarrow> vdm \<Rightarrow> vdm" where
  "emit e s = s\<lparr>signals := signals s @ [e]\<rparr>"

text \<open>A call that is made when there is a root info.\<close>

definition rootCall :: "vd_signal \<Rightarrow> vdm \<Rightarrow> vdm" where
  "rootCall e s = (if m_rootInfo s = None then s else emit e s)"

definition maximum :: nat where "maximum = 20"

definition vcount :: "vdm \<Rightarrow> nat" where "vcount s = length (m_desktops s)"

text \<open>Conversions between \<open>uint\<close> and \<open>int\<close>, and the wrapping product and sum.\<close>

definition uint_to_int :: "nat \<Rightarrow> int" where
  "uint_to_int n = (if n < 2 ^ 31 then int n else int n - 2 ^ 32)"

definition int_to_uint :: "int \<Rightarrow> nat" where
  "int_to_uint i = nat (i mod 2 ^ 32)"

definition umul :: "nat \<Rightarrow> nat \<Rightarrow> nat" where "umul a b = (a * b) mod 2 ^ 32"
definition uadd :: "nat \<Rightarrow> nat \<Rightarrow> nat" where "uadd a b = (a + b) mod 2 ^ 32"

section \<open>One desktop\<close>

definition setX11DesktopNumber :: "vd \<Rightarrow> nat \<Rightarrow> vdm \<Rightarrow> vdm" where
  "setX11DesktopNumber d n s =
     (if int_to_uint (m_x11DesktopNumber (heap s d)) = n then s
      else (let s' = s\<lparr>heap := (heap s)(d := (heap s d)\<lparr>m_x11DesktopNumber := uint_to_int n\<rparr>)\<rparr>
            in if uint_to_int n \<noteq> 0 then emit (X11DesktopNumberChanged d) s' else s'))"

definition setName :: "vd \<Rightarrow> string \<Rightarrow> vdm \<Rightarrow> vdm" where
  "setName d n s = (if m_name (heap s d) = n then s
     else emit (NameChanged d) (s\<lparr>heap := (heap s)(d := (heap s d)\<lparr>m_name := n\<rparr>)\<rparr>))"

definition setId :: "vd \<Rightarrow> string \<Rightarrow> vdm \<Rightarrow> vdm option" where
  "setId d i s = (if m_id (heap s d) = [] then Some (s\<lparr>heap := (heap s)(d := (heap s d)\<lparr>m_id := i\<rparr>)\<rparr>)
     else None)"

text \<open>\<open>setName\<close> of a desktop whose \<open>nameChanged\<close> the manager has connected: the handler passes the
  name on to the root info.\<close>

definition renameDesktop :: "vd \<Rightarrow> string \<Rightarrow> vdm \<Rightarrow> vdm" where
  "renameDesktop d n s = (if m_name (heap s d) = n then s
     else rootCall (RootSetDesktopName (m_x11DesktopNumber (heap s d)) n) (setName d n s))"

definition newDesktop :: "vdm \<Rightarrow> vd \<times> vdm" where
  "newDesktop s = (nextPtr s, s\<lparr>nextPtr := Suc (nextPtr s),
     heap := (heap s)(nextPtr s := \<lparr>m_id = [], m_name = [], m_x11DesktopNumber = 0\<rparr>)\<rparr>)"

section \<open>The grid\<close>

fun fillRows :: "nat \<Rightarrow> nat \<Rightarrow> vd list \<Rightarrow> vd list list" where
  "fillRows 0 w ds = []"
| "fillRows (Suc h) w ds = take w ds # fillRows h w (drop w ds)"

text \<open>One column: a desktop is appended to each row from the top while there are desktops left.\<close>

fun appendColumn :: "vd list list \<Rightarrow> vd list \<Rightarrow> vd list list" where
  "appendColumn (r # rs) (d # ds) = (r @ [d]) # appendColumn rs ds"
| "appendColumn rs _ = rs"

fun fillColumns :: "nat \<Rightarrow> vd list list \<Rightarrow> vd list \<Rightarrow> vd list list" where
  "fillColumns 0 rows ds = rows"
| "fillColumns (Suc w) rows ds = fillColumns w (appendColumn rows ds) (drop (length rows) ds)"

definition gridUpdate :: "int \<Rightarrow> int \<Rightarrow> orientation \<Rightarrow> vd list \<Rightarrow> vdgrid" where
  "gridUpdate w h orient ds = (let width = int_to_uint w; height = int_to_uint h in
     \<lparr>gridW = w, gridH = h, cells =
        (if orient = Horizontal then fillRows height width ds
         else fillColumns width (replicate height []) ds)\<rparr>)"

fun gridCoordsFrom :: "vd list list \<Rightarrow> int \<Rightarrow> vd \<Rightarrow> int \<times> int" where
  "gridCoordsFrom [] y d = (-1, -1)"
| "gridCoordsFrom (r # rs) y d =
     (if d \<in> set r then (indexOf r d, y) else gridCoordsFrom rs (y + 1) d)"

definition gridCoords :: "vdgrid \<Rightarrow> vd \<Rightarrow> int \<times> int" where
  "gridCoords g d = gridCoordsFrom (cells g) 0 d"

text \<open>The outer option is \<open>None\<close> for an index below the range; the inner one is the pointer.\<close>

definition gridAt :: "vdgrid \<Rightarrow> int \<Rightarrow> int \<Rightarrow> vd option option" where
  "gridAt g x y =
     (if y \<ge> int (length (cells g)) then Some None
      else if y < 0 then None
      else (let row = cells g ! nat y in
        if x \<ge> int (length row) then Some None
        else if x < 0 then None
        else Some (Some (row ! nat x))))"

section \<open>Moving about the grid\<close>

text \<open>
  The loops of \<open>above\<close>, \<open>below\<close>, \<open>toLeft\<close> and \<open>toRight\<close> move one coordinate along a line of
  the grid, over the cells without a desktop, until they find one or leave the grid.
\<close>

partial_function (option) walkForward ::
    "(int \<Rightarrow> vd option option) \<Rightarrow> int \<Rightarrow> bool \<Rightarrow> vd \<Rightarrow> int \<Rightarrow> vd option" where
  "walkForward line limit wrap desktop k =
     (let k' = k + 1 in
      if k' \<ge> limit \<and> \<not> wrap then Some desktop
      else (let k'' = (if k' \<ge> limit then 0 else k') in
        case line k'' of
          None \<Rightarrow> None
        | Some (Some d) \<Rightarrow> Some d
        | Some None \<Rightarrow> walkForward line limit wrap desktop k''))"

partial_function (option) walkBackward ::
    "(int \<Rightarrow> vd option option) \<Rightarrow> int \<Rightarrow> bool \<Rightarrow> vd \<Rightarrow> int \<Rightarrow> vd option" where
  "walkBackward line limit wrap desktop k =
     (let k' = k - 1 in
      if k' < 0 \<and> \<not> wrap then Some desktop
      else (let k'' = (if k' < 0 then limit - 1 else k') in
        case line k'' of
          None \<Rightarrow> None
        | Some (Some d) \<Rightarrow> Some d
        | Some None \<Rightarrow> walkBackward line limit wrap desktop k''))"

text \<open>The common start: the current desktop for a null argument, and the two assertions.\<close>

definition startDesktop :: "vdm \<Rightarrow> vd option \<Rightarrow> vd option" where
  "startDesktop s desktop = (case m_current s of None \<Rightarrow> None
     | Some c \<Rightarrow> Some (case desktop of None \<Rightarrow> c | Some d \<Rightarrow> d))"

definition above :: "vdm \<Rightarrow> vd option \<Rightarrow> bool \<Rightarrow> vd option" where
  "above s desktop wrap = do {
     d \<leftarrow> startDesktop s desktop;
     let (x, y) = gridCoords (m_grid s) d;
     if x \<ge> 0 then walkBackward (\<lambda>y'. gridAt (m_grid s) x y') (gridH (m_grid s)) wrap d y else None }"

definition below :: "vdm \<Rightarrow> vd option \<Rightarrow> bool \<Rightarrow> vd option" where
  "below s desktop wrap = do {
     d \<leftarrow> startDesktop s desktop;
     let (x, y) = gridCoords (m_grid s) d;
     if x \<ge> 0 then walkForward (\<lambda>y'. gridAt (m_grid s) x y') (gridH (m_grid s)) wrap d y else None }"

definition toRight :: "vdm \<Rightarrow> vd option \<Rightarrow> bool \<Rightarrow> vd option" where
  "toRight s desktop wrap = do {
     d \<leftarrow> startDesktop s desktop;
     let (x, y) = gridCoords (m_grid s) d;
     if x \<ge> 0 then walkForward (\<lambda>x'. gridAt (m_grid s) x' y) (gridW (m_grid s)) wrap d x else None }"

definition toLeft :: "vdm \<Rightarrow> vd option \<Rightarrow> bool \<Rightarrow> vd option" where
  "toLeft s desktop wrap = do {
     d \<leftarrow> startDesktop s desktop;
     let (x, y) = gridCoords (m_grid s) d;
     if x \<ge> 0 then walkBackward (\<lambda>x'. gridAt (m_grid s) x' y) (gridW (m_grid s)) wrap d x else None }"

definition nextDesktop :: "vdm \<Rightarrow> vd option \<Rightarrow> bool \<Rightarrow> vd option" where
  "nextDesktop s desktop wrap = do {
     d \<leftarrow> startDesktop s desktop;
     let i = indexOf (m_desktops s) d;
     if i < 0 then None
     else if i + 1 = int (length (m_desktops s))
       then (if wrap then Some (hd (m_desktops s)) else Some d)
     else Some (m_desktops s ! nat (i + 1)) }"

definition previousDesktop :: "vdm \<Rightarrow> vd option \<Rightarrow> bool \<Rightarrow> vd option" where
  "previousDesktop s desktop wrap = do {
     d \<leftarrow> startDesktop s desktop;
     let i = indexOf (m_desktops s) d;
     if i < 0 then None
     else if i = 0 then (if wrap then Some (last (m_desktops s)) else Some d)
     else Some (m_desktops s ! nat (i - 1)) }"

definition inDirection :: "vdm \<Rightarrow> vd option \<Rightarrow> direction \<Rightarrow> bool \<Rightarrow> vd option" where
  "inDirection s desktop dir wrap = (case dir of
      Up \<Rightarrow> above s desktop wrap
    | Down \<Rightarrow> below s desktop wrap
    | DRight \<Rightarrow> toRight s desktop wrap
    | DLeft \<Rightarrow> toLeft s desktop wrap
    | Next \<Rightarrow> nextDesktop s desktop wrap
    | Previous \<Rightarrow> previousDesktop s desktop wrap)"

definition desktopForX11Id :: "vdm \<Rightarrow> nat \<Rightarrow> vd option" where
  "desktopForX11Id s i = (if i = 0 \<or> i > vcount s then None else Some (m_desktops s ! (i - 1)))"

definition inDirectionId :: "vdm \<Rightarrow> nat \<Rightarrow> direction \<Rightarrow> bool \<Rightarrow> nat option" where
  "inDirectionId s i dir wrap =
     map_option (\<lambda>d. int_to_uint (m_x11DesktopNumber (heap s d))) (inDirection s (desktopForX11Id s i) dir wrap)"

definition desktopForId :: "vdm \<Rightarrow> string \<Rightarrow> vd option" where
  "desktopForId s i = find (\<lambda>d. m_id (heap s d) = i) (m_desktops s)"

section \<open>The layout\<close>

partial_function (option) growLayout :: "orientation \<Rightarrow> nat \<Rightarrow> nat \<Rightarrow> nat \<Rightarrow> (nat \<times> nat) option" where
  "growLayout orient n width height =
     (if umul width height < n
      then (if orient = Horizontal then growLayout orient n (uadd width 1) height
            else growLayout orient n width (uadd height 1))
      else Some (width, height))"

definition setNETDesktopLayout :: "orientation \<Rightarrow> nat \<Rightarrow> nat \<Rightarrow> vdm \<Rightarrow> vdm option" where
  "setNETDesktopLayout orient width height s = do {
     let n = vcount s;
     assertThat (width > 0 \<or> height > 0);
     let (width, height) =
       (if width \<le> 0 \<and> height > 0 then (((n + height - 1) mod 2 ^ 32) div height, height)
        else if height \<le> 0 \<and> width > 0 then (width, ((n + width - 1) mod 2 ^ 32) div width)
        else (width, height));
     (width, height) \<leftarrow> growLayout orient n width height;
     Some (emit (RowsChanged height) (emit (LayoutChanged (uint_to_int width) (uint_to_int height))
       (s\<lparr>m_rows := max 1 height,
          m_grid := gridUpdate (uint_to_int width) (uint_to_int height) orient (m_desktops s)\<rparr>))) }"

definition updateLayout :: "vdm \<Rightarrow> vdm option" where
  "updateLayout s = do {
     let n = vcount s;
     let rows0 = min (m_rows s) n;
     assertThat (rows0 \<noteq> 0);
     let columns0 = uint_to_int (n div rows0);
     let (columns1, rows1, orient) = (case m_rootInfo s of
         None \<Rightarrow> (columns0, rows0, Horizontal)
       | Some ri \<Rightarrow> (layoutColumns ri, int_to_uint (max 1 (layoutRows ri)), layoutOrientation ri));
     let (columns2, rows2) = (if columns1 = 0
       then (let r = (if n = 1 then 1 else 2) in (uint_to_int (n div r), r))
       else (columns1, rows1));
     let (columns3, rows3) = (if n = 1 then (1, 1) else (columns2, rows2));
     setNETDesktopLayout orient (int_to_uint columns3) rows3 (s\<lparr>m_rows := rows3\<rparr>) }"

definition updateRootInfo :: "vdm \<Rightarrow> vdm option" where
  "updateRootInfo s = (if m_rootInfo s = None then updateLayout s
     else updateLayout (emit (RootSetDesktopViewport (int (vcount s)))
            (emit (RootSetNumberOfDesktops (int (vcount s))) s)))"

text \<open>\<open>count() / m_rows\<close>, rounded up; \<open>None\<close> when \<open>m_rows\<close> is 0.\<close>

definition columnsFor :: "vdm \<Rightarrow> int option" where
  "columnsFor s = (if m_rows s = 0 then None else
     Some (int (vcount s div m_rows s) + (if vcount s mod m_rows s > 0 then 1 else 0)))"

text \<open>The call \<open>m_rootInfo->setDesktopLayout(NET::OrientationHorizontal, columns, m_rows, ...)\<close>.\<close>

definition rootSetLayout :: "vd_env \<Rightarrow> int \<Rightarrow> vdm \<Rightarrow> vdm" where
  "rootSetLayout V columns s = (case m_rootInfo s of None \<Rightarrow> s
     | Some ri \<Rightarrow> emit (RootSetDesktopLayout Horizontal columns (int (m_rows s)))
         (s\<lparr>m_rootInfo := Some (rootinfoSetLayout V Horizontal columns (int (m_rows s)) ri)\<rparr>))"

definition setRows :: "vd_env \<Rightarrow> nat \<Rightarrow> vdm \<Rightarrow> vdm option" where
  "setRows V rows s = (if rows = 0 \<or> rows > vcount s \<or> rows = m_rows s then Some s
     else do {
       let s = s\<lparr>m_rows := rows\<rparr>;
       columns \<leftarrow> columnsFor s;
       updateLayout (if m_rootInfo s = None then s else emit RootActivate (rootSetLayout V columns s)) })"

section \<open>The configuration\<close>

type_synonym config = "(cfg_key \<times> cfg_val) list"

definition deleteEntry :: "cfg_key \<Rightarrow> config \<Rightarrow> config" where
  "deleteEntry k m = filter (\<lambda>e. fst e \<noteq> k) m"

definition writeEntry :: "cfg_key \<Rightarrow> cfg_val \<Rightarrow> config \<Rightarrow> config" where
  "writeEntry k v m = (k, v) # deleteEntry k m"

definition readStr :: "config \<Rightarrow> cfg_key \<Rightarrow> string \<Rightarrow> string" where
  "readStr m k dflt = (case map_of m k of Some (CfgStr x) \<Rightarrow> x | _ \<Rightarrow> dflt)"

definition readInt :: "config \<Rightarrow> cfg_key \<Rightarrow> int \<Rightarrow> int" where
  "readInt m k dflt = (case map_of m k of Some (CfgInt x) \<Rightarrow> x | _ \<Rightarrow> dflt)"

lemma length_deleteEntry: "map_of m k \<noteq> None \<Longrightarrow> length (deleteEntry k m) < length m"
  by (induction m) (auto simp: deleteEntry_def less_Suc_eq_le length_filter_le split: if_splits)

lemma length_deleteEntry_le: "length (deleteEntry k m) \<le> length m"
  by (simp add: deleteEntry_def)

text \<open>The entries of desktops that no longer exist, from position \<open>i\<close> on.\<close>

function pruneEntries :: "int \<Rightarrow> config \<Rightarrow> config" where
  "pruneEntries i m = (if map_of m (CfgId i) \<noteq> None
     then pruneEntries (i + 1) (deleteEntry (CfgName i) (deleteEntry (CfgId i) m)) else m)"
  by pat_completeness auto
termination
  by (relation "measure (\<lambda>(i, m). length m)")
    (auto intro: le_less_trans[OF length_deleteEntry_le length_deleteEntry])

declare pruneEntries.simps [simp del]

definition saveDesktop :: "vd_env \<Rightarrow> vd \<Rightarrow> config \<times> vdm \<Rightarrow> config \<times> vdm" where
  "saveDesktop V d ms = (case ms of (m, s) \<Rightarrow>
     let position = m_x11DesktopNumber (heap s d);
         dflt = defaultName V position;
         name = (if m_name (heap s d) = [] then dflt else m_name (heap s d));
         s' = (if m_name (heap s d) = [] then rootCall (RootSetDesktopName position dflt) s else s);
         m' = (if name \<noteq> dflt then writeEntry (CfgName position) (CfgStr name) m
               else if readStr m (CfgName position) [] \<noteq> dflt then deleteEntry (CfgName position) m
               else m)
     in (writeEntry (CfgId position) (CfgStr (m_id (heap s d))) m', s'))"

definition save :: "vd_env \<Rightarrow> vdm \<Rightarrow> vdm" where
  "save V s = (if s_loadingDesktopSettings s then s
     else (case m_config s of None \<Rightarrow> s
       | Some m \<Rightarrow>
         let m1 = writeEntry CfgNumber (CfgInt (int (vcount s))) (pruneEntries (int (vcount s) + 1) m);
             (m2, s2) = fold (saveDesktop V) (m_desktops s) (m1, s)
         in s2\<lparr>m_config := Some (writeEntry CfgRows (CfgInt (int (m_rows s))) m2)\<rparr>))"

section \<open>The current desktop\<close>

definition current :: "vdm \<Rightarrow> nat" where
  "current s = (case m_current s of None \<Rightarrow> 0 | Some d \<Rightarrow> int_to_uint (m_x11DesktopNumber (heap s d)))"

definition setCurrent :: "vd \<Rightarrow> vdm \<Rightarrow> bool \<times> vdm" where
  "setCurrent d s = (if m_current s = Some d then (False, s)
     else (True, emit (CurrentChanged (current s) (int_to_uint (m_x11DesktopNumber (heap s d))))
       (s\<lparr>m_current := Some d\<rparr>)))"

definition setCurrentId :: "nat \<Rightarrow> vdm \<Rightarrow> (bool \<times> vdm) option" where
  "setCurrentId i s = (if i < 1 \<or> i > vcount s then Some (False, s)
     else (case desktopForX11Id s i of None \<Rightarrow> None | Some d \<Rightarrow> Some (setCurrent d s)))"

definition moveTo :: "direction \<Rightarrow> bool \<Rightarrow> vdm \<Rightarrow> vdm option" where
  "moveTo dir wrap s = do { d \<leftarrow> inDirection s None dir wrap; Some (snd (setCurrent d s)) }"

text \<open>The six slots \<open>slotDown\<close>, \<open>slotLeft\<close>, \<dots> move with the configured wrapping.\<close>

definition slotMove :: "direction \<Rightarrow> vdm \<Rightarrow> vdm option" where
  "slotMove dir s = moveTo dir (m_navigationWrapsAround s) s"

definition setNavigationWrappingAround :: "bool \<Rightarrow> vdm \<Rightarrow> vdm" where
  "setNavigationWrappingAround b s = (if b = m_navigationWrapsAround s then s
     else emit NavigationWrappingAroundChanged (s\<lparr>m_navigationWrapsAround := b\<rparr>))"

definition GESTURE_SWITCH_THRESHOLD :: qreal where "GESTURE_SWITCH_THRESHOLD = 1 / 4"

text \<open>The end of a gesture: switch to \<open>target\<close>, or report the cancellation when it is the current
  desktop already.\<close>

definition finishGesture :: "vd \<Rightarrow> vdm \<Rightarrow> vdm" where
  "finishGesture target s =
     (if m_current s \<noteq> Some target then snd (setCurrent target s) else emit CurrentChangingCancelled s)
       \<lparr>m_currentDesktopOffset := \<lparr>pointX = 0, pointY = 0\<rparr>\<rparr>"

definition gestureReleasedY :: "vdm \<Rightarrow> vdm option" where
  "gestureReleasedY s = do {
     let y = pointY (m_currentDesktopOffset s);
     target \<leftarrow> (if y \<le> - GESTURE_SWITCH_THRESHOLD
                then above s (m_current s) (m_navigationWrapsAround s)
                else if y \<ge> GESTURE_SWITCH_THRESHOLD
                then below s (m_current s) (m_navigationWrapsAround s)
                else m_current s);
     Some (finishGesture target s) }"

definition gestureReleasedX :: "vdm \<Rightarrow> vdm option" where
  "gestureReleasedX s = do {
     let x = pointX (m_currentDesktopOffset s);
     target \<leftarrow> (if x \<le> - GESTURE_SWITCH_THRESHOLD
                then toLeft s (m_current s) (m_navigationWrapsAround s)
                else if x \<ge> GESTURE_SWITCH_THRESHOLD
                then toRight s (m_current s) (m_navigationWrapsAround s)
                else m_current s);
     Some (finishGesture target s) }"

section \<open>Creating and removing desktops\<close>

text \<open>The desktops from position \<open>j\<close> on get the number of their position.\<close>

definition renumberOne :: "vdm \<Rightarrow> nat \<Rightarrow> vdm \<Rightarrow> vdm" where
  "renumberOne s0 j s = (let d = m_desktops s0 ! j in
     rootCall (RootSetDesktopName (int j + 1) (m_name (heap s0 d))) (setX11DesktopNumber d (j + 1) s))"

definition renumberFrom :: "nat \<Rightarrow> vdm \<Rightarrow> vdm" where
  "renumberFrom j s = fold (renumberOne s) [j ..< vcount s] s"

definition createVirtualDesktop :: "vd_env \<Rightarrow> nat \<Rightarrow> string \<Rightarrow> vdm \<Rightarrow> (vd option \<times> vdm) option" where
  "createVirtualDesktop V position name s =
     (if vcount s = maximum then Some (None, s)
      else do {
        let position = min position (vcount s);
        let desktopName = (if name = [] then defaultName V (int position + 1) else name);
        let (d, s) = newDesktop s;
        let s = setX11DesktopNumber d (position + 1) s;
        s \<leftarrow> setId d (generateDesktopId V d) s;
        let s = setName d desktopName s;
        let s = rootCall (RootSetDesktopName (m_x11DesktopNumber (heap s d)) (m_name (heap s d))) s;
        let s = s\<lparr>m_desktops := list_insert position d (m_desktops s)\<rparr>;
        let s = renumberFrom (position + 1) s;
        let s = save V s;
        s \<leftarrow> updateRootInfo s;
        Some (Some d, emit (CountChanged (vcount s - 1) (vcount s)) (emit (DesktopCreated d) s)) })"

definition removeVirtualDesktop :: "vd_env \<Rightarrow> vd \<Rightarrow> vdm \<Rightarrow> vdm option" where
  "removeVirtualDesktop V d s = (if vcount s = 1 then Some s
     else do {
       cur \<leftarrow> m_current s;
       let oldCurrent = int_to_uint (m_x11DesktopNumber (heap s cur));
       let i = int_to_uint (m_x11DesktopNumber (heap s d) - 1);
       assertThat (i < vcount s);
       let s = s\<lparr>m_desktops := take i (m_desktops s) @ drop (Suc i) (m_desktops s)\<rparr>;
       let s = renumberFrom i s;
       let newCurrent = min oldCurrent (vcount s);
       c \<leftarrow> atIdx (m_desktops s) (int newCurrent - 1);
       let s = s\<lparr>m_current := Some c\<rparr>;
       let s = (if oldCurrent \<noteq> newCurrent then emit (CurrentChanged oldCurrent newCurrent) s else s);
       s \<leftarrow> updateRootInfo s;
       let s = save V s;
       Some (emit (CountChanged (vcount s + 1) (vcount s)) (emit (DesktopRemoved d) s)) })"

definition removeVirtualDesktopId :: "vd_env \<Rightarrow> string \<Rightarrow> vdm \<Rightarrow> vdm option" where
  "removeVirtualDesktopId V i s = (case desktopForId s i of None \<Rightarrow> Some s
     | Some d \<Rightarrow> removeVirtualDesktop V d s)"

text \<open>One round of the loop of \<open>setCount\<close> that appends a desktop.\<close>

definition appendDesktop :: "vd_env \<Rightarrow> vdm \<Rightarrow> vdm option" where
  "appendDesktop V s = do {
     let x11Number = vcount s + 1;
     let (d, s) = newDesktop s;
     let s = setX11DesktopNumber d x11Number s;
     let s = setName d (defaultName V (int x11Number)) s;
     s \<leftarrow> (if s_loadingDesktopSettings s then Some s else setId d (generateDesktopId V d) s);
     let s = s\<lparr>m_desktops := m_desktops s @ [d]\<rparr>;
     Some (rootCall (RootSetDesktopName (m_x11DesktopNumber (heap s d)) (m_name (heap s d))) s) }"

fun appendDesktops :: "vd_env \<Rightarrow> nat \<Rightarrow> vdm \<Rightarrow> vdm option" where
  "appendDesktops V 0 s = Some s"
| "appendDesktops V (Suc k) s = do { s \<leftarrow> appendDesktop V s; appendDesktops V k s }"

definition shrinkDesktops :: "nat \<Rightarrow> vdm \<Rightarrow> vdm option" where
  "shrinkDesktops n s = do {
     let desktopsToRemove = drop n (m_desktops s);
     let s = s\<lparr>m_desktops := take n (m_desktops s)\<rparr>;
     s \<leftarrow> (if m_current s = None then Some s else do {
        let oldCurrent = current s;
        let newCurrent = min oldCurrent n;
        c \<leftarrow> atIdx (m_desktops s) (int newCurrent - 1);
        let s = s\<lparr>m_current := Some c\<rparr>;
        Some (if oldCurrent \<noteq> newCurrent then emit (CurrentChanged oldCurrent newCurrent) s else s) });
     Some (fold (\<lambda>d. emit (DesktopRemoved d)) desktopsToRemove s) }"

definition setCount :: "vd_env \<Rightarrow> nat \<Rightarrow> vdm \<Rightarrow> vdm option" where
  "setCount V n s = (let n = max 1 (min n maximum); oldCount = vcount s in
     if n = oldCount then Some s
     else do {
       s \<leftarrow> (if oldCount > n then shrinkDesktops n s else appendDesktops V (n - oldCount) s);
       let newDesktops = drop oldCount (m_desktops s);
       s \<leftarrow> updateRootInfo s;
       let s = (if s_loadingDesktopSettings s then s else save V s);
       let s = fold (\<lambda>d. emit (DesktopCreated d)) newDesktops s;
       Some (emit (CountChanged oldCount (vcount s)) s) })"

section \<open>Loading\<close>

text \<open>The entries of desktop \<open>i\<close> (numbered from 1) are read.\<close>

definition loadDesktop :: "vd_env \<Rightarrow> config \<Rightarrow> int \<Rightarrow> vdm \<Rightarrow> vdm option" where
  "loadDesktop V m i s = do {
     let name = readStr m (CfgName i) (defaultName V i);
     let s = rootCall (RootSetDesktopName i name) s;
     d \<leftarrow> atIdx (m_desktops s) (i - 1);
     let s = renameDesktop d name s;
     let sId = readStr m (CfgId i) [];
     if m_id (heap s d) = [] then setId d (if sId = [] then generateDesktopId V d else sId) s
     else if sId = [] \<or> m_id (heap s d) = sId then Some s else None }"

fun loadDesktops :: "vd_env \<Rightarrow> config \<Rightarrow> int list \<Rightarrow> vdm \<Rightarrow> vdm option" where
  "loadDesktops V m [] s = Some s"
| "loadDesktops V m (i # is) s = do { s \<leftarrow> loadDesktop V m i s; loadDesktops V m is s }"

text \<open>\<open>legacy\<close> stands for \<open>isSectionExists()\<close> and the old group's contents: its \<open>Number\<close> entry (if
  any) and the number of its keys that contain \<open>Id_\<close>.\<close>

definition load :: "vd_env \<Rightarrow> (int option \<times> int) option \<Rightarrow> vdm \<Rightarrow> vdm option" where
  "load V legacy s = (let s = s\<lparr>s_loadingDesktopSettings := True\<rparr> in
     case m_config s of None \<Rightarrow> Some s
     | Some m0 \<Rightarrow> do {
         let m = (case legacy of None \<Rightarrow> m0
           | Some (num, ids) \<Rightarrow> writeEntry CfgNumber (CfgInt (case num of None \<Rightarrow> ids | Some k \<Rightarrow> k)) m0);
         let n = readInt m CfgNumber 2;
         s \<leftarrow> setCount V (int_to_uint n) (s\<lparr>m_config := Some m\<rparr>);
         s \<leftarrow> loadDesktops V m [1 .. n] s;
         assertThat (1 \<le> n);
         let rows = readInt m CfgRows 2;
         Some (s\<lparr>m_rows := nat (max 1 (min rows n)), s_loadingDesktopSettings := False\<rparr>) })"

definition setRootInfo :: "vd_env \<Rightarrow> rootinfo option \<Rightarrow> vdm \<Rightarrow> vdm option" where
  "setRootInfo V info s = (let s = s\<lparr>m_rootInfo := info\<rparr> in
     if info = None then Some s
     else do {
       columns \<leftarrow> columnsFor s;
       s \<leftarrow> updateRootInfo (rootSetLayout V columns s);
       cur \<leftarrow> m_current s;
       let s = emit (RootSetCurrentDesktop (m_x11DesktopNumber (heap s cur))) s;
       Some (fold (\<lambda>d s. emit (RootSetDesktopName (m_x11DesktopNumber (heap s d)) (m_name (heap s d))) s)
         (m_desktops s) s) })"

end
