(* ===== verification/Desktop_Grid_Facts.thy ===== *)
theory Desktop_Grid_Facts
  imports Virtual_Desktops "HOL-Library.Multiset"
begin

text \<open>
  Facts about the grid of virtual desktops: its shape after \<open>VirtualDesktopGrid::update\<close>, the
  contract of the walks along its rows and columns, and what follows for \<open>above\<close>, \<open>below\<close>,
  \<open>toLeft\<close> and \<open>toRight\<close>.
\<close>

section \<open>The shape of the grid\<close>

text \<open>As many rows as the height says, none longer than the width, and no row longer than the one
  above it.\<close>

definition gridShape :: "vdgrid \<Rightarrow> bool" where
  "gridShape g \<longleftrightarrow> 0 \<le> gridW g \<and> gridH g = int (length (cells g)) \<and>
     (\<forall>r \<in> set (cells g). int (length r) \<le> gridW g) \<and>
     sorted_wrt (\<lambda>r r'. length r' \<le> length r) (cells g)"

lemma length_fillRows [simp]: "length (fillRows h w ds) = h"
  by (induction h w ds rule: fillRows.induct) auto

lemma fillRows_row_le: "r \<in> set (fillRows h w ds) \<Longrightarrow> length r \<le> min w (length ds)"
  by (induction h w ds rule: fillRows.induct) fastforce+

lemma fillRows_sorted: "sorted_wrt (\<lambda>r r'. length r' \<le> length r) (fillRows h w ds)"
proof (induction h w ds rule: fillRows.induct)
  case (2 h w ds)
  have "length r \<le> length (take w ds)" if "r \<in> set (fillRows h w (drop w ds))" for r
    using fillRows_row_le[OF that] by auto
  with 2 show ?case by auto
qed simp

lemma concat_fillRows: "concat (fillRows h w ds) = take (h * w) ds"
  by (induction h w ds rule: fillRows.induct) (auto simp: take_add)

lemma length_appendColumn [simp]: "length (appendColumn rows ds) = length rows"
  by (induction rows ds rule: appendColumn.induct) auto

lemma length_fillColumns [simp]: "length (fillColumns w rows ds) = length rows"
  by (induction w rows ds rule: fillColumns.induct) auto

lemma mset_appendColumn:
  "mset (concat (appendColumn rows ds)) + mset (drop (length rows) ds) = mset (concat rows) + mset ds"
  by (induction rows ds rule: appendColumn.induct) (auto simp: ac_simps)

lemma mset_fillColumns:
  "mset (concat (fillColumns w rows ds)) + mset (drop (w * length rows) ds) = mset (concat rows) + mset ds"
proof (induction w rows ds rule: fillColumns.induct)
  case (2 w rows ds)
  have "mset (concat (fillColumns (Suc w) rows ds)) + mset (drop (Suc w * length rows) ds)
      = mset (concat (appendColumn rows ds)) + mset (drop (length rows) ds)"
    using 2 by (simp add: add.commute)
  then show ?case by (simp only: mset_appendColumn)
qed simp

lemma appendColumn_row_le:
  "r' \<in> set (appendColumn rows ds) \<Longrightarrow> \<exists>r \<in> set rows. length r' \<le> Suc (length r)"
  by (induction rows ds rule: appendColumn.induct) (auto intro: bexI[of _ r'])

lemma fillColumns_row_le:
  "r' \<in> set (fillColumns w rows ds) \<Longrightarrow> \<forall>r \<in> set rows. length r \<le> k \<Longrightarrow> length r' \<le> w + k"
proof (induction w rows ds arbitrary: k rule: fillColumns.induct)
  case (2 w rows ds)
  have "\<forall>r \<in> set (appendColumn rows ds). length r \<le> Suc k"
    using 2(3) appendColumn_row_le by fastforce
  with 2(1)[of "Suc k"] 2(2) show ?case by simp
qed simp

text \<open>Columns are appended to rows of equal length; only the last column can be incomplete.\<close>

lemma appendColumn_uniform:
  assumes "\<forall>r \<in> set rows. length r = k"
  shows "if length rows \<le> length ds then \<forall>r \<in> set (appendColumn rows ds). length r = Suc k
    else sorted_wrt (\<lambda>r r'. length r' \<le> length r) (appendColumn rows ds)"
  using assms
proof (induction rows arbitrary: ds)
  case (Cons r rs)
  have le: "length r' \<le> length r" if "r' \<in> set rs" for r'
    using Cons.prems that by simp
  show ?case
  proof (cases ds)
    case Nil
    have "sorted_wrt (\<lambda>r r'. length r' \<le> length r) (appendColumn rs [])"
      using Cons.IH[of "[]"] Cons.prems by (cases rs) auto
    then show ?thesis using Nil le by (cases rs) auto
  next
    case ds: (Cons d ds')
    have IH: "if length rs \<le> length ds' then \<forall>r \<in> set (appendColumn rs ds'). length r = Suc k
      else sorted_wrt (\<lambda>r r'. length r' \<le> length r) (appendColumn rs ds')"
      using Cons.IH[of ds'] Cons.prems by simp
    have "length r' \<le> Suc k" if "r' \<in> set (appendColumn rs ds')" for r'
      using appendColumn_row_le[OF that] Cons.prems by auto
    with IH Cons.prems ds show ?thesis by (auto split: if_splits)
  qed
qed simp

lemma appendColumn_Nil [simp]: "appendColumn rows [] = rows"
  by (cases rows) auto

lemma fillColumns_Nil [simp]: "fillColumns w rows [] = rows"
  by (induction w) auto

lemma fillColumns_sorted:
  "\<forall>r \<in> set rows. length r = k \<Longrightarrow> sorted_wrt (\<lambda>r r'. length r' \<le> length r) (fillColumns w rows ds)"
proof (induction w rows ds arbitrary: k rule: fillColumns.induct)
  case (1 rows ds)
  then show ?case by (induction rows) auto
next
  case (2 w rows ds)
  show ?case
  proof (cases "length rows \<le> length ds")
    case True
    then show ?thesis using 2(1)[of "Suc k"] appendColumn_uniform[OF 2(2), of ds] by simp
  next
    case False
    then show ?thesis using appendColumn_uniform[OF 2(2), of ds] by simp
  qed
qed

lemma int_to_uint_nonneg: "0 \<le> w \<Longrightarrow> w < 2 ^ 31 \<Longrightarrow> int_to_uint w = nat w"
  by (simp add: int_to_uint_def)

lemma gridUpdate_shape:
  assumes "0 \<le> w" "w < 2 ^ 31" "0 \<le> h" "h < 2 ^ 31"
  shows "gridShape (gridUpdate w h orient ds)"
proof (cases orient)
  case Horizontal
  have "int (length r) \<le> w" if "r \<in> set (fillRows (nat h) (nat w) ds)" for r
    using fillRows_row_le[OF that] assms(1) by linarith
  with Horizontal assms show ?thesis
    by (auto simp: gridShape_def gridUpdate_def Let_def int_to_uint_nonneg fillRows_sorted)
next
  case Vertical
  have "int (length r) \<le> w" if "r \<in> set (fillColumns (nat w) (replicate (nat h) []) ds)" for r
    using fillColumns_row_le[OF that, of 0] assms(1) by fastforce
  moreover have "sorted_wrt (\<lambda>r r'. length r' \<le> length r) (fillColumns (nat w) (replicate (nat h) []) ds)"
    by (rule fillColumns_sorted[of _ 0]) simp
  ultimately show ?thesis using Vertical assms
    by (auto simp: gridShape_def gridUpdate_def Let_def int_to_uint_nonneg)
qed

text \<open>A grid with enough cells holds every desktop exactly as often as the list does.\<close>

lemma gridUpdate_contents:
  assumes "0 \<le> w" "w < 2 ^ 31" "0 \<le> h" "h < 2 ^ 31" "length ds \<le> nat w * nat h"
  shows "mset (concat (cells (gridUpdate w h orient ds))) = mset ds"
  using assms mset_fillColumns[of "nat w" "replicate (nat h) []" ds]
  by (cases orient) (auto simp: gridUpdate_def Let_def int_to_uint_nonneg concat_fillRows mult.commute)

section \<open>Walking along a line of the grid\<close>

text \<open>
  The contract of a line of the grid that the four loops rely on: the cells before \<open>len\<close> hold a
  desktop, those from \<open>len\<close> on are empty, and the coordinate wraps at \<open>limit\<close>. The loops end on
  such a line, at the next (previous) desktop of it.
\<close>

locale line_walk =
  fixes invar :: "'s \<Rightarrow> bool" and line :: "'s \<Rightarrow> int \<Rightarrow> vd option option"
    and len :: "'s \<Rightarrow> int" and limit :: "'s \<Rightarrow> int"
  assumes occupied: "invar s \<Longrightarrow> 0 \<le> k \<Longrightarrow> k < len s \<Longrightarrow> \<exists>d. line s k = Some (Some d)"
    and blank: "invar s \<Longrightarrow> len s \<le> k \<Longrightarrow> line s k = Some None"
    and len_bounds: "invar s \<Longrightarrow> 0 \<le> len s \<and> len s \<le> limit s"
begin

definition cell :: "'s \<Rightarrow> int \<Rightarrow> vd" where "cell s k = the (the (line s k))"

lemma line_cell: "invar s \<Longrightarrow> 0 \<le> k \<Longrightarrow> k < len s \<Longrightarrow> line s k = Some (Some (cell s k))"
  using occupied[of s k] by (auto simp: cell_def)

lemma forward_blank:
  assumes "invar s" "0 < len s" "len s \<le> k + 1" "k < limit s"
  shows "walkForward (line s) (limit s) wrap d k = Some (if wrap then cell s 0 else d)"
  using assms(3,4)
proof (induction "nat (limit s - k)" arbitrary: k)
  case (Suc n)
  show ?case
  proof (cases "k + 1 < limit s")
    case True
    with Suc have "walkForward (line s) (limit s) wrap d (k + 1) = Some (if wrap then cell s 0 else d)"
      by simp
    moreover have "line s (k + 1) = Some None" using blank[OF assms(1)] Suc.prems by simp
    ultimately show ?thesis using True by (subst walkForward.simps) simp
  next
    case False
    then show ?thesis using line_cell[OF assms(1), of 0] assms(2) by (subst walkForward.simps) simp
  qed
qed simp

lemma forward:
  assumes "invar s" "0 \<le> k" "k < len s"
  shows "walkForward (line s) (limit s) wrap d k =
    Some (if k + 1 < len s then cell s (k + 1) else if wrap then cell s 0 else d)"
proof (cases "k + 1 < len s")
  case True
  then have "\<not> k + 1 \<ge> limit s" using len_bounds[OF assms(1)] by linarith
  moreover have "line s (k + 1) = Some (Some (cell s (k + 1)))" using line_cell assms(1,2) True by simp
  ultimately show ?thesis using True by (subst walkForward.simps) simp
next
  case False
  then show ?thesis using forward_blank[of s k wrap d] len_bounds[OF assms(1)] assms by simp
qed

lemma backward_blank:
  assumes "invar s" "0 < len s" "len s \<le> k" "k \<le> limit s"
  shows "walkBackward (line s) (limit s) wrap d k = Some (cell s (len s - 1))"
  using assms(3,4)
proof (induction "nat (k - len s)" arbitrary: k)
  case 0
  then have "k = len s" by simp
  then show ?case using line_cell[OF assms(1), of "len s - 1"] assms(2) by (subst walkBackward.simps) simp
next
  case (Suc n)
  then have "walkBackward (line s) (limit s) wrap d (k - 1) = Some (cell s (len s - 1))" by simp
  moreover have "line s (k - 1) = Some None" using blank[OF assms(1)] Suc by simp
  ultimately show ?case using Suc assms(2) by (subst walkBackward.simps) simp
qed

lemma backward:
  assumes "invar s" "0 \<le> k" "k < len s"
  shows "walkBackward (line s) (limit s) wrap d k =
    Some (if 0 < k then cell s (k - 1) else if wrap then cell s (len s - 1) else d)"
proof (cases "0 < k")
  case True
  then have "line s (k - 1) = Some (Some (cell s (k - 1)))" using line_cell assms by simp
  then show ?thesis using True by (subst walkBackward.simps) simp
next
  case False
  with assms have k: "k = 0" by simp
  show ?thesis
  proof (cases "len s = limit s")
    case True
    then show ?thesis using k line_cell[OF assms(1), of "len s - 1"] assms by (subst walkBackward.simps) simp
  next
    case False
    then have "len s \<le> limit s - 1" using len_bounds[OF assms(1)] by simp
    then have "walkBackward (line s) (limit s) w d (limit s - 1) = Some (cell s (len s - 1))" for w
      using backward_blank[of s "limit s - 1" w d] assms by simp
    moreover have "line s (limit s - 1) = Some None" using blank[OF assms(1)] \<open>len s \<le> limit s - 1\<close> by simp
    ultimately show ?thesis using k by (subst walkBackward.simps) simp
  qed
qed

end

text \<open>The rows of the grid.\<close>

definition rowLine :: "vdgrid \<times> int \<Rightarrow> int \<Rightarrow> vd option option" where
  "rowLine p = (\<lambda>x. gridAt (fst p) x (snd p))"

definition rowLen :: "vdgrid \<times> int \<Rightarrow> int" where
  "rowLen p = int (length (cells (fst p) ! nat (snd p)))"

definition rowInvar :: "vdgrid \<times> int \<Rightarrow> bool" where
  "rowInvar p \<longleftrightarrow> gridShape (fst p) \<and> 0 \<le> snd p \<and> snd p < gridH (fst p)"

definition rowLimit :: "vdgrid \<times> int \<Rightarrow> int" where "rowLimit p = gridW (fst p)"

interpretation rows: line_walk rowInvar rowLine rowLen rowLimit
  by unfold_locales
    (auto simp: rowInvar_def rowLine_def rowLen_def rowLimit_def gridAt_def Let_def gridShape_def)

text \<open>The columns: the rows that reach the coordinate are the first ones.\<close>

definition colLine :: "vdgrid \<times> int \<Rightarrow> int \<Rightarrow> vd option option" where
  "colLine p = (\<lambda>y. gridAt (fst p) (snd p) y)"

definition colLen :: "vdgrid \<times> int \<Rightarrow> int" where
  "colLen p = int (length (takeWhile (\<lambda>r. snd p < int (length r)) (cells (fst p))))"

definition colInvar :: "vdgrid \<times> int \<Rightarrow> bool" where
  "colInvar p \<longleftrightarrow> gridShape (fst p) \<and> 0 \<le> snd p"

definition colLimit :: "vdgrid \<times> int \<Rightarrow> int" where "colLimit p = gridH (fst p)"

lemma takeWhile_sorted_nth:
  assumes "sorted_wrt (\<lambda>r r'. length r' \<le> length r) rs" "k < length rs"
  shows "k < length (takeWhile (\<lambda>r. x < int (length r)) rs) \<longleftrightarrow> x < int (length (rs ! k))"
  using assms
proof (induction rs arbitrary: k)
  case (Cons r rs)
  show ?case
  proof (cases k)
    case (Suc j)
    have j: "j < length rs" using Cons.prems Suc by simp
    have le: "length (rs ! j) \<le> length r" using Cons.prems(1) j by simp
    have "\<not> x < int (length r) \<Longrightarrow> \<not> x < int (length (rs ! j))" using le by linarith
    then show ?thesis using Suc Cons.IH[OF _ j] Cons.prems(1) by simp
  qed simp
qed simp

lemma colLen_iff:
  assumes "gridShape g" "0 \<le> y" "y < gridH g"
  shows "y < colLen (g, x) \<longleftrightarrow> x < int (length (cells g ! nat y))"
  using takeWhile_sorted_nth[of "cells g" "nat y" x] assms
  by (simp add: gridShape_def colLen_def nat_less_iff)

lemma colLen_le: "gridShape g \<Longrightarrow> colLen (g, x) \<le> gridH g"
  using length_takeWhile_le[of "\<lambda>r. x < int (length r)" "cells g"] by (simp add: colLen_def gridShape_def)

interpretation cols: line_walk colInvar colLine colLen colLimit
proof
  fix p k assume inv: "colInvar p" and k: "0 \<le> k" "k < colLen p"
  obtain g x where p: "p = (g, x)" by (cases p)
  have "k < gridH g" using k inv colLen_le[of g x] by (simp add: p colInvar_def)
  then show "\<exists>d. colLine p k = Some (Some d)"
    using inv k colLen_iff[of g k x] by (auto simp: p colInvar_def colLine_def gridAt_def Let_def gridShape_def)
next
  fix p k assume inv: "colInvar p" and k: "colLen p \<le> k"
  obtain g x where p: "p = (g, x)" by (cases p)
  have "0 \<le> k" using k by (simp add: colLen_def)
  moreover have "int (length (cells g ! nat k)) \<le> x" if "k < int (length (cells g))"
    using inv k colLen_iff[of g k x] that \<open>0 \<le> k\<close> by (simp add: p colInvar_def gridShape_def not_less)
  ultimately show "colLine p k = Some None"
    using inv k by (auto simp: p colInvar_def colLine_def gridAt_def Let_def gridShape_def)
next
  fix p assume "colInvar p"
  then show "0 \<le> colLen p \<and> colLen p \<le> colLimit p"
    using colLen_le[of "fst p" "snd p"] by (simp add: colInvar_def colLimit_def colLen_def)
qed

section \<open>Coordinates\<close>

lemma gridCoordsFrom_nth:
  assumes "distinct (concat rs)" "j < length rs" "i < length (rs ! j)"
  shows "gridCoordsFrom rs y (rs ! j ! i) = (int i, y + int j)"
  using assms
proof (induction rs arbitrary: j y)
  case (Cons r rs)
  show ?case
  proof (cases j)
    case 0
    then show ?thesis using Cons.prems by (simp add: indexOf_nth_distinct)
  next
    case (Suc k)
    then have "rs ! k ! i \<in> set (concat rs)" using Cons.prems by (auto intro: nth_mem bexI[of _ "rs ! k"])
    then have "rs ! k ! i \<notin> set r" using Cons.prems(1) by auto
    then show ?thesis using Suc Cons by auto
  qed
qed simp

definition gridCell :: "vdgrid \<Rightarrow> int \<Rightarrow> int \<Rightarrow> vd" where
  "gridCell g x y = cells g ! nat y ! nat x"

definition inGrid :: "vdgrid \<Rightarrow> int \<Rightarrow> int \<Rightarrow> bool" where
  "inGrid g x y \<longleftrightarrow> 0 \<le> y \<and> y < int (length (cells g)) \<and> 0 \<le> x \<and> x < int (length (cells g ! nat y))"

lemma gridCoords_cell:
  "distinct (concat (cells g)) \<Longrightarrow> inGrid g x y \<Longrightarrow> gridCoords g (gridCell g x y) = (x, y)"
  using gridCoordsFrom_nth[of "cells g" "nat y" "nat x" 0]
  by (simp add: gridCoords_def gridCell_def inGrid_def nat_less_iff)

lemma gridCoords_of:
  assumes "distinct (concat (cells g))" "d \<in> set (concat (cells g))"
  shows "\<exists>x y. inGrid g x y \<and> d = gridCell g x y \<and> gridCoords g d = (x, y)"
proof -
  obtain r where "r \<in> set (cells g)" "d \<in> set r" using assms(2) by auto
  then obtain j i where "j < length (cells g)" "i < length (cells g ! j)" "d = cells g ! j ! i"
    by (metis in_set_conv_nth)
  then have "inGrid g (int i) (int j)" "d = gridCell g (int i) (int j)"
    by (simp_all add: inGrid_def gridCell_def)
  then show ?thesis using gridCoords_cell[OF assms(1)] by blast
qed

lemma rows_cell: "inGrid g x y \<Longrightarrow> rows.cell (g, y) x = gridCell g x y"
  by (simp add: rows.cell_def rowLine_def gridAt_def inGrid_def gridCell_def Let_def)

lemma cols_cell: "inGrid g x y \<Longrightarrow> cols.cell (g, x) y = gridCell g x y"
  by (simp add: cols.cell_def colLine_def gridAt_def inGrid_def gridCell_def Let_def)

end
