(* ===== verification/Desktop_Invariant.thy ===== *)
theory Desktop_Invariant
  imports Desktop_Grid_Facts
begin

text \<open>
  The well-formedness invariant of the virtual desktop manager and its preservation by every
  operation that changes the desktops, the layout or the current desktop. The operations are shown
  to return a state at all: no assertion fails, no index is out of range and the loop that grows the
  layout ends.
\<close>

section \<open>The invariant\<close>

definition desktopNumber :: "vdm \<Rightarrow> vd \<Rightarrow> int" where
  "desktopNumber s d = m_x11DesktopNumber (heap s d)"

definition numbered :: "vdm \<Rightarrow> bool" where
  "numbered s \<longleftrightarrow> (\<forall>i < vcount s. desktopNumber s (m_desktops s ! i) = int i + 1)"

definition saneRoot :: "rootinfo option \<Rightarrow> bool" where
  "saneRoot r \<longleftrightarrow> (case r of None \<Rightarrow> True
     | Some ri \<Rightarrow> 0 \<le> layoutColumns ri \<and> layoutColumns ri < 2 ^ 15 \<and> layoutRows ri < 2 ^ 15)"

text \<open>The part of the invariant that does not depend on the grid.\<close>

definition listInv :: "vdm \<Rightarrow> bool" where
  "listInv s \<longleftrightarrow> distinct (m_desktops s) \<and> (\<forall>d \<in> set (m_desktops s). d < nextPtr s) \<and>
     numbered s \<and> vcount s \<le> maximum \<and> set_option (m_current s) \<subseteq> set (m_desktops s) \<and>
     1 \<le> m_rows s \<and> saneRoot (m_rootInfo s)"

definition gridOK :: "vdgrid \<Rightarrow> vd list \<Rightarrow> bool" where
  "gridOK g ds \<longleftrightarrow> gridShape g \<and> mset (concat (cells g)) = mset ds"

definition vdm_inv :: "vdm \<Rightarrow> bool" where
  "vdm_inv s \<longleftrightarrow> listInv s \<and> 1 \<le> vcount s \<and> gridOK (m_grid s) (m_desktops s)"

text \<open>What is used of \<open>NETRootInfo\<close>: setting a layout of at most 20 desktops leaves it with
  a sane layout.\<close>

definition saneEnv :: "vd_env \<Rightarrow> bool" where
  "saneEnv V \<longleftrightarrow> (\<forall>orient columns rows ri. 0 \<le> columns \<longrightarrow> columns \<le> 20 \<longrightarrow> 0 \<le> rows \<longrightarrow>
     saneRoot (Some ri) \<longrightarrow> saneRoot (Some (rootinfoSetLayout V orient columns rows ri)))"

lemma gridOK_set: "gridOK g ds \<Longrightarrow> set (concat (cells g)) = set ds"
  unfolding gridOK_def by (metis set_mset_mset)

lemma gridOK_distinct: "gridOK g ds \<Longrightarrow> distinct ds \<Longrightarrow> distinct (concat (cells g))"
  unfolding gridOK_def by (metis mset_eq_imp_distinct_iff)

section \<open>The layout\<close>

lemma umul_small: "a < 2 ^ 16 \<Longrightarrow> b < 2 ^ 16 \<Longrightarrow> umul a b = a * b"
proof -
  assume "a < 2 ^ 16" "b < 2 ^ 16"
  then have "a * b < 2 ^ 16 * 2 ^ 16" by (intro mult_strict_mono) auto
  then show ?thesis by (simp add: umul_def)
qed

lemma uadd_small: "a < 2 ^ 31 \<Longrightarrow> uadd a (Suc 0) = Suc a"
  by (simp add: uadd_def)

lemma growLayout_horizontal:
  assumes "0 < h" "h < 2 ^ 16" "w < 2 ^ 15" "n \<le> 20"
  shows "\<exists>w'. growLayout Horizontal n w h = Some (w', h) \<and> n \<le> w' * h \<and> w \<le> w' \<and> w' < 2 ^ 16 \<and>
    (w < w' \<longrightarrow> (w' - 1) * h < n)"
  using assms(3)
proof (induction "n - w * h" arbitrary: w rule: less_induct)
  case less
  show ?case
  proof (cases "w * h < n")
    case True
    then have "w < n" using assms(1) by (metis le_less_trans mult.right_neutral mult_le_mono2 Suc_leI One_nat_def)
    then have "w + 1 < 2 ^ 15" "n - (w + 1) * h < n - w * h" using True assms by (auto simp: algebra_simps)
    from less(1)[OF this(2,1)] obtain w' where
      "growLayout Horizontal n (w + 1) h = Some (w', h)" "n \<le> w' * h" "w + 1 \<le> w'" "w' < 2 ^ 16"
      "w + 1 < w' \<longrightarrow> (w' - 1) * h < n" by auto
    moreover have "(w' - 1) * h < n" using calculation True by (cases "w + 1 < w'") auto
    ultimately show ?thesis using True less.prems assms
      by (subst growLayout.simps) (auto simp: umul_small uadd_small)
  next
    case False
    then show ?thesis using less.prems assms by (subst growLayout.simps) (auto simp: umul_small)
  qed
qed

lemma growLayout_vertical:
  assumes "0 < w" "w < 2 ^ 16" "h < 2 ^ 15" "n \<le> 20"
  shows "\<exists>h'. growLayout Vertical n w h = Some (w, h') \<and> n \<le> w * h' \<and> h \<le> h' \<and> h' < 2 ^ 16"
  using assms(3)
proof (induction "n - w * h" arbitrary: h rule: less_induct)
  case less
  show ?case
  proof (cases "w * h < n")
    case True
    then have "h < n" using assms(1) by (metis le_less_trans mult.left_neutral mult_le_mono1 Suc_leI One_nat_def)
    then have "h + 1 < 2 ^ 15" "n - w * (h + 1) < n - w * h" using True assms by (auto simp: algebra_simps)
    from less(1)[OF this(2,1)] show ?thesis using True less.prems assms
      by (subst growLayout.simps) (auto simp: umul_small uadd_small)
  next
    case False
    then show ?thesis using less.prems assms by (subst growLayout.simps) (auto simp: umul_small)
  qed
qed

lemma uint_to_int_small: "n < 2 ^ 31 \<Longrightarrow> uint_to_int n = int n"
  by (simp add: uint_to_int_def)

lemma int_to_uint_int [simp]: "n < 2 ^ 32 \<Longrightarrow> int_to_uint (int n) = n"
  by (simp add: int_to_uint_def nat_mod_distrib)

lemma setNETDesktopLayout_defined:
  assumes "0 < w" "w < 2 ^ 15" "0 < h" "h < 2 ^ 15" "vcount s \<le> 20"
  shows "\<exists>r g e. setNETDesktopLayout orient w h s = Some (s\<lparr>m_rows := r, m_grid := g, signals := e\<rparr>) \<and>
    1 \<le> r \<and> gridOK g (m_desktops s)"
proof -
  obtain w' h' where grow: "growLayout orient (vcount s) w h = Some (w', h')"
    and sz: "vcount s \<le> w' * h'" "w' < 2 ^ 16" "h' < 2 ^ 16"
  proof (cases orient)
    case Horizontal
    then show ?thesis using growLayout_horizontal[of h w "vcount s"] assms that by fastforce
  next
    case Vertical
    then show ?thesis using growLayout_vertical[of w h "vcount s"] assms that by fastforce
  qed
  define g where "g = gridUpdate (uint_to_int w') (uint_to_int h') orient (m_desktops s)"
  have "gridShape g" unfolding g_def
    by (rule gridUpdate_shape) (use sz in \<open>auto simp: uint_to_int_small\<close>)
  moreover have "mset (concat (cells g)) = mset (m_desktops s)" unfolding g_def
    by (rule gridUpdate_contents) (use sz in \<open>auto simp: uint_to_int_small vcount_def\<close>)
  ultimately have "gridOK g (m_desktops s)" by (simp add: gridOK_def)
  moreover have "setNETDesktopLayout orient w h s = Some (emit (RowsChanged h')
      (emit (LayoutChanged (uint_to_int w') (uint_to_int h')) (s\<lparr>m_rows := max 1 h', m_grid := g\<rparr>)))"
    using assms(1,3) grow by (simp add: setNETDesktopLayout_def g_def)
  ultimately show ?thesis by (force simp: emit_def)
qed

lemma updateLayout_defined:
  assumes "listInv s" "1 \<le> vcount s"
  shows "\<exists>r g e. updateLayout s = Some (s\<lparr>m_rows := r, m_grid := g, signals := e\<rparr>) \<and>
    1 \<le> r \<and> gridOK g (m_desktops s)"
proof -
  have n: "1 \<le> vcount s" "vcount s \<le> 20" and rows: "1 \<le> m_rows s" and root: "saneRoot (m_rootInfo s)"
    using assms by (auto simp: listInv_def maximum_def)
  have *: "\<exists>w h orient. 0 < w \<and> w < 2 ^ 15 \<and> 0 < h \<and> h < 2 ^ 15 \<and>
      updateLayout s = setNETDesktopLayout orient w h (s\<lparr>m_rows := h\<rparr>)"
  proof -
    define r0 where "r0 = min (m_rows s) (vcount s)"
    have r0: "0 < r0" "r0 \<le> vcount s" using n rows by (auto simp: r0_def)
    then have c0: "0 < vcount s div r0" "vcount s div r0 \<le> 20"
      using n div_le_dividend[of "vcount s" r0] by (simp_all add: div_greater_zero_iff del: div_le_dividend)
    define t where "t = (case m_rootInfo s of None \<Rightarrow> (uint_to_int (vcount s div r0), r0, Horizontal)
       | Some ri \<Rightarrow> (layoutColumns ri, int_to_uint (max 1 (layoutRows ri)), layoutOrientation ri))"
    obtain c1 r1 orient where t: "t = (c1, r1, orient)" by (cases t)
    have c1: "0 \<le> c1" "c1 < 2 ^ 15" and r1: "0 < r1" "r1 < 2 ^ 15"
      using t root c0 r0 n
      by (auto simp: t_def saneRoot_def uint_to_int_small int_to_uint_def max_def split: option.splits if_splits)
    define p where "p = (if c1 = 0 then (let r = (if vcount s = 1 then 1 else 2) in (uint_to_int (vcount s div r), r))
       else (c1, r1))"
    obtain c2 r2 where p: "p = (c2, r2)" by (cases p)
    have c2: "0 < c2" "c2 < 2 ^ 15" and r2: "0 < r2" "r2 < 2 ^ 15"
      using p c1 r1 n by (auto simp: p_def uint_to_int_small Let_def split: if_splits)
    have u: "int_to_uint c2 = nat c2" using c2 by (simp add: int_to_uint_def)
    have e: "updateLayout s = (case t of (c1, r1, orient) \<Rightarrow>
        case (if c1 = 0 then (let r = (if vcount s = 1 then 1 else 2) in (uint_to_int (vcount s div r), r))
          else (c1, r1)) of (c2, r2) \<Rightarrow>
        case (if vcount s = 1 then (1, 1) else (c2, r2)) of (c3, r3) \<Rightarrow>
          setNETDesktopLayout orient (int_to_uint c3) r3 (s\<lparr>m_rows := r3\<rparr>))"
      using r0(1) unfolding updateLayout_def t_def r0_def Let_def by simp
    show ?thesis
    proof (cases "vcount s = 1")
      case True
      have "updateLayout s = setNETDesktopLayout orient 1 1 (s\<lparr>m_rows := 1\<rparr>)"
        using t p True by (simp add: e p_def[symmetric] int_to_uint_def split_def)
      then show ?thesis by (intro exI[of _ 1] exI[of _ orient]) auto
    next
      case False
      have "updateLayout s = setNETDesktopLayout orient (nat c2) r2 (s\<lparr>m_rows := r2\<rparr>)"
        using t p False u by (simp add: e p_def[symmetric])
      then show ?thesis using c2 r2 by (intro exI[of _ "nat c2"] exI[of _ r2] exI[of _ orient]) auto
    qed
  qed
  then obtain w h orient where wh: "0 < w" "w < 2 ^ 15" "0 < h" "h < 2 ^ 15"
    and eq: "updateLayout s = setNETDesktopLayout orient w h (s\<lparr>m_rows := h\<rparr>)" by blast
  show ?thesis
    using setNETDesktopLayout_defined[OF wh, of "s\<lparr>m_rows := h\<rparr>" orient] n
    by (auto simp: eq vcount_def)
qed

section \<open>Frames\<close>

text \<open>What the auxiliary steps may change.\<close>

lemma emit_frame: "\<exists>x. emit e s = s\<lparr>signals := x\<rparr>"
  by (auto simp: emit_def)

lemma rootCall_frame: "\<exists>x. rootCall e s = s\<lparr>signals := x\<rparr>"
proof (cases "m_rootInfo s = None")
  case True
  then have "rootCall e s = s\<lparr>signals := signals s\<rparr>" by (simp add: rootCall_def)
  then show ?thesis by blast
qed (auto simp: rootCall_def emit_def)

lemma saveDesktop_frame: "\<exists>m' x. saveDesktop V d (m, s) = (m', s\<lparr>signals := x\<rparr>)"
proof -
  have "\<exists>x. s = s\<lparr>signals := x\<rparr>" by (intro exI[of _ "signals s"]) simp
  then show ?thesis using rootCall_frame[of _ s] by (simp add: saveDesktop_def Let_def)
qed

lemma saveDesktops_frame: "\<exists>m' x. fold (saveDesktop V) ds (m, s) = (m', s\<lparr>signals := x\<rparr>)"
proof (induction ds arbitrary: m s)
  case Nil
  show ?case by (intro exI[of _ m] exI[of _ "signals s"]) simp
next
  case (Cons d ds)
  obtain m' x where "saveDesktop V d (m, s) = (m', s\<lparr>signals := x\<rparr>)" using saveDesktop_frame by blast
  then show ?case using Cons[of m' "s\<lparr>signals := x\<rparr>"] by auto
qed

lemma save_frame: "\<exists>c x. save V s = s\<lparr>m_config := c, signals := x\<rparr>"
proof -
  have same: "\<exists>c x. s = s\<lparr>m_config := c, signals := x\<rparr>"
    by (intro exI[of _ "m_config s"] exI[of _ "signals s"]) simp
  show ?thesis
  proof (cases "s_loadingDesktopSettings s \<or> m_config s = None")
    case True
    then have "save V s = s" by (auto simp: save_def)
    then show ?thesis using same by (simp only:)
  next
    case False
    then obtain m where m: "m_config s = Some m" "\<not> s_loadingDesktopSettings s" by auto
    obtain m' x where "fold (saveDesktop V) (m_desktops s)
        (writeEntry CfgNumber (CfgInt (int (vcount s))) (pruneEntries (int (vcount s) + 1) m), s) = (m', s\<lparr>signals := x\<rparr>)"
      using saveDesktops_frame by blast
    then have "save V s = s\<lparr>m_config := Some (writeEntry CfgRows (CfgInt (int (m_rows s))) m'), signals := x\<rparr>"
      using m by (simp add: save_def)
    then show ?thesis by blast
  qed
qed

lemma setX11DesktopNumber_frame:
  "\<exists>x. setX11DesktopNumber d n s = s\<lparr>heap := (heap s)(d :=
     (if int_to_uint (m_x11DesktopNumber (heap s d)) = n then heap s d
      else (heap s d)\<lparr>m_x11DesktopNumber := uint_to_int n\<rparr>)), signals := x\<rparr>"
proof (cases "int_to_uint (m_x11DesktopNumber (heap s d)) = n")
  case True
  then have "setX11DesktopNumber d n s = s\<lparr>heap := (heap s)(d := heap s d), signals := signals s\<rparr>"
    by (simp add: setX11DesktopNumber_def)
  then show ?thesis unfolding if_P[OF True] by (rule exI)
next
  case False
  have "\<exists>x. setX11DesktopNumber d n s =
    s\<lparr>heap := (heap s)(d := (heap s d)\<lparr>m_x11DesktopNumber := uint_to_int n\<rparr>), signals := x\<rparr>"
    by (rule exI[of _ "signals (setX11DesktopNumber d n s)"])
      (use False in \<open>auto simp: setX11DesktopNumber_def emit_def Let_def\<close>)
  then show ?thesis unfolding if_not_P[OF False] .
qed

text \<open>With a number in the range the state can hold, the desktop ends up with exactly the number
  it is given.\<close>

lemma setX11DesktopNumber_small:
  assumes "0 \<le> m_x11DesktopNumber (heap s d)" "m_x11DesktopNumber (heap s d) < 2 ^ 31" "n < 2 ^ 31"
  shows "\<exists>x. setX11DesktopNumber d n s =
    s\<lparr>heap := (heap s)(d := (heap s d)\<lparr>m_x11DesktopNumber := int n\<rparr>), signals := x\<rparr>"
proof -
  have "heap s d = (heap s d)\<lparr>m_x11DesktopNumber := int n\<rparr>" if "int_to_uint (m_x11DesktopNumber (heap s d)) = n"
    using that assms by (simp add: int_to_uint_def)
  then show ?thesis using setX11DesktopNumber_frame[of d n s] assms(3) by (auto simp: uint_to_int_small)
qed

definition numbersSmall :: "vdm \<Rightarrow> bool" where
  "numbersSmall s \<longleftrightarrow> (\<forall>d \<in> set (m_desktops s). 0 \<le> desktopNumber s d \<and> desktopNumber s d \<le> 21)"

text \<open>The heap after renumbering: a desktop at a position \<open>i\<close> of \<open>js\<close> has the number \<open>i + 1\<close>.\<close>

lemma renumber_fold:
  assumes "distinct (m_desktops s0)" "set js \<subseteq> {..< vcount s0}" "vcount s0 \<le> 20"
    "m_desktops s = m_desktops s0" "numbersSmall s"
  shows "\<exists>h x. fold (renumberOne s0) js s = s\<lparr>heap := h, signals := x\<rparr> \<and>
    (\<forall>d. m_id (h d) = m_id (heap s d) \<and> m_name (h d) = m_name (heap s d)) \<and>
    (\<forall>i < vcount s0. m_x11DesktopNumber (h (m_desktops s0 ! i)) =
       (if i \<in> set js then int i + 1 else desktopNumber s (m_desktops s0 ! i)))"
  using assms(2,4,5)
proof (induction js arbitrary: s)
  case Nil
  show ?case by (intro exI[of _ "heap s"] exI[of _ "signals s"]) (simp add: desktopNumber_def)
next
  case (Cons j js)
  let ?d = "m_desktops s0 ! j"
  let ?h = "(heap s)(?d := (heap s ?d)\<lparr>m_x11DesktopNumber := int (j + 1)\<rparr>)"
  have j: "j < vcount s0" "j < 20" using Cons.prems(1) assms(3) by auto
  then have d: "?d \<in> set (m_desktops s)" using Cons.prems(2) by (simp add: vcount_def)
  obtain x where "setX11DesktopNumber ?d (j + 1) s = s\<lparr>heap := ?h, signals := x\<rparr>"
    using setX11DesktopNumber_small[of s ?d "j + 1"] Cons.prems(3) d j
    by (fastforce simp: numbersSmall_def desktopNumber_def)
  then obtain y where one: "renumberOne s0 j s = s\<lparr>heap := ?h, signals := y\<rparr>"
    using rootCall_frame[of "RootSetDesktopName (int j + 1) (m_name (heap s0 ?d))" "s\<lparr>heap := ?h, signals := x\<rparr>"]
    by (auto simp: renumberOne_def Let_def)
  let ?s = "s\<lparr>heap := ?h, signals := y\<rparr>"
  have "numbersSmall ?s" using Cons.prems(3) j by (auto simp: numbersSmall_def desktopNumber_def)
  then obtain h z where f: "fold (renumberOne s0) js ?s = ?s\<lparr>heap := h, signals := z\<rparr>"
    and keep: "\<And>d. m_id (h d) = m_id (?h d) \<and> m_name (h d) = m_name (?h d)"
    and num: "\<And>i. i < vcount s0 \<Longrightarrow> m_x11DesktopNumber (h (m_desktops s0 ! i)) =
       (if i \<in> set js then int i + 1 else desktopNumber ?s (m_desktops s0 ! i))"
    using Cons.IH[of ?s] Cons.prems by auto
  have inj: "m_desktops s0 ! i = ?d \<longleftrightarrow> i = j" if "i < vcount s0" for i
    using assms(1) that j by (simp add: vcount_def nth_eq_iff_index_eq)
  have "m_x11DesktopNumber (h (m_desktops s0 ! i)) =
       (if i \<in> set (j # js) then int i + 1 else desktopNumber s (m_desktops s0 ! i))" if "i < vcount s0" for i
    using num[OF that] inj[OF that] by (auto simp: desktopNumber_def)
  moreover have "fold (renumberOne s0) (j # js) s = s\<lparr>heap := h, signals := z\<rparr>" using one f by simp
  moreover have "m_id (h d) = m_id (heap s d) \<and> m_name (h d) = m_name (heap s d)" for d using keep[of d] by simp
  ultimately show ?case by blast
qed

lemma renumberFrom_frame:
  assumes "distinct (m_desktops s)" "vcount s \<le> 20" "numbersSmall s"
  shows "\<exists>h x. renumberFrom j s = s\<lparr>heap := h, signals := x\<rparr> \<and>
    (\<forall>d. m_id (h d) = m_id (heap s d) \<and> m_name (h d) = m_name (heap s d)) \<and>
    (\<forall>i < vcount s. m_x11DesktopNumber (h (m_desktops s ! i)) =
       (if j \<le> i then int i + 1 else desktopNumber s (m_desktops s ! i)))"
proof -
  have "set [j ..< vcount s] \<subseteq> {..< vcount s}" by auto
  from renumber_fold[OF assms(1) this assms(2) refl assms(3)]
  obtain h x where e: "renumberFrom j s = s\<lparr>heap := h, signals := x\<rparr>"
    and keep: "\<forall>d. m_id (h d) = m_id (heap s d) \<and> m_name (h d) = m_name (heap s d)"
    and num: "\<forall>i < vcount s. m_x11DesktopNumber (h (m_desktops s ! i)) =
       (if i \<in> set [j ..< vcount s] then int i + 1 else desktopNumber s (m_desktops s ! i))"
    unfolding renumberFrom_def by blast
  have "\<forall>i < vcount s. m_x11DesktopNumber (h (m_desktops s ! i)) =
       (if j \<le> i then int i + 1 else desktopNumber s (m_desktops s ! i))"
    using num by auto
  with e keep show ?thesis by blast
qed

section \<open>Preservation\<close>

lemma listInv_nth:
  "listInv s \<Longrightarrow> i < vcount s \<Longrightarrow> desktopNumber s (m_desktops s ! i) = int i + 1"
  by (simp add: listInv_def numbered_def)

lemma listInv_small: "listInv s \<Longrightarrow> numbersSmall s"
  unfolding numbersSmall_def
proof
  fix d assume inv: "listInv s" and "d \<in> set (m_desktops s)"
  then obtain i where i: "i < vcount s" "d = m_desktops s ! i" by (auto simp: in_set_conv_nth vcount_def)
  then show "0 \<le> desktopNumber s d \<and> desktopNumber s d \<le> 21"
    using listInv_nth[OF inv i(1)] inv by (auto simp: listInv_def maximum_def)
qed

text \<open>The invariant does not depend on the configuration, the signals and the gesture.\<close>

lemma listInv_irrelevant [simp]:
  "listInv (s\<lparr>signals := x\<rparr>) = listInv s" "listInv (s\<lparr>m_config := c\<rparr>) = listInv s"
  "listInv (s\<lparr>m_grid := g\<rparr>) = listInv s" "listInv (s\<lparr>m_currentDesktopOffset := p\<rparr>) = listInv s"
  "listInv (s\<lparr>s_loadingDesktopSettings := b\<rparr>) = listInv s"
  "listInv (s\<lparr>m_navigationWrapsAround := b\<rparr>) = listInv s"
  by (simp_all add: listInv_def numbered_def vcount_def desktopNumber_def)

lemma listInv_rows: "listInv s \<Longrightarrow> 1 \<le> r \<Longrightarrow> listInv (s\<lparr>m_rows := r\<rparr>)"
  by (simp add: listInv_def numbered_def vcount_def desktopNumber_def)

lemma vdm_inv_irrelevant [simp]:
  "vdm_inv (s\<lparr>signals := x\<rparr>) = vdm_inv s" "vdm_inv (s\<lparr>m_config := c\<rparr>) = vdm_inv s"
  "vdm_inv (s\<lparr>m_currentDesktopOffset := p\<rparr>) = vdm_inv s"
  "vdm_inv (s\<lparr>s_loadingDesktopSettings := b\<rparr>) = vdm_inv s"
  "vdm_inv (s\<lparr>m_navigationWrapsAround := b\<rparr>) = vdm_inv s"
  by (simp_all add: vdm_inv_def vcount_def)

lemma vdm_inv_emit [simp]: "vdm_inv (emit e s) = vdm_inv s"
  by (simp add: emit_def)

lemma vdm_inv_rootCall [simp]: "vdm_inv (rootCall e s) = vdm_inv s"
  by (simp add: rootCall_def)

lemma listInv_emit [simp]: "listInv (emit e s) = listInv s"
  by (simp add: emit_def)

lemma vdm_inv_save [simp]: "vdm_inv (save V s) = vdm_inv s"
proof -
  obtain c x where "save V s = s\<lparr>m_config := c, signals := x\<rparr>" using save_frame by blast
  then show ?thesis by (simp only: vdm_inv_irrelevant)
qed

lemma updateLayout_inv:
  assumes "listInv s" "1 \<le> vcount s"
  shows "\<exists>r g e. updateLayout s = Some (s\<lparr>m_rows := r, m_grid := g, signals := e\<rparr>) \<and>
    vdm_inv (s\<lparr>m_rows := r, m_grid := g, signals := e\<rparr>)"
proof -
  obtain r g e where u: "updateLayout s = Some (s\<lparr>m_rows := r, m_grid := g, signals := e\<rparr>)" "1 \<le> r"
    and g: "gridOK g (m_desktops s)"
    using updateLayout_defined[OF assms] by blast
  have "vdm_inv (s\<lparr>m_rows := r, m_grid := g, signals := e\<rparr>)"
    using listInv_rows[OF assms(1) u(2)] assms(2) g by (simp add: vdm_inv_def vcount_def)
  with u(1) show ?thesis by blast
qed

lemma updateRootInfo_inv:
  assumes "listInv s" "1 \<le> vcount s"
  shows "\<exists>r g e. updateRootInfo s = Some (s\<lparr>m_rows := r, m_grid := g, signals := e\<rparr>) \<and>
    vdm_inv (s\<lparr>m_rows := r, m_grid := g, signals := e\<rparr>)"
proof (cases "m_rootInfo s = None")
  case True
  then show ?thesis using updateLayout_inv[OF assms] by (simp add: updateRootInfo_def)
next
  case False
  define s' where "s' = emit (RootSetDesktopViewport (int (vcount s))) (emit (RootSetNumberOfDesktops (int (vcount s))) s)"
  then have s': "s' = s\<lparr>signals := signals s'\<rparr>" by (simp add: emit_def)
  have "listInv s'" "1 \<le> vcount s'" using assms by (auto simp: s'_def emit_def vcount_def)
  from updateLayout_inv[OF this] obtain r g e where
    "updateLayout s' = Some (s'\<lparr>m_rows := r, m_grid := g, signals := e\<rparr>)"
    "vdm_inv (s'\<lparr>m_rows := r, m_grid := g, signals := e\<rparr>)" by blast
  moreover have "s'\<lparr>m_rows := r, m_grid := g, signals := e\<rparr> = s\<lparr>m_rows := r, m_grid := g, signals := e\<rparr>"
    by (subst s') simp
  moreover have "updateRootInfo s = updateLayout s'" using False by (auto simp: updateRootInfo_def s'_def)
  ultimately show ?thesis by auto
qed

lemma setRows_inv:
  assumes "saneEnv V" "vdm_inv s"
  shows "\<exists>s'. setRows V r s = Some s' \<and> vdm_inv s' \<and> m_desktops s' = m_desktops s \<and> m_current s' = m_current s"
proof (cases "r = 0 \<or> r > vcount s \<or> r = m_rows s")
  case True
  then show ?thesis using assms by (auto simp: setRows_def)
next
  case False
  have n: "1 \<le> vcount s" "vcount s \<le> 20" using assms(2) by (auto simp: vdm_inv_def listInv_def maximum_def)
  define c where "c = int (vcount s div r) + (if vcount s mod r > 0 then 1 else 0)"
  define s1 where "s1 = (if m_rootInfo s = None then s\<lparr>m_rows := r\<rparr> else emit RootActivate (rootSetLayout V c (s\<lparr>m_rows := r\<rparr>)))"
  have c: "0 \<le> c" "c \<le> 20"
  proof -
    show "0 \<le> c" by (simp add: c_def)
    have "vcount s div r + (if vcount s mod r > 0 then 1 else 0) \<le> vcount s"
    proof (cases "r = 1")
      case False
      with \<open>\<not> (r = 0 \<or> _ \<or> _)\<close> have "2 \<le> r" by auto
      then have "2 * (vcount s div r) \<le> r * (vcount s div r)" by simp
      also have "\<dots> + vcount s mod r = vcount s" by simp
      finally have "2 * (vcount s div r) + vcount s mod r \<le> vcount s" by simp
      moreover have "1 \<le> vcount s div r" using False \<open>\<not> (r = 0 \<or> _ \<or> _)\<close> by (simp add: Suc_leI div_greater_zero_iff)
      ultimately show ?thesis by auto
    qed simp
    then show "c \<le> 20" using n by (auto simp: c_def split: if_splits)
  qed
  have s1: "listInv s1 \<and> m_desktops s1 = m_desktops s \<and> m_current s1 = m_current s"
    using assms False c n
    by (auto simp: s1_def rootSetLayout_def emit_def vdm_inv_def listInv_def numbered_def vcount_def
        desktopNumber_def saneEnv_def split: option.splits)
  then have "1 \<le> vcount s1" using n by (simp add: vcount_def)
  then obtain x y z where "updateLayout s1 = Some (s1\<lparr>m_rows := x, m_grid := y, signals := z\<rparr>)"
    "vdm_inv (s1\<lparr>m_rows := x, m_grid := y, signals := z\<rparr>)"
    using updateLayout_inv s1 by blast
  moreover have "setRows V r s = updateLayout s1"
    using False unfolding setRows_def columnsFor_def s1_def c_def by (simp add: vcount_def Let_def)
  ultimately show ?thesis using s1 by (intro exI[of _ "s1\<lparr>m_rows := x, m_grid := y, signals := z\<rparr>"]) simp
qed

end
