(* ===== verification/Desktop_Operations.thy ===== *)
theory Desktop_Operations
  imports Desktop_Invariant
begin

text \<open>
  Creating, removing, counting and loading desktops: the operations return a well-formed state
  and do to the list of desktops what their names say.
\<close>

section \<open>Creation\<close>

lemma setName_frame:
  "\<exists>x. setName d n s = s\<lparr>heap := (heap s)(d := (heap s d)\<lparr>m_name := n\<rparr>), signals := x\<rparr>"
proof (cases "m_name (heap s d) = n")
  case True
  then have "(heap s)(d := (heap s d)\<lparr>m_name := n\<rparr>) = heap s" by auto
  then have "setName d n s = s\<lparr>heap := (heap s)(d := (heap s d)\<lparr>m_name := n\<rparr>), signals := signals s\<rparr>"
    using True by (simp add: setName_def)
  then show ?thesis by blast
next
  case False
  then show ?thesis by (intro exI[of _ "signals (setName d n s)"]) (simp add: setName_def emit_def)
qed

lemma rootCall_eq: "rootCall e s = s\<lparr>signals := signals (rootCall e s)\<rparr>"
  by (simp add: rootCall_def emit_def)

text \<open>The steps of \<open>createVirtualDesktop\<close> up to the insertion of the new desktop.\<close>

lemma create_prefix:
  assumes "position \<le> 20"
  shows "\<exists>x. (let (d, s) = newDesktop s;
        s = setX11DesktopNumber d (Suc position) s
     in do { s \<leftarrow> setId d (generateDesktopId V d) s;
          let s = setName d nm s;
          let s = rootCall (RootSetDesktopName (m_x11DesktopNumber (heap s d)) (m_name (heap s d))) s;
          Some (d, s) })
   = Some (nextPtr s, s\<lparr>heap := (heap s)(nextPtr s :=
         \<lparr>m_id = generateDesktopId V (nextPtr s), m_name = nm, m_x11DesktopNumber = int position + 1\<rparr>),
       nextPtr := Suc (nextPtr s), signals := x\<rparr>)"
proof -
  let ?d = "nextPtr s"
  define s1 where "s1 = s\<lparr>nextPtr := Suc ?d, heap := (heap s)(?d := \<lparr>m_id = [], m_name = [], m_x11DesktopNumber = 0\<rparr>)\<rparr>"
  define s2 where "s2 = setX11DesktopNumber ?d (Suc position) s1"
  obtain x1 where x1: "s2 =
      s1\<lparr>heap := (heap s1)(?d := (heap s1 ?d)\<lparr>m_x11DesktopNumber := int (Suc position)\<rparr>), signals := x1\<rparr>"
    using setX11DesktopNumber_small[of s1 ?d "Suc position"] assms by (auto simp: s1_def s2_def)
  define s3 where "s3 = s2\<lparr>heap := (heap s2)(?d := (heap s2 ?d)\<lparr>m_id := generateDesktopId V ?d\<rparr>)\<rparr>"
  have s3: "setId ?d (generateDesktopId V ?d) s2 = Some s3"
    by (simp add: setId_def s3_def x1 s1_def)
  define s4 where "s4 = setName ?d nm s3"
  obtain x2 where x2: "s4 = s3\<lparr>heap := (heap s3)(?d := (heap s3 ?d)\<lparr>m_name := nm\<rparr>), signals := x2\<rparr>"
    unfolding s4_def using setName_frame by blast
  define s5 where "s5 = rootCall (RootSetDesktopName (m_x11DesktopNumber (heap s4 ?d)) (m_name (heap s4 ?d))) s4"
  have "s5 = s4\<lparr>signals := signals s5\<rparr>" unfolding s5_def by (rule rootCall_eq)
  also have "\<dots> = s\<lparr>heap := (heap s)(?d :=
      \<lparr>m_id = generateDesktopId V ?d, m_name = nm, m_x11DesktopNumber = int position + 1\<rparr>),
      nextPtr := Suc ?d, signals := signals s5\<rparr>"
    by (rule vdm.equality) (auto simp: x2 s3_def x1 s1_def)
  finally have s5: "s5 = s\<lparr>heap := (heap s)(?d :=
      \<lparr>m_id = generateDesktopId V ?d, m_name = nm, m_x11DesktopNumber = int position + 1\<rparr>),
      nextPtr := Suc ?d, signals := signals s5\<rparr>" .
  have "(let (d, s) = newDesktop s;
        s = setX11DesktopNumber d (Suc position) s
     in do { s \<leftarrow> setId d (generateDesktopId V d) s;
          let s = setName d nm s;
          let s = rootCall (RootSetDesktopName (m_x11DesktopNumber (heap s d)) (m_name (heap s d))) s;
          Some (d, s) }) = Some (?d, s5)"
    by (simp add: newDesktop_def s1_def[symmetric] s2_def[symmetric] s3 s4_def[symmetric] s5_def Let_def)
  also note s5
  finally show ?thesis by blast
qed

lemma listInv_insert:
  assumes "listInv s" "vcount s < maximum" "p \<le> vcount s" "d = nextPtr s"
    "\<forall>i < Suc (vcount s). m_x11DesktopNumber (h (list_insert p d (m_desktops s) ! i)) = int i + 1"
  shows "listInv (s\<lparr>heap := h, nextPtr := Suc (nextPtr s), m_desktops := list_insert p d (m_desktops s)\<rparr>)"
  using assms
  by (auto simp: listInv_def numbered_def vcount_def desktopNumber_def list_ops less_Suc_eq)

lemma nth_list_insert:
  "p \<le> length xs \<Longrightarrow> i \<le> length xs \<Longrightarrow>
   list_insert p x xs ! i = (if i < p then xs ! i else if i = p then x else xs ! (i - 1))"
proof -
  assume p: "p \<le> length xs" "i \<le> length xs"
  consider "i < p" | "i = p" | k where "i = Suc (p + k)"
    by (metis less_iff_Suc_add linorder_neqE_nat)
  then show ?thesis using p by cases (simp_all add: list_insert_def nth_append min_def)
qed

lemma create_spec:
  assumes "vdm_inv s" "vcount s < maximum"
  shows "\<exists>s'. createVirtualDesktop V position name s = Some (Some (nextPtr s), s') \<and> vdm_inv s' \<and>
    m_desktops s' = list_insert (min position (vcount s)) (nextPtr s) (m_desktops s) \<and>
    m_current s' = m_current s \<and>
    m_name (heap s' (nextPtr s)) = (if name = [] then defaultName V (int (min position (vcount s)) + 1) else name) \<and>
    (\<forall>d \<in> set (m_desktops s). m_id (heap s' d) = m_id (heap s d) \<and> m_name (heap s' d) = m_name (heap s d))"
proof -
  define p where "p = min position (vcount s)"
  let ?d = "nextPtr s"
  define nm where "nm = (if name = [] then defaultName V (int p + 1) else name)"
  let ?ds = "list_insert p ?d (m_desktops s)"
  let ?h = "(heap s)(?d := \<lparr>m_id = generateDesktopId V ?d, m_name = nm, m_x11DesktopNumber = int p + 1\<rparr>)"
  have inv: "listInv s" "1 \<le> vcount s" using assms(1) by (simp_all add: vdm_inv_def)
  have p: "p \<le> 20" "p \<le> vcount s" using assms(2) by (auto simp: maximum_def p_def)
  have fresh: "?d \<notin> set (m_desktops s)" "distinct (m_desktops s)" using inv(1) by (auto simp: listInv_def)
  obtain x where pre: "(let (d, s) = newDesktop s; s = setX11DesktopNumber d (Suc p) s
     in do { s \<leftarrow> setId d (generateDesktopId V d) s;
          let s = setName d nm s;
          let s = rootCall (RootSetDesktopName (m_x11DesktopNumber (heap s d)) (m_name (heap s d))) s;
          Some (d, s) }) = Some (?d, s\<lparr>heap := ?h, nextPtr := Suc ?d, signals := x\<rparr>)"
    using create_prefix[OF p(1)] by blast
  define s1 where "s1 = s\<lparr>heap := ?h, nextPtr := Suc ?d, signals := x, m_desktops := ?ds\<rparr>"
  have ds1: "m_desktops s1 = ?ds" "vcount s1 = Suc (vcount s)"
    by (simp_all add: s1_def vcount_def list_ops)
  have num: "desktopNumber s1 (?ds ! i) = (if i < p then int i + 1 else if i = p then int p + 1 else int i)"
    if i: "i \<le> vcount s" for i
  proof -
    have "?ds ! i = (if i < p then m_desktops s ! i else if i = p then ?d else m_desktops s ! (i - 1))"
      using nth_list_insert[of p "m_desktops s" i ?d] i p(2) by (simp add: vcount_def)
    moreover have old: "desktopNumber s1 (m_desktops s ! j) = int j + 1" if "j < vcount s" for j
    proof -
      have "m_desktops s ! j \<noteq> ?d" using fresh(1) that by (metis nth_mem vcount_def)
      then show ?thesis using listInv_nth[OF inv(1) that] by (simp add: s1_def desktopNumber_def)
    qed
    moreover have "desktopNumber s1 ?d = int p + 1" by (simp add: s1_def desktopNumber_def)
    ultimately show ?thesis using i p(2) old[of "i - 1"] by (cases "i < p"; cases "i = p") auto
  qed
  have "distinct (m_desktops s1)" "vcount s1 \<le> 20"
    using fresh assms(2) ds1 by (simp_all add: list_ops maximum_def)
  moreover have "numbersSmall s1" unfolding numbersSmall_def
  proof
    fix d assume "d \<in> set (m_desktops s1)"
    then obtain i where "i < Suc (vcount s)" "d = ?ds ! i"
      using ds1 by (metis in_set_conv_nth vcount_def)
    then show "0 \<le> desktopNumber s1 d \<and> desktopNumber s1 d \<le> 21"
      using num[of i] assms(2) by (auto simp: maximum_def)
  qed
  ultimately obtain h y where r: "renumberFrom (p + 1) s1 = s1\<lparr>heap := h, signals := y\<rparr>"
    and keep: "\<forall>d. m_id (h d) = m_id (heap s1 d) \<and> m_name (h d) = m_name (heap s1 d)"
    and hnum: "\<forall>i < vcount s1. m_x11DesktopNumber (h (m_desktops s1 ! i)) =
       (if p + 1 \<le> i then int i + 1 else desktopNumber s1 (m_desktops s1 ! i))"
    using renumberFrom_frame[of s1 "p + 1"] by blast
  define s2 where "s2 = s1\<lparr>heap := h, signals := y\<rparr>"
  have "\<forall>i < Suc (vcount s). m_x11DesktopNumber (h (?ds ! i)) = int i + 1"
    using hnum num ds1 by (auto simp: less_Suc_eq_le)
  from listInv_insert[OF inv(1) assms(2) p(2) refl this]
  have "listInv s2" unfolding s2_def s1_def by (simp add: listInv_def numbered_def vcount_def desktopNumber_def)
  obtain c z where sv: "save V s2 = s2\<lparr>m_config := c, signals := z\<rparr>" using save_frame by blast
  define s3 where "s3 = s2\<lparr>m_config := c, signals := z\<rparr>"
  have "listInv s3" "1 \<le> vcount s3"
    using \<open>listInv s2\<close> by (simp_all add: s3_def s2_def vcount_def s1_def list_ops)
  then obtain rr g e where u: "updateRootInfo s3 = Some (s3\<lparr>m_rows := rr, m_grid := g, signals := e\<rparr>)"
    and inv': "vdm_inv (s3\<lparr>m_rows := rr, m_grid := g, signals := e\<rparr>)"
    using updateRootInfo_inv by blast
  define s4 where "s4 = s3\<lparr>m_rows := rr, m_grid := g, signals := e\<rparr>"
  define s5 where "s5 = emit (CountChanged (vcount s4 - 1) (vcount s4)) (emit (DesktopCreated ?d) s4)"
  have "createVirtualDesktop V position name s =
      do { (d, s) \<leftarrow> (let (d, s) = newDesktop s; s = setX11DesktopNumber d (Suc p) s
           in do { s \<leftarrow> setId d (generateDesktopId V d) s;
             let s = setName d nm s;
             let s = rootCall (RootSetDesktopName (m_x11DesktopNumber (heap s d)) (m_name (heap s d))) s;
             Some (d, s) });
           let s = s\<lparr>m_desktops := list_insert p d (m_desktops s)\<rparr>;
           let s = renumberFrom (p + 1) s;
           let s = save V s;
           s \<leftarrow> updateRootInfo s;
           Some (Some d, emit (CountChanged (vcount s - 1) (vcount s)) (emit (DesktopCreated d) s)) }"
    using assms(2) by (simp add: createVirtualDesktop_def Let_def split_def p_def nm_def)
  also have "\<dots> = Some (Some ?d, s5)"
    unfolding pre using r sv u
    by (simp add: s1_def[symmetric] s2_def[symmetric] s3_def[symmetric] s4_def[symmetric] s5_def Let_def)
  finally have eq: "createVirtualDesktop V position name s = Some (Some ?d, s5)" .
  have "vdm_inv s5" using inv' by (simp add: s5_def s4_def)
  moreover have "m_desktops s5 = ?ds" "m_current s5 = m_current s" "heap s5 = h"
    by (simp_all add: s5_def s4_def s3_def s2_def s1_def emit_def)
  moreover have "m_id (h d) = m_id (heap s d) \<and> m_name (h d) = m_name (heap s d)" if "d \<in> set (m_desktops s)" for d
    using keep fresh(1) that by (auto simp: s1_def)
  moreover have "m_name (h ?d) = (if name = [] then defaultName V (int p + 1) else name)"
    using keep by (simp add: s1_def nm_def)
  ultimately show ?thesis using eq unfolding p_def by blast
qed

section \<open>Removal\<close>

lemma take_drop_remove:
  "distinct xs \<Longrightarrow> i < length xs \<Longrightarrow> take i xs @ drop (Suc i) xs = removeAll (xs ! i) xs"
proof (induction xs arbitrary: i)
  case (Cons x xs)
  then show ?case by (cases i) auto
qed simp

lemma nth_removed:
  "i < length xs \<Longrightarrow> j < length xs - 1 \<Longrightarrow>
   (take i xs @ drop (Suc i) xs) ! j = (if j < i then xs ! j else xs ! Suc j)"
  by (auto simp: nth_append min_def)

lemma removeVirtualDesktop_eq:
  assumes "vcount s \<noteq> 1" "m_current s = Some c" "int_to_uint (m_x11DesktopNumber (heap s c)) = oldCurrent"
    "int_to_uint (m_x11DesktopNumber (heap s d) - 1) = i" "i < vcount s"
  shows "removeVirtualDesktop V d s = do {
       let s = renumberFrom i (s\<lparr>m_desktops := take i (m_desktops s) @ drop (Suc i) (m_desktops s)\<rparr>);
       let newCurrent = min oldCurrent (vcount s);
       c \<leftarrow> atIdx (m_desktops s) (int newCurrent - 1);
       let s = s\<lparr>m_current := Some c\<rparr>;
       let s = (if oldCurrent \<noteq> newCurrent then emit (CurrentChanged oldCurrent newCurrent) s else s);
       s \<leftarrow> updateRootInfo s;
       let s = save V s;
       Some (emit (CountChanged (vcount s + 1) (vcount s)) (emit (DesktopRemoved d) s)) }"
  using assms by (simp add: removeVirtualDesktop_def Let_def cong: if_cong)

lemma remove_spec:
  assumes "vdm_inv s" "d \<in> set (m_desktops s)" "vcount s \<noteq> 1" "m_current s = Some c"
  shows "\<exists>s'. removeVirtualDesktop V d s = Some s' \<and> vdm_inv s' \<and>
    m_desktops s' = removeAll d (m_desktops s) \<and>
    m_current s' = Some (m_desktops s' ! (min (nat (desktopNumber s c)) (vcount s') - 1)) \<and>
    (\<forall>e. m_id (heap s' e) = m_id (heap s e) \<and> m_name (heap s' e) = m_name (heap s e))"
proof -
  have inv: "listInv s" "1 \<le> vcount s" using assms(1) by (simp_all add: vdm_inv_def)
  have cnt: "vcount s \<le> 20" "2 \<le> vcount s" using inv assms(3) by (auto simp: listInv_def maximum_def)
  have dist: "distinct (m_desktops s)" using inv(1) by (simp add: listInv_def)
  obtain i where i: "i < vcount s" "d = m_desktops s ! i"
    using assms(2) by (auto simp: in_set_conv_nth vcount_def)
  have "c \<in> set (m_desktops s)" using inv(1) assms(4) by (simp add: listInv_def)
  then obtain k where k: "k < vcount s" "c = m_desktops s ! k"
    by (auto simp: in_set_conv_nth vcount_def)
  have dn: "desktopNumber s d = int i + 1" "desktopNumber s c = int k + 1"
    using listInv_nth[OF inv(1)] i k by simp_all
  let ?ds = "take i (m_desktops s) @ drop (Suc i) (m_desktops s)"
  define s1 where "s1 = s\<lparr>m_desktops := ?ds\<rparr>"
  have cnt1: "vcount s1 = vcount s - 1" using i by (simp add: s1_def vcount_def)
  have ds: "?ds = removeAll d (m_desktops s)"
    using take_drop_remove[OF dist] i by (simp add: vcount_def)
  have num1: "desktopNumber s1 (?ds ! j) = (if j < i then int j + 1 else int j + 2)" if "j < vcount s1" for j
    using nth_removed[of i "m_desktops s" j] that i listInv_nth[OF inv(1), of j] listInv_nth[OF inv(1), of "Suc j"]
    by (simp add: s1_def desktopNumber_def vcount_def)
  have "distinct (m_desktops s1)" using dist by (simp add: s1_def ds distinct_removeAll)
  moreover have "vcount s1 \<le> 20" using cnt cnt1 by simp
  moreover have "numbersSmall s1" unfolding numbersSmall_def
  proof
    fix e assume "e \<in> set (m_desktops s1)"
    then have "e \<in> set (m_desktops s)" by (simp add: s1_def ds)
    then show "0 \<le> desktopNumber s1 e \<and> desktopNumber s1 e \<le> 21"
      using listInv_small[OF inv(1)] by (simp add: numbersSmall_def s1_def desktopNumber_def)
  qed
  ultimately obtain h x where r: "renumberFrom i s1 = s1\<lparr>heap := h, signals := x\<rparr>"
    and keep: "\<forall>d. m_id (h d) = m_id (heap s1 d) \<and> m_name (h d) = m_name (heap s1 d)"
    and hnum: "\<forall>j < vcount s1. m_x11DesktopNumber (h (m_desktops s1 ! j)) =
       (if i \<le> j then int j + 1 else desktopNumber s1 (m_desktops s1 ! j))"
    using renumberFrom_frame[of s1 i] by blast
  define nc where "nc = min (Suc k) (vcount s1)"
  have nc: "1 \<le> nc" "nc \<le> vcount s1" using cnt cnt1 by (auto simp: nc_def)
  define s2 where "s2 = s1\<lparr>heap := h, signals := x, m_current := Some (?ds ! (nc - 1))\<rparr>"
  have at: "atIdx ?ds (int nc - 1) = Some (?ds ! (nc - 1))"
    using nc cnt1 i by (simp add: atIdx_def nat_diff_distrib s1_def vcount_def)
  have num2: "m_x11DesktopNumber (h (?ds ! j)) = int j + 1" if "j < vcount s1" for j
    using hnum num1[OF that] that by (simp add: s1_def)
  have "?ds ! (nc - 1) \<in> set ?ds" using nc by (intro nth_mem) (simp add: s1_def vcount_def)
  then have "listInv s2"
    using inv(1) num2 cnt1 cnt dist ds
    by (auto simp: listInv_def s2_def s1_def numbered_def vcount_def desktopNumber_def maximum_def distinct_removeAll)
  define s3 where "s3 = (if Suc k \<noteq> nc then emit (CurrentChanged (Suc k) nc) s2 else s2)"
  have "listInv s3" using \<open>listInv s2\<close> by (simp add: s3_def)
  moreover have s3: "m_desktops s3 = ?ds" "m_current s3 = Some (?ds ! (nc - 1))" "heap s3 = h"
    by (simp_all add: s3_def s2_def s1_def emit_def)
  moreover have "1 \<le> vcount s3" using nc s3(1) by (simp add: vcount_def s1_def)
  ultimately obtain rr g e where u: "updateRootInfo s3 = Some (s3\<lparr>m_rows := rr, m_grid := g, signals := e\<rparr>)"
    and inv': "vdm_inv (s3\<lparr>m_rows := rr, m_grid := g, signals := e\<rparr>)"
    using updateRootInfo_inv by blast
  define s4 where "s4 = s3\<lparr>m_rows := rr, m_grid := g, signals := e\<rparr>"
  obtain cc z where sv: "save V s4 = s4\<lparr>m_config := cc, signals := z\<rparr>" using save_frame by blast
  define s5 where "s5 = s4\<lparr>m_config := cc, signals := z\<rparr>"
  define s6 where "s6 = emit (CountChanged (vcount s5 + 1) (vcount s5)) (emit (DesktopRemoved d) s5)"
  have num_c: "int_to_uint (m_x11DesktopNumber (heap s c)) = Suc k"
    using dn(2) k cnt by (simp add: desktopNumber_def int_to_uint_def)
  have num_d: "int_to_uint (m_x11DesktopNumber (heap s d) - 1) = i"
    using dn(1) i cnt by (simp add: desktopNumber_def int_to_uint_def)
  define s1r where "s1r = s1\<lparr>heap := h, signals := x\<rparr>"
  have s1r: "min (Suc k) (vcount s1r) = nc" "m_desktops s1r = ?ds"
    "s1r\<lparr>m_current := Some (?ds ! (nc - 1))\<rparr> = s2"
    by (simp_all add: nc_def s1r_def s2_def vcount_def s1_def)
  have "removeVirtualDesktop V d s = do {
       let s = renumberFrom i s1;
       let newCurrent = min (Suc k) (vcount s);
       c \<leftarrow> atIdx (m_desktops s) (int newCurrent - 1);
       let s = s\<lparr>m_current := Some c\<rparr>;
       let s = (if Suc k \<noteq> newCurrent then emit (CurrentChanged (Suc k) newCurrent) s else s);
       s \<leftarrow> updateRootInfo s;
       let s = save V s;
       Some (emit (CountChanged (vcount s + 1) (vcount s)) (emit (DesktopRemoved d) s)) }"
    unfolding s1_def by (rule removeVirtualDesktop_eq[OF assms(3,4) num_c num_d i(1)])
  also have "\<dots> = Some s6"
    unfolding r s1r_def[symmetric] Let_def s1r(1,2) at
    by (simp only: bind_eq_Some_conv Option.bind.simps s1r(3) s3_def[symmetric] u s4_def[symmetric] sv s5_def[symmetric] s6_def)
  finally have "removeVirtualDesktop V d s = Some s6" .
  moreover have "vdm_inv s6" using inv' by (simp add: s6_def s5_def s4_def)
  moreover have "m_desktops s6 = removeAll d (m_desktops s)" "m_current s6 = Some (?ds ! (nc - 1))"
    "heap s6 = h" using s3 by (simp_all add: s6_def s5_def s4_def emit_def ds)
  moreover have "nc = min (nat (desktopNumber s c)) (vcount s6)"
    using s3 by (simp add: nc_def dn nat_add_distrib s6_def s5_def s4_def emit_def vcount_def s1_def)
  moreover have "m_id (h e) = m_id (heap s e) \<and> m_name (h e) = m_name (heap s e)" for e
    using keep by (simp add: s1_def)
  ultimately show ?thesis using ds by metis
qed

section \<open>The number of desktops\<close>

lemma appendDesktop_frame:
  assumes "vcount s < 20"
  shows "\<exists>x. appendDesktop V s = Some (s\<lparr>heap := (heap s)(nextPtr s :=
        \<lparr>m_id = (if s_loadingDesktopSettings s then [] else generateDesktopId V (nextPtr s)),
          m_name = defaultName V (int (vcount s) + 1), m_x11DesktopNumber = int (vcount s) + 1\<rparr>),
      nextPtr := Suc (nextPtr s), m_desktops := m_desktops s @ [nextPtr s], signals := x\<rparr>)"
proof -
  let ?d = "nextPtr s"
  define s1 where "s1 = s\<lparr>nextPtr := Suc ?d, heap := (heap s)(?d := \<lparr>m_id = [], m_name = [], m_x11DesktopNumber = 0\<rparr>)\<rparr>"
  define s2 where "s2 = setX11DesktopNumber ?d (Suc (vcount s)) s1"
  obtain x1 where x1: "s2 =
      s1\<lparr>heap := (heap s1)(?d := (heap s1 ?d)\<lparr>m_x11DesktopNumber := int (Suc (vcount s))\<rparr>), signals := x1\<rparr>"
    using setX11DesktopNumber_small[of s1 ?d "Suc (vcount s)"] assms by (auto simp: s1_def s2_def)
  define s3 where "s3 = setName ?d (defaultName V (int (vcount s) + 1)) s2"
  obtain x2 where x2: "s3 = s2\<lparr>heap := (heap s2)(?d := (heap s2 ?d)\<lparr>m_name := defaultName V (int (vcount s) + 1)\<rparr>), signals := x2\<rparr>"
    unfolding s3_def using setName_frame by blast
  define s4 where "s4 = (if s_loadingDesktopSettings s3 then s3
     else s3\<lparr>heap := (heap s3)(?d := (heap s3 ?d)\<lparr>m_id := generateDesktopId V ?d\<rparr>)\<rparr>)"
  have s4: "(if s_loadingDesktopSettings s3 then Some s3 else setId ?d (generateDesktopId V ?d) s3) = Some s4"
    by (simp add: setId_def s4_def x2 x1 s1_def)
  define s5 where "s5 = s4\<lparr>m_desktops := m_desktops s4 @ [?d]\<rparr>"
  define s6 where "s6 = rootCall (RootSetDesktopName (m_x11DesktopNumber (heap s5 ?d)) (m_name (heap s5 ?d))) s5"
  have "s6 = s5\<lparr>signals := signals s6\<rparr>" unfolding s6_def by (rule rootCall_eq)
  also have "\<dots> = s\<lparr>heap := (heap s)(nextPtr s :=
        \<lparr>m_id = (if s_loadingDesktopSettings s then [] else generateDesktopId V (nextPtr s)),
          m_name = defaultName V (int (vcount s) + 1), m_x11DesktopNumber = int (vcount s) + 1\<rparr>),
      nextPtr := Suc (nextPtr s), m_desktops := m_desktops s @ [nextPtr s], signals := signals s6\<rparr>"
    by (rule vdm.equality) (auto simp: s5_def s4_def x2 x1 s1_def)
  finally have e: "s6 = s\<lparr>heap := (heap s)(nextPtr s :=
        \<lparr>m_id = (if s_loadingDesktopSettings s then [] else generateDesktopId V (nextPtr s)),
          m_name = defaultName V (int (vcount s) + 1), m_x11DesktopNumber = int (vcount s) + 1\<rparr>),
      nextPtr := Suc (nextPtr s), m_desktops := m_desktops s @ [nextPtr s], signals := signals s6\<rparr>" .
  have "appendDesktop V s = do {
     s \<leftarrow> (if s_loadingDesktopSettings s3 then Some s3 else setId ?d (generateDesktopId V ?d) s3);
     let s = s\<lparr>m_desktops := m_desktops s @ [?d]\<rparr>;
     Some (rootCall (RootSetDesktopName (m_x11DesktopNumber (heap s ?d)) (m_name (heap s ?d))) s) }"
    by (simp add: appendDesktop_def newDesktop_def Let_def s1_def[symmetric] s2_def[symmetric] s3_def add.commute
        split del: if_split cong: if_cong)
  also have "\<dots> = Some s6" unfolding s4 by (simp add: s5_def s6_def Let_def)
  also note e
  finally show ?thesis by blast
qed

text \<open>The desktops that exist already keep their position, name and id.\<close>

definition keepsDesktops :: "vd list \<Rightarrow> vdm \<Rightarrow> vdm \<Rightarrow> bool" where
  "keepsDesktops ds s s' \<longleftrightarrow> (\<forall>d \<in> set ds. m_id (heap s' d) = m_id (heap s d) \<and> m_name (heap s' d) = m_name (heap s d))"

lemma keepsDesktops_refl [simp]: "keepsDesktops ds s s"
  by (simp add: keepsDesktops_def)

lemma keepsDesktops_trans:
  "keepsDesktops ds s s' \<Longrightarrow> keepsDesktops ds' s' s'' \<Longrightarrow> set ds \<subseteq> set ds' \<Longrightarrow> keepsDesktops ds s s''"
  by (auto simp: keepsDesktops_def)

lemma appendDesktop_inv:
  assumes "listInv s" "vcount s < maximum"
  shows "\<exists>s'. appendDesktop V s = Some s' \<and> listInv s' \<and> m_desktops s' = m_desktops s @ [nextPtr s] \<and>
    m_current s' = m_current s \<and> m_rows s' = m_rows s \<and> keepsDesktops (m_desktops s) s s' \<and>
    s_loadingDesktopSettings s' = s_loadingDesktopSettings s \<and> m_config s' = m_config s \<and>
    m_rootInfo s' = m_rootInfo s \<and>
    m_id (heap s' (nextPtr s)) = (if s_loadingDesktopSettings s then [] else generateDesktopId V (nextPtr s)) \<and>
    m_name (heap s' (nextPtr s)) = defaultName V (int (vcount s) + 1)"
proof -
  let ?v = "\<lparr>m_id = (if s_loadingDesktopSettings s then [] else generateDesktopId V (nextPtr s)),
      m_name = defaultName V (int (vcount s) + 1), m_x11DesktopNumber = int (vcount s) + 1\<rparr>"
  obtain x where a: "appendDesktop V s = Some (s\<lparr>heap := (heap s)(nextPtr s := ?v),
      nextPtr := Suc (nextPtr s), m_desktops := m_desktops s @ [nextPtr s], signals := x\<rparr>)"
    using appendDesktop_frame[of s V] assms(2) by (auto simp: maximum_def)
  define s' where "s' = s\<lparr>heap := (heap s)(nextPtr s := ?v),
      nextPtr := Suc (nextPtr s), m_desktops := m_desktops s @ [nextPtr s], signals := x\<rparr>"
  have fresh: "nextPtr s \<notin> set (m_desktops s)" using assms(1) by (auto simp: listInv_def)
  have "desktopNumber s' (m_desktops s' ! i) = int i + 1" if "i < vcount s'" for i
  proof (cases "i < vcount s")
    case True
    then have "m_desktops s ! i \<noteq> nextPtr s" using fresh by (metis nth_mem vcount_def)
    then show ?thesis using True listInv_nth[OF assms(1) True]
      by (simp add: s'_def desktopNumber_def vcount_def nth_append)
  next
    case False
    then have "i = vcount s" using that by (simp add: s'_def vcount_def)
    then show ?thesis by (simp add: s'_def desktopNumber_def vcount_def nth_append)
  qed
  then have "numbered s'" by (simp add: numbered_def)
  then have "listInv s'"
    using assms fresh by (auto simp: listInv_def s'_def vcount_def)
  moreover have "keepsDesktops (m_desktops s) s s'" using fresh by (auto simp: keepsDesktops_def s'_def)
  ultimately show ?thesis using a by (intro exI[of _ s']) (simp add: s'_def)
qed

lemma appendDesktops_inv:
  assumes "listInv s" "vcount s + k \<le> maximum"
  shows "\<exists>s'. appendDesktops V k s = Some s' \<and> listInv s' \<and> vcount s' = vcount s + k \<and>
    take (vcount s) (m_desktops s') = m_desktops s \<and>
    m_current s' = m_current s \<and> m_rows s' = m_rows s \<and> keepsDesktops (m_desktops s) s s' \<and>
    s_loadingDesktopSettings s' = s_loadingDesktopSettings s \<and> m_config s' = m_config s \<and>
    m_rootInfo s' = m_rootInfo s \<and>
    (\<forall>d \<in> set (drop (vcount s) (m_desktops s')). s_loadingDesktopSettings s \<longrightarrow> m_id (heap s' d) = [])"
  using assms
proof (induction k arbitrary: s)
  case 0
  then show ?case by (simp add: vcount_def)
next
  case (Suc k)
  obtain s1 where s1: "appendDesktop V s = Some s1" "listInv s1" "m_desktops s1 = m_desktops s @ [nextPtr s]"
    "m_current s1 = m_current s" "m_rows s1 = m_rows s" "keepsDesktops (m_desktops s) s s1"
    "s_loadingDesktopSettings s1 = s_loadingDesktopSettings s" "m_config s1 = m_config s"
    "m_rootInfo s1 = m_rootInfo s"
    "m_id (heap s1 (nextPtr s)) = (if s_loadingDesktopSettings s then [] else generateDesktopId V (nextPtr s))"
    using appendDesktop_inv[of s V] Suc.prems by auto
  have c1: "vcount s1 = Suc (vcount s)" using s1(3) by (simp add: vcount_def)
  then obtain s2 where s2: "appendDesktops V k s1 = Some s2" "listInv s2" "vcount s2 = vcount s1 + k"
    "take (vcount s1) (m_desktops s2) = m_desktops s1" "m_current s2 = m_current s1" "m_rows s2 = m_rows s1"
    "keepsDesktops (m_desktops s1) s1 s2" "s_loadingDesktopSettings s2 = s_loadingDesktopSettings s1"
    "m_config s2 = m_config s1" "m_rootInfo s2 = m_rootInfo s1"
    "\<forall>d \<in> set (drop (vcount s1) (m_desktops s2)). s_loadingDesktopSettings s1 \<longrightarrow> m_id (heap s2 d) = []"
    using Suc.IH[OF s1(2)] Suc.prems(2) by auto
  have split: "m_desktops s2 = m_desktops s @ nextPtr s # drop (vcount s1) (m_desktops s2)"
    using append_take_drop_id[of "vcount s1" "m_desktops s2"] s2(4) s1(3) by simp
  have "take (vcount s) (m_desktops s2) = m_desktops s" by (subst split) (simp add: vcount_def)
  moreover have dr: "drop (vcount s) (m_desktops s2) = nextPtr s # drop (vcount s1) (m_desktops s2)"
    by (subst split) (simp add: vcount_def)
  moreover have "keepsDesktops (m_desktops s) s s2"
    using keepsDesktops_trans[OF s1(6) s2(7)] s1(3) by auto
  moreover have "m_id (heap s2 (nextPtr s)) = m_id (heap s1 (nextPtr s))"
    using s2(7) s1(3) by (simp add: keepsDesktops_def)
  ultimately show ?case using s1 s2 c1 by (intro exI[of _ s2]) auto
qed

lemma shrink_inv:
  assumes "listInv s" "1 \<le> n" "n < vcount s"
  shows "\<exists>s'. shrinkDesktops n s = Some s' \<and> listInv s' \<and> m_desktops s' = take n (m_desktops s) \<and>
    heap s' = heap s \<and> s_loadingDesktopSettings s' = s_loadingDesktopSettings s \<and>
    (m_current s' = None \<longleftrightarrow> m_current s = None)"
proof -
  let ?ds = "take n (m_desktops s)"
  have cnt: "vcount s \<le> 20" using assms(1) by (simp add: listInv_def maximum_def)
  have keep: "listInv (s\<lparr>m_desktops := ?ds, m_current := cur\<rparr>)" if "set_option cur \<subseteq> set ?ds" for cur
    using assms that by (auto simp: listInv_def numbered_def vcount_def desktopNumber_def maximum_def dest: in_set_takeD)
  have fold: "\<exists>x. fold (\<lambda>d. emit (DesktopRemoved d)) ds r = r\<lparr>signals := x\<rparr>" for ds and r :: vdm
  proof (induction ds arbitrary: r)
    case Nil
    show ?case by (intro exI[of _ "signals r"]) simp
  next
    case (Cons d ds)
    show ?case using Cons[of "emit (DesktopRemoved d) r"] by (auto simp: emit_def)
  qed
  show ?thesis
  proof (cases "m_current s")
    case None
    obtain x where "fold (\<lambda>d. emit (DesktopRemoved d)) (drop n (m_desktops s)) (s\<lparr>m_desktops := ?ds\<rparr>) =
        s\<lparr>m_desktops := ?ds, signals := x\<rparr>" using fold by fastforce
    then have "shrinkDesktops n s = Some (s\<lparr>m_desktops := ?ds, signals := x\<rparr>)"
      using None by (simp add: shrinkDesktops_def Let_def)
    moreover have "listInv (s\<lparr>m_desktops := ?ds, signals := x\<rparr>)"
      using keep[of None] None by (simp add: listInv_def numbered_def vcount_def desktopNumber_def)
    ultimately show ?thesis using None by auto
  next
    case (Some c)
    then have "c \<in> set (m_desktops s)" using assms(1) by (simp add: listInv_def)
    then obtain k where k: "k < vcount s" "c = m_desktops s ! k" by (auto simp: in_set_conv_nth vcount_def)
    have cur: "current (s\<lparr>m_desktops := ?ds\<rparr>) = Suc k"
      using listInv_nth[OF assms(1) k(1)] k Some cnt by (simp add: current_def desktopNumber_def int_to_uint_def)
    define nc where "nc = min (Suc k) n"
    have nc: "1 \<le> nc" "nc \<le> length ?ds" using assms(2,3) by (auto simp: nc_def vcount_def)
    have at: "atIdx ?ds (int nc - 1) = Some (?ds ! (nc - 1))"
      using nc by (simp add: atIdx_def nat_diff_distrib del: length_take)
    define s1 where "s1 = s\<lparr>m_desktops := ?ds, m_current := Some (?ds ! (nc - 1))\<rparr>"
    define s2 where "s2 = (if Suc k \<noteq> nc then emit (CurrentChanged (Suc k) nc) s1 else s1)"
    obtain x where x: "fold (\<lambda>d. emit (DesktopRemoved d)) (drop n (m_desktops s)) s2 = s2\<lparr>signals := x\<rparr>"
      using fold by blast
    have "?ds ! (nc - 1) \<in> set ?ds" using nc by (intro nth_mem) auto
    then have "listInv s1" unfolding s1_def by (intro keep) simp
    then have "listInv (s2\<lparr>signals := x\<rparr>)" by (simp add: s2_def)
    moreover have "shrinkDesktops n s = Some (s2\<lparr>signals := x\<rparr>)"
      using Some cur at x unfolding s2_def s1_def
      by (simp add: shrinkDesktops_def Let_def nc_def[symmetric] split: if_splits)
    ultimately show ?thesis by (auto simp: s2_def s1_def emit_def Some)
  qed
qed

lemma fold_emit_frame: "\<exists>x. fold (\<lambda>d. emit (f d)) ds r = r\<lparr>signals := x\<rparr>"
proof (induction ds arbitrary: r)
  case Nil
  show ?case by (intro exI[of _ "signals r"]) simp
next
  case (Cons d ds)
  show ?case using Cons[of "emit (f d) r"] by (auto simp: emit_def)
qed

text \<open>The number of desktops after \<open>setCount\<close> is the argument, clamped; the desktops that stay
  are the first ones.\<close>

definition clampCount :: "nat \<Rightarrow> nat" where "clampCount n = max 1 (min n maximum)"

text \<open>What \<open>setCount\<close> does after the list has its new length.\<close>

definition finishCount :: "vd_env \<Rightarrow> nat \<Rightarrow> vdm \<Rightarrow> vdm option" where
  "finishCount V old s1 = do {
       let newDesktops = drop old (m_desktops s1);
       s \<leftarrow> updateRootInfo s1;
       let s = (if s_loadingDesktopSettings s then s else save V s);
       let s = fold (\<lambda>d. emit (DesktopCreated d)) newDesktops s;
       Some (emit (CountChanged old (vcount s)) s) }"

lemma setCount_eq: "setCount V n s = (if clampCount n = vcount s then Some s
    else (if vcount s > clampCount n then shrinkDesktops (clampCount n) s
          else appendDesktops V (clampCount n - vcount s) s) \<bind> finishCount V (vcount s))"
  unfolding setCount_def finishCount_def clampCount_def by (simp only: Let_def)

lemma setCount_tail:
  assumes "listInv s1" "1 \<le> vcount s1"
  shows "\<exists>s'. finishCount V old s1 = Some s' \<and> vdm_inv s' \<and>
     m_desktops s' = m_desktops s1 \<and> heap s' = heap s1 \<and> m_current s' = m_current s1 \<and>
     s_loadingDesktopSettings s' = s_loadingDesktopSettings s1 \<and> m_rootInfo s' = m_rootInfo s1"
proof -
  obtain r g e where u: "updateRootInfo s1 = Some (s1\<lparr>m_rows := r, m_grid := g, signals := e\<rparr>)"
    and inv: "vdm_inv (s1\<lparr>m_rows := r, m_grid := g, signals := e\<rparr>)"
    using updateRootInfo_inv[OF assms] by blast
  define s2 where "s2 = s1\<lparr>m_rows := r, m_grid := g, signals := e\<rparr>"
  define s3 where "s3 = (if s_loadingDesktopSettings s2 then s2 else save V s2)"
  obtain c y where "save V s2 = s2\<lparr>m_config := c, signals := y\<rparr>" using save_frame by blast
  then have s3: "vdm_inv s3" "m_desktops s3 = m_desktops s1" "heap s3 = heap s1" "m_current s3 = m_current s1"
    "s_loadingDesktopSettings s3 = s_loadingDesktopSettings s1" "m_rootInfo s3 = m_rootInfo s1"
    using inv by (auto simp: s3_def s2_def)
  obtain x where x: "fold (\<lambda>d. emit (DesktopCreated d)) (drop old (m_desktops s1)) s3 = s3\<lparr>signals := x\<rparr>"
    using fold_emit_frame by blast
  define s4 where "s4 = emit (CountChanged old (vcount (s3\<lparr>signals := x\<rparr>))) (s3\<lparr>signals := x\<rparr>)"
  have "vdm_inv s4" using s3(1) by (simp add: s4_def)
  then show ?thesis using u x s3
    by (intro exI[of _ s4]) (simp add: finishCount_def s2_def[symmetric] s3_def[symmetric] Let_def s4_def emit_def)
qed

lemma setCount_spec:
  assumes "listInv s" "vcount s = 0 \<or> vdm_inv s"
  shows "\<exists>s'. setCount V n s = Some s' \<and> vdm_inv s' \<and> vcount s' = clampCount n \<and>
    take (vcount s) (m_desktops s') = take (clampCount n) (m_desktops s) \<and>
    keepsDesktops (take (clampCount n) (m_desktops s)) s s' \<and>
    (m_current s' = None \<longleftrightarrow> m_current s = None) \<and>
    s_loadingDesktopSettings s' = s_loadingDesktopSettings s \<and>
    (\<forall>d \<in> set (drop (vcount s) (m_desktops s')). s_loadingDesktopSettings s \<longrightarrow> m_id (heap s' d) = [])"
proof -
  let ?n = "clampCount n"
  have n: "1 \<le> ?n" "?n \<le> maximum" by (auto simp: clampCount_def maximum_def)
  consider "?n = vcount s" | "vcount s < ?n" | "?n < vcount s" by linarith
  then show ?thesis
  proof cases
    case 1
    then have "setCount V n s = Some s" by (simp add: setCount_eq)
    moreover have "vdm_inv s" using assms(2) 1 n by auto
    ultimately show ?thesis using 1 by (simp add: vcount_def)
  next
    case 2
    obtain s1 where s1: "appendDesktops V (?n - vcount s) s = Some s1" "listInv s1" "vcount s1 = ?n"
      "take (vcount s) (m_desktops s1) = m_desktops s" "m_current s1 = m_current s"
      "keepsDesktops (m_desktops s) s s1" "s_loadingDesktopSettings s1 = s_loadingDesktopSettings s"
      "\<forall>d \<in> set (drop (vcount s) (m_desktops s1)). s_loadingDesktopSettings s \<longrightarrow> m_id (heap s1 d) = []"
      using appendDesktops_inv[of s "?n - vcount s" V] assms(1) 2 n by auto
    obtain s' where s': "finishCount V (vcount s) s1 = Some s'" "vdm_inv s'"
      "m_desktops s' = m_desktops s1" "heap s' = heap s1" "m_current s' = m_current s1"
      "s_loadingDesktopSettings s' = s_loadingDesktopSettings s1"
      using setCount_tail[OF s1(2), of V "vcount s"] s1(3) n by auto
    have "setCount V n s = Some s'"
      using 2 s1(1) s'(1) by (simp add: setCount_eq)
    moreover have "take ?n (m_desktops s) = m_desktops s" using 2 by (simp add: vcount_def)
    ultimately show ?thesis using s1 s'
      by (intro exI[of _ s']) (simp add: vcount_def keepsDesktops_def)
  next
    case 3
    obtain s1 where s1: "shrinkDesktops ?n s = Some s1" "listInv s1" "m_desktops s1 = take ?n (m_desktops s)"
      "heap s1 = heap s" "s_loadingDesktopSettings s1 = s_loadingDesktopSettings s"
      "m_current s1 = None \<longleftrightarrow> m_current s = None"
      using shrink_inv[OF assms(1) n(1) 3] by (elim exE conjE) (rule that)
    have c1: "vcount s1 = ?n" using s1(3) 3 by (simp add: vcount_def)
    obtain s' where s': "finishCount V (vcount s) s1 = Some s'" "vdm_inv s'"
      "m_desktops s' = m_desktops s1" "heap s' = heap s1" "m_current s' = m_current s1"
      "s_loadingDesktopSettings s' = s_loadingDesktopSettings s1"
      using setCount_tail[OF s1(2), of V "vcount s"] c1 n by auto
    have "setCount V n s = Some s'"
      using 3 s1(1) s'(1) by (simp add: setCount_eq)
    then show ?thesis using s1 s' c1 3
      by (intro exI[of _ s']) (simp add: vcount_def keepsDesktops_def)
  qed
qed

end
