(* ===== verification/Desktop_Navigation.thy ===== *)
theory Desktop_Navigation
  imports Desktop_Operations
begin

text \<open>
  Navigation over a well-formed manager: where \<open>above\<close>, \<open>below\<close>, \<open>toLeft\<close>,
  \<open>toRight\<close>, \<open>next\<close> and \<open>previous\<close> lead, that opposite directions undo each other when
  navigation wraps, and that every direction leads to an existing desktop.
\<close>

section \<open>One step on the grid\<close>

lemma vdm_invD:
  assumes "vdm_inv s"
  shows "listInv s" "1 \<le> vcount s" "gridShape (m_grid s)" "distinct (m_desktops s)"
    "distinct (concat (cells (m_grid s)))" "set (concat (cells (m_grid s))) = set (m_desktops s)"
  using assms gridOK_set gridOK_distinct
  by (auto simp: vdm_inv_def gridOK_def listInv_def simp del: set_concat)

lemma inGrid_desktop:
  assumes "vdm_inv s" "inGrid (m_grid s) x y"
  shows "gridCell (m_grid s) x y \<in> set (m_desktops s)"
proof -
  have "cells (m_grid s) ! nat y \<in> set (cells (m_grid s))" "gridCell (m_grid s) x y \<in> set (cells (m_grid s) ! nat y)"
    using assms(2) by (auto simp: inGrid_def gridCell_def nat_less_iff)
  then show ?thesis using vdm_invD(6)[OF assms(1)] by auto
qed

lemma desktop_inGrid:
  assumes "vdm_inv s" "d \<in> set (m_desktops s)"
  obtains x y where "inGrid (m_grid s) x y" "d = gridCell (m_grid s) x y"
  using gridCoords_of[of "m_grid s" d] vdm_invD[OF assms(1)] assms(2) by metis

definition rowLength :: "vdgrid \<Rightarrow> int \<Rightarrow> int" where "rowLength g y = rowLen (g, y)"
definition colLength :: "vdgrid \<Rightarrow> int \<Rightarrow> int" where "colLength g x = colLen (g, x)"

lemma inGrid_row: "gridShape g \<Longrightarrow> inGrid g x y \<longleftrightarrow> 0 \<le> y \<and> y < gridH g \<and> 0 \<le> x \<and> x < rowLength g y"
  by (auto simp: inGrid_def rowLength_def rowLen_def gridShape_def)

lemma inGrid_col: "gridShape g \<Longrightarrow> inGrid g x y \<longleftrightarrow> 0 \<le> y \<and> y < colLength g x \<and> 0 \<le> x"
  using colLen_iff[of g y x] colLen_le[of g x]
  by (auto simp: inGrid_def colLength_def gridShape_def)

lemma inGrid_rows: "gridShape g \<Longrightarrow> inGrid g x y \<Longrightarrow> rowInvar (g, y) \<and> 0 \<le> x \<and> x < rowLen (g, y)"
  by (auto simp: inGrid_def rowInvar_def rowLen_def gridShape_def)

lemma inGrid_cols: "gridShape g \<Longrightarrow> inGrid g x y \<Longrightarrow> colInvar (g, x) \<and> 0 \<le> y \<and> y < colLen (g, x)"
  using inGrid_col[of g x y] by (auto simp: colInvar_def colLength_def)

lemma coords:
  assumes inv: "vdm_inv s" and at: "inGrid (m_grid s) x y"
  shows "gridCoords (m_grid s) (gridCell (m_grid s) x y) = (x, y)"
  using gridCoords_cell[OF vdm_invD(5)[OF inv] at] .

lemma toRight_cell:
  assumes inv: "vdm_inv s" and cur: "m_current s = Some c" and at: "inGrid (m_grid s) x y"
  shows "toRight s (Some (gridCell (m_grid s) x y)) wrap =
  Some (if x + 1 < rowLength (m_grid s) y then gridCell (m_grid s) (x + 1) y
        else if wrap then gridCell (m_grid s) 0 y else gridCell (m_grid s) x y)"
proof -
  have r: "rowInvar (m_grid s, y)" "0 \<le> x" "x < rowLen (m_grid s, y)"
    using inGrid_rows[OF vdm_invD(3)[OF inv] at] by auto
  have cell: "rows.cell (m_grid s, y) k = gridCell (m_grid s) k y" if "0 \<le> k" "k < rowLength (m_grid s) y" for k
    using rows_cell[of "m_grid s" k y] inGrid_row[OF vdm_invD(3)[OF inv]] at that by simp
  have "toRight s (Some (gridCell (m_grid s) x y)) wrap =
    walkForward (rowLine (m_grid s, y)) (rowLimit (m_grid s, y)) wrap (gridCell (m_grid s) x y) x"
    using r(2) by (simp add: toRight_def startDesktop_def cur coords[OF inv at] rowLine_def rowLimit_def)
  then show ?thesis using rows.forward[OF r] r cell[of "x + 1"] cell[of 0] by (simp add: rowLength_def)
qed

lemma toLeft_cell:
  assumes inv: "vdm_inv s" and cur: "m_current s = Some c" and at: "inGrid (m_grid s) x y"
  shows "toLeft s (Some (gridCell (m_grid s) x y)) wrap =
  Some (if 0 < x then gridCell (m_grid s) (x - 1) y
        else if wrap then gridCell (m_grid s) (rowLength (m_grid s) y - 1) y else gridCell (m_grid s) x y)"
proof -
  have r: "rowInvar (m_grid s, y)" "0 \<le> x" "x < rowLen (m_grid s, y)"
    using inGrid_rows[OF vdm_invD(3)[OF inv] at] by auto
  have cell: "rows.cell (m_grid s, y) k = gridCell (m_grid s) k y" if "0 \<le> k" "k < rowLength (m_grid s) y" for k
    using rows_cell[of "m_grid s" k y] inGrid_row[OF vdm_invD(3)[OF inv]] at that by simp
  have "toLeft s (Some (gridCell (m_grid s) x y)) wrap =
    walkBackward (rowLine (m_grid s, y)) (rowLimit (m_grid s, y)) wrap (gridCell (m_grid s) x y) x"
    using r(2) by (simp add: toLeft_def startDesktop_def cur coords[OF inv at] rowLine_def rowLimit_def)
  then show ?thesis using rows.backward[OF r] r cell[of "x - 1"] cell[of "rowLength (m_grid s) y - 1"]
    by (simp add: rowLength_def)
qed

lemma below_cell:
  assumes inv: "vdm_inv s" and cur: "m_current s = Some c" and at: "inGrid (m_grid s) x y"
  shows "below s (Some (gridCell (m_grid s) x y)) wrap =
  Some (if y + 1 < colLength (m_grid s) x then gridCell (m_grid s) x (y + 1)
        else if wrap then gridCell (m_grid s) x 0 else gridCell (m_grid s) x y)"
proof -
  have r: "colInvar (m_grid s, x)" "0 \<le> y" "y < colLen (m_grid s, x)"
    using inGrid_cols[OF vdm_invD(3)[OF inv] at] by auto
  have x: "0 \<le> x" using at by (simp add: inGrid_def)
  have cell: "cols.cell (m_grid s, x) k = gridCell (m_grid s) x k" if "0 \<le> k" "k < colLength (m_grid s) x" for k
    using cols_cell[of "m_grid s" x k] inGrid_col[OF vdm_invD(3)[OF inv]] x that by simp
  have "below s (Some (gridCell (m_grid s) x y)) wrap =
    walkForward (colLine (m_grid s, x)) (colLimit (m_grid s, x)) wrap (gridCell (m_grid s) x y) y"
    using x by (simp add: below_def startDesktop_def cur coords[OF inv at] colLine_def colLimit_def)
  then show ?thesis using cols.forward[OF r] r cell[of "y + 1"] cell[of 0] by (simp add: colLength_def)
qed

lemma above_cell:
  assumes inv: "vdm_inv s" and cur: "m_current s = Some c" and at: "inGrid (m_grid s) x y"
  shows "above s (Some (gridCell (m_grid s) x y)) wrap =
  Some (if 0 < y then gridCell (m_grid s) x (y - 1)
        else if wrap then gridCell (m_grid s) x (colLength (m_grid s) x - 1) else gridCell (m_grid s) x y)"
proof -
  have r: "colInvar (m_grid s, x)" "0 \<le> y" "y < colLen (m_grid s, x)"
    using inGrid_cols[OF vdm_invD(3)[OF inv] at] by auto
  have x: "0 \<le> x" using at by (simp add: inGrid_def)
  have cell: "cols.cell (m_grid s, x) k = gridCell (m_grid s) x k" if "0 \<le> k" "k < colLength (m_grid s) x" for k
    using cols_cell[of "m_grid s" x k] inGrid_col[OF vdm_invD(3)[OF inv]] x that by simp
  have "above s (Some (gridCell (m_grid s) x y)) wrap =
    walkBackward (colLine (m_grid s, x)) (colLimit (m_grid s, x)) wrap (gridCell (m_grid s) x y) y"
    using x by (simp add: above_def startDesktop_def cur coords[OF inv at] colLine_def colLimit_def)
  then show ?thesis using cols.backward[OF r] r cell[of "y - 1"] cell[of "colLength (m_grid s) x - 1"]
    by (simp add: colLength_def)
qed

section \<open>Next and previous\<close>

lemma next_nth:
  assumes "vdm_inv s" "m_current s = Some c" "i < vcount s"
  shows "nextDesktop s (Some (m_desktops s ! i)) wrap = Some (m_desktops s !
    (if Suc i < vcount s then Suc i else if wrap then 0 else i))"
proof -
  have "hd (m_desktops s) = m_desktops s ! 0" using assms(3) by (intro hd_conv_nth) (auto simp: vcount_def)
  then show ?thesis using indexOf_nth_distinct[OF vdm_invD(4)[OF assms(1)], of i] assms(2,3)
    by (auto simp: nextDesktop_def startDesktop_def vcount_def nat_add_distrib Let_def)
qed

lemma previous_nth:
  assumes "vdm_inv s" "m_current s = Some c" "i < vcount s"
  shows "previousDesktop s (Some (m_desktops s ! i)) wrap = Some (m_desktops s !
    (if 0 < i then i - 1 else if wrap then vcount s - 1 else i))"
  using indexOf_nth_distinct[OF vdm_invD(4)[OF assms(1)], of i] assms(2,3) vdm_invD(2)[OF assms(1)]
  by (auto simp: previousDesktop_def startDesktop_def vcount_def nat_diff_distrib last_conv_nth Let_def)

section \<open>Every direction leads to a desktop\<close>

lemma inDirection_desktop:
  assumes "vdm_inv s" "m_current s = Some c" "d \<in> set (m_desktops s)"
  shows "\<exists>e \<in> set (m_desktops s). inDirection s (Some d) dir wrap = Some e"
proof -
  obtain x y where g: "inGrid (m_grid s) x y" "d = gridCell (m_grid s) x y"
    using desktop_inGrid[OF assms(1,3)] by blast
  have sh: "gridShape (m_grid s)" by (rule vdm_invD(3)[OF assms(1)])
  have mem: "gridCell (m_grid s) i j \<in> set (m_desktops s)" if "inGrid (m_grid s) i j" for i j
    by (rule inGrid_desktop[OF assms(1) that])
  obtain i where i: "i < vcount s" "d = m_desktops s ! i" using assms(3) by (auto simp: in_set_conv_nth vcount_def)
  have nth: "m_desktops s ! j \<in> set (m_desktops s)" if "j < vcount s" for j
    using that by (simp add: vcount_def)
  show ?thesis
  proof (cases dir)
    case Up
    then show ?thesis using above_cell[OF assms(1,2) g(1), of wrap] g inGrid_col[OF sh]
      by (auto simp: inDirection_def intro!: mem)
  next
    case Down
    then show ?thesis using below_cell[OF assms(1,2) g(1), of wrap] g inGrid_col[OF sh]
      by (auto simp: inDirection_def intro!: mem)
  next
    case DRight
    then show ?thesis using toRight_cell[OF assms(1,2) g(1), of wrap] g inGrid_row[OF sh]
      by (auto simp: inDirection_def intro!: mem)
  next
    case DLeft
    then show ?thesis using toLeft_cell[OF assms(1,2) g(1), of wrap] g inGrid_row[OF sh]
      by (auto simp: inDirection_def intro!: mem)
  next
    case Next
    then show ?thesis using next_nth[OF assms(1,2) i(1), of wrap] i by (auto simp: inDirection_def intro!: nth)
  next
    case Previous
    then show ?thesis using previous_nth[OF assms(1,2) i(1), of wrap] i by (auto simp: inDirection_def intro!: nth)
  qed
qed

lemma current_desktop: "vdm_inv s \<Longrightarrow> m_current s = Some c \<Longrightarrow> c \<in> set (m_desktops s)"
  by (simp add: vdm_inv_def listInv_def)

lemma inDirection_None: "m_current s = Some c \<Longrightarrow> inDirection s None dir wrap = inDirection s (Some c) dir wrap"
  by (cases dir) (simp_all add: inDirection_def above_def below_def toRight_def toLeft_def nextDesktop_def
      previousDesktop_def startDesktop_def)

definition opposite :: "direction \<Rightarrow> direction" where
  "opposite dir = (case dir of Up \<Rightarrow> Down | Down \<Rightarrow> Up | DRight \<Rightarrow> DLeft | DLeft \<Rightarrow> DRight
     | Next \<Rightarrow> Previous | Previous \<Rightarrow> Next)"

lemma inDirection_opposite:
  assumes "vdm_inv s" "m_current s = Some c" "d \<in> set (m_desktops s)"
  shows "(inDirection s (Some d) dir True \<bind> (\<lambda>e. inDirection s (Some e) (opposite dir) True)) = Some d"
proof -
  obtain x y where g: "inGrid (m_grid s) x y" "d = gridCell (m_grid s) x y"
    using desktop_inGrid[OF assms(1,3)] by blast
  have sh: "gridShape (m_grid s)" by (rule vdm_invD(3)[OF assms(1)])
  obtain i where i: "i < vcount s" "d = m_desktops s ! i" using assms(3) by (auto simp: in_set_conv_nth vcount_def)
  note col = inGrid_col[OF sh] and row = inGrid_row[OF sh]
  show ?thesis
  proof (cases dir)
    case Up
    define y' where "y' = (if 0 < y then y - 1 else colLength (m_grid s) x - 1)"
    have g': "inGrid (m_grid s) x y'" using g(1) col by (auto simp: y'_def)
    have "above s (Some d) True = Some (gridCell (m_grid s) x y')"
      using above_cell[OF assms(1,2) g(1), of True] g(2) by (simp add: y'_def)
    then show ?thesis using Up below_cell[OF assms(1,2) g', of True] g col
      by (auto simp: inDirection_def opposite_def y'_def)
  next
    case Down
    define y' where "y' = (if y + 1 < colLength (m_grid s) x then y + 1 else 0)"
    have g': "inGrid (m_grid s) x y'" using g(1) col by (auto simp: y'_def)
    have "below s (Some d) True = Some (gridCell (m_grid s) x y')"
      using below_cell[OF assms(1,2) g(1), of True] g(2) by (simp add: y'_def)
    moreover have "above s (Some (gridCell (m_grid s) x y')) True = Some d"
    proof (cases "y + 1 < colLength (m_grid s) x")
      case False
      then have "colLength (m_grid s) x - 1 = y" using g(1) col by auto
      then show ?thesis using above_cell[OF assms(1,2) g', of True] g(2) False by (simp add: y'_def)
    qed (use above_cell[OF assms(1,2) g', of True] g col in \<open>auto simp: y'_def\<close>)
    ultimately show ?thesis using Down by (simp add: inDirection_def opposite_def)
  next
    case DRight
    define x' where "x' = (if x + 1 < rowLength (m_grid s) y then x + 1 else 0)"
    have g': "inGrid (m_grid s) x' y" using g(1) row by (auto simp: x'_def)
    have "toRight s (Some d) True = Some (gridCell (m_grid s) x' y)"
      using toRight_cell[OF assms(1,2) g(1), of True] g(2) by (simp add: x'_def)
    moreover have "toLeft s (Some (gridCell (m_grid s) x' y)) True = Some d"
    proof (cases "x + 1 < rowLength (m_grid s) y")
      case False
      then have "rowLength (m_grid s) y - 1 = x" using g(1) row by auto
      then show ?thesis using toLeft_cell[OF assms(1,2) g', of True] g(2) False by (simp add: x'_def)
    qed (use toLeft_cell[OF assms(1,2) g', of True] g row in \<open>auto simp: x'_def\<close>)
    ultimately show ?thesis using DRight by (simp add: inDirection_def opposite_def)
  next
    case DLeft
    define x' where "x' = (if 0 < x then x - 1 else rowLength (m_grid s) y - 1)"
    have g': "inGrid (m_grid s) x' y" using g(1) row by (auto simp: x'_def)
    have "toLeft s (Some d) True = Some (gridCell (m_grid s) x' y)"
      using toLeft_cell[OF assms(1,2) g(1), of True] g(2) by (simp add: x'_def)
    then show ?thesis using DLeft toRight_cell[OF assms(1,2) g', of True] g row
      by (auto simp: inDirection_def opposite_def x'_def)
  next
    case Next
    have last: "vcount s - 1 = i" if "\<not> Suc i < vcount s" using that i(1) by simp
    show ?thesis using Next i next_nth[OF assms(1,2) i(1), of True]
        previous_nth[OF assms(1,2), of "if Suc i < vcount s then Suc i else 0" True]
      by (cases "Suc i < vcount s") (simp_all add: inDirection_def opposite_def last[simplified])
  next
    case Previous
    then show ?thesis using i previous_nth[OF assms(1,2) i(1), of True]
        next_nth[OF assms(1,2), of "if 0 < i then i - 1 else vcount s - 1" True]
      by (auto simp: inDirection_def opposite_def)
  qed
qed

end
