(* ===== verification/Desktop_Config.thy ===== *)
theory Desktop_Config
  imports Desktop_Navigation
begin

text \<open>
  The configuration of the virtual desktops: what \<open>save\<close> leaves in the group \<open>Desktops\<close>, what
  \<open>load\<close> makes of it, and that loading what was saved brings the desktops back.
\<close>

named_theorems config_ops "lookups in the configuration"

lemma map_of_deleteEntry [config_ops]: "map_of (deleteEntry k m) k' = (if k' = k then None else map_of m k')"
  by (induction m) (auto simp: deleteEntry_def)

lemma map_of_writeEntry [config_ops]: "map_of (writeEntry k v m) k' = (if k' = k then Some v else map_of m k')"
  by (simp add: writeEntry_def map_of_deleteEntry)

lemma readStr_cong: "map_of m k = map_of m' k \<Longrightarrow> readStr m k d = readStr m' k d"
  by (simp add: readStr_def)

lemma readInt_cong: "map_of m k = map_of m' k \<Longrightarrow> readInt m k d = readInt m' k d"
  by (simp add: readInt_def)

section \<open>What is saved\<close>

text \<open>The name a desktop is saved with: the default one when it has none.\<close>

definition savedName :: "vd_env \<Rightarrow> vdm \<Rightarrow> vd \<Rightarrow> string" where
  "savedName V s d = (if m_name (heap s d) = [] then defaultName V (desktopNumber s d) else m_name (heap s d))"

lemma saveDesktop_config:
  assumes "saveDesktop V d (m, s) = (m', s')"
  shows "readStr m' (CfgName (desktopNumber s d)) (defaultName V (desktopNumber s d)) = savedName V s d"
    and "readStr m' (CfgId (desktopNumber s d)) [] = m_id (heap s d)"
    and "k \<noteq> CfgName (desktopNumber s d) \<Longrightarrow> k \<noteq> CfgId (desktopNumber s d) \<Longrightarrow> map_of m' k = map_of m k"
proof -
  let ?p = "desktopNumber s d" and ?n = "savedName V s d"
  have m': "m' = writeEntry (CfgId ?p) (CfgStr (m_id (heap s d)))
    (if ?n \<noteq> defaultName V ?p then writeEntry (CfgName ?p) (CfgStr ?n) m
     else if readStr m (CfgName ?p) [] \<noteq> defaultName V ?p then deleteEntry (CfgName ?p) m else m)"
    using assms by (auto simp: saveDesktop_def savedName_def desktopNumber_def Let_def)
  show "readStr m' (CfgName ?p) (defaultName V ?p) = ?n"
    by (auto simp: m' readStr_def config_ops split: option.splits cfg_val.splits)
  show "readStr m' (CfgId ?p) [] = m_id (heap s d)"
    by (simp add: m' readStr_def config_ops)
  show "map_of m' k = map_of m k" if "k \<noteq> CfgName ?p" "k \<noteq> CfgId ?p"
    using that by (simp add: m' config_ops)
qed

lemma savedName_signals [simp]: "savedName V (s\<lparr>signals := x\<rparr>) = savedName V s"
  by (rule ext) (simp add: savedName_def desktopNumber_def)

lemma desktopNumber_signals [simp]: "desktopNumber (s\<lparr>signals := x\<rparr>) = desktopNumber s"
  by (rule ext) (simp add: desktopNumber_def)

lemma saveDesktops_config:
  assumes "fold (saveDesktop V) ds (m, s) = (m', s')" "inj_on (desktopNumber s) (set ds)" "distinct ds"
  shows "(\<forall>d \<in> set ds.
      readStr m' (CfgName (desktopNumber s d)) (defaultName V (desktopNumber s d)) = savedName V s d \<and>
      readStr m' (CfgId (desktopNumber s d)) [] = m_id (heap s d)) \<and>
    (\<forall>k. (\<forall>d \<in> set ds. k \<noteq> CfgName (desktopNumber s d) \<and> k \<noteq> CfgId (desktopNumber s d)) \<longrightarrow>
      map_of m' k = map_of m k)"
  using assms
proof (induction ds arbitrary: m s)
  case (Cons d ds)
  obtain m1 x where one: "saveDesktop V d (m, s) = (m1, s\<lparr>signals := x\<rparr>)" using saveDesktop_frame by blast
  have "fold (saveDesktop V) ds (m1, s\<lparr>signals := x\<rparr>) = (m', s')" using Cons.prems(1) one by simp
  from Cons.IH[OF this] Cons.prems
  have IH: "\<And>e. e \<in> set ds \<Longrightarrow>
      readStr m' (CfgName (desktopNumber s e)) (defaultName V (desktopNumber s e)) = savedName V s e \<and>
      readStr m' (CfgId (desktopNumber s e)) [] = m_id (heap s e)"
    and rest: "\<And>k. (\<forall>e \<in> set ds. k \<noteq> CfgName (desktopNumber s e) \<and> k \<noteq> CfgId (desktopNumber s e)) \<Longrightarrow>
      map_of m' k = map_of m1 k"
    by (auto simp: inj_on_def)
  have other: "\<forall>e \<in> set ds. desktopNumber s e \<noteq> desktopNumber s d"
    using Cons.prems(2,3) by (auto simp: inj_on_def)
  have "map_of m' (CfgName (desktopNumber s d)) = map_of m1 (CfgName (desktopNumber s d))"
    "map_of m' (CfgId (desktopNumber s d)) = map_of m1 (CfgId (desktopNumber s d))"
    using other by (auto intro!: rest)
  then have "readStr m' (CfgName (desktopNumber s d)) (defaultName V (desktopNumber s d)) = savedName V s d"
    "readStr m' (CfgId (desktopNumber s d)) [] = m_id (heap s d)"
    using saveDesktop_config(1,2)[OF one] readStr_cong by metis+
  moreover have "map_of m' k = map_of m k"
    if "\<forall>e \<in> set (d # ds). k \<noteq> CfgName (desktopNumber s e) \<and> k \<noteq> CfgId (desktopNumber s e)" for k
    using rest[of k] saveDesktop_config(3)[OF one, of k] that by simp
  ultimately show ?case using IH by simp
qed simp

lemma pruneEntries_first: "map_of (pruneEntries i m) (CfgId i) = None"
proof (induction i m rule: pruneEntries.induct)
  case (1 i m)
  have mono: "map_of m' k = None \<Longrightarrow> map_of (pruneEntries j m') k = None" for j m' k
  proof (induction j m' rule: pruneEntries.induct)
    case (1 j m')
    then show ?case by (subst pruneEntries.simps) (simp add: config_ops)
  qed
  show ?case
  proof (cases "map_of m (CfgId i) = None")
    case True
    then show ?thesis by (subst pruneEntries.simps) simp
  next
    case False
    then show ?thesis by (subst pruneEntries.simps) (simp add: mono config_ops)
  qed
qed

lemma save_config:
  assumes "vdm_inv s" "\<not> s_loadingDesktopSettings s" "m_config s = Some m0"
  shows "\<exists>m. m_config (save V s) = Some m \<and>
    map_of m CfgNumber = Some (CfgInt (int (vcount s))) \<and> map_of m CfgRows = Some (CfgInt (int (m_rows s))) \<and>
    map_of m (CfgId (int (vcount s) + 1)) = None \<and>
    (\<forall>i < vcount s. readStr m (CfgName (int i + 1)) (defaultName V (int i + 1)) = savedName V s (m_desktops s ! i) \<and>
       readStr m (CfgId (int i + 1)) [] = m_id (heap s (m_desktops s ! i)))"
proof -
  let ?m1 = "writeEntry CfgNumber (CfgInt (int (vcount s))) (pruneEntries (int (vcount s) + 1) m0)"
  have inv: "listInv s" "distinct (m_desktops s)" using vdm_invD[OF assms(1)] by auto
  obtain m2 x where f: "fold (saveDesktop V) (m_desktops s) (?m1, s) = (m2, s\<lparr>signals := x\<rparr>)"
    using saveDesktops_frame by blast
  have num: "desktopNumber s (m_desktops s ! i) = int i + 1" if "i < vcount s" for i
    by (rule listInv_nth[OF inv(1) that])
  have range: "\<exists>i < vcount s. d = m_desktops s ! i \<and> desktopNumber s d = int i + 1" if "d \<in> set (m_desktops s)" for d
    using that num by (metis in_set_conv_nth vcount_def)
  have "inj_on (desktopNumber s) (set (m_desktops s))"
  proof (rule inj_onI)
    fix d e assume "d \<in> set (m_desktops s)" "e \<in> set (m_desktops s)" "desktopNumber s d = desktopNumber s e"
    then show "d = e" using range[of d] range[of e] by auto
  qed
  note c = saveDesktops_config[OF f this inv(2)]
  have sv: "m_config (save V s) = Some (writeEntry CfgRows (CfgInt (int (m_rows s))) m2)"
    using assms(2,3) f by (simp add: save_def)
  have "map_of m2 CfgNumber = Some (CfgInt (int (vcount s)))" using c by (simp add: config_ops)
  moreover have "map_of m2 (CfgId (int (vcount s) + 1)) = map_of ?m1 (CfgId (int (vcount s) + 1))"
  proof -
    have "\<forall>d \<in> set (m_desktops s). int (vcount s) + 1 \<noteq> desktopNumber s d" using range by fastforce
    then show ?thesis using conjunct2[OF c, rule_format, of "CfgId (int (vcount s) + 1)"] by auto
  qed
  moreover have "readStr m2 (CfgName (int i + 1)) (defaultName V (int i + 1)) = savedName V s (m_desktops s ! i) \<and>
       readStr m2 (CfgId (int i + 1)) [] = m_id (heap s (m_desktops s ! i))" if "i < vcount s" for i
    using c num[OF that] that by (metis nth_mem vcount_def)
  ultimately show ?thesis
    by (simp add: sv config_ops readStr_def pruneEntries_first)
qed

section \<open>What is loaded\<close>

definition loadedDesktop :: "vd_env \<Rightarrow> config \<Rightarrow> int \<Rightarrow> vd \<Rightarrow> vdesktop \<Rightarrow> vdesktop" where
  "loadedDesktop V m i d v = v\<lparr>m_name := readStr m (CfgName i) (defaultName V i),
     m_id := (if m_id v = [] then (if readStr m (CfgId i) [] = [] then generateDesktopId V d else readStr m (CfgId i) [])
              else m_id v)\<rparr>"

lemma renameDesktop_frame:
  "\<exists>x. renameDesktop d n s = s\<lparr>heap := (heap s)(d := (heap s d)\<lparr>m_name := n\<rparr>), signals := x\<rparr>"
proof (cases "m_name (heap s d) = n")
  case True
  then have "(heap s)(d := (heap s d)\<lparr>m_name := n\<rparr>) = heap s" by auto
  then show ?thesis using True by (intro exI[of _ "signals s"]) (simp add: renameDesktop_def)
next
  case False
  obtain x where "setName d n s = s\<lparr>heap := (heap s)(d := (heap s d)\<lparr>m_name := n\<rparr>), signals := x\<rparr>"
    using setName_frame by blast
  then show ?thesis using False rootCall_frame[of _ "s\<lparr>heap := (heap s)(d := (heap s d)\<lparr>m_name := n\<rparr>), signals := x\<rparr>"]
    by (simp add: renameDesktop_def)
qed

lemma loadDesktop_frame:
  assumes "1 \<le> i" "i \<le> int (vcount s)" "d = m_desktops s ! nat (i - 1)"
    "m_id (heap s d) = [] \<or> readStr m (CfgId i) [] = [] \<or> m_id (heap s d) = readStr m (CfgId i) []"
  shows "\<exists>x. loadDesktop V m i s = Some (s\<lparr>heap := (heap s)(d := loadedDesktop V m i d (heap s d)), signals := x\<rparr>)"
proof -
  let ?n = "readStr m (CfgName i) (defaultName V i)"
  define s1 where "s1 = rootCall (RootSetDesktopName i ?n) s"
  obtain x1 where x1: "s1 = s\<lparr>signals := x1\<rparr>" using rootCall_frame[of "RootSetDesktopName i ?n" s] by (auto simp: s1_def)
  have at: "atIdx (m_desktops s1) (i - 1) = Some d" using assms(1-3) by (simp add: atIdx_def vcount_def x1)
  define s2 where "s2 = renameDesktop d ?n s1"
  obtain x2 where x2: "s2 = s1\<lparr>heap := (heap s1)(d := (heap s1 d)\<lparr>m_name := ?n\<rparr>), signals := x2\<rparr>"
    unfolding s2_def using renameDesktop_frame by blast
  let ?s' = "s\<lparr>heap := (heap s)(d := loadedDesktop V m i d (heap s d)), signals := x2\<rparr>"
  have id: "m_id (heap s2 d) = m_id (heap s d)" by (simp add: x2 x1)
  have "(if m_id (heap s2 d) = [] then setId d (if readStr m (CfgId i) [] = [] then generateDesktopId V d else readStr m (CfgId i) []) s2
     else if readStr m (CfgId i) [] = [] \<or> m_id (heap s2 d) = readStr m (CfgId i) [] then Some s2 else None) = Some ?s'"
  proof (cases "m_id (heap s d) = []")
    case True
    have "s2\<lparr>heap := (heap s2)(d := (heap s2 d)\<lparr>m_id := (if readStr m (CfgId i) [] = [] then generateDesktopId V d else readStr m (CfgId i) [])\<rparr>)\<rparr> = ?s'"
      by (rule vdm.equality) (auto simp: x2 x1 loadedDesktop_def True)
    then show ?thesis using True id by (simp add: setId_def)
  next
    case False
    have "s2 = ?s'"
      by (rule vdm.equality) (auto simp: x2 x1 loadedDesktop_def False)
    then show ?thesis using False id assms(4) by simp
  qed
  moreover have "loadDesktop V m i s = (if m_id (heap s2 d) = [] then setId d (if readStr m (CfgId i) [] = [] then generateDesktopId V d else readStr m (CfgId i) []) s2
     else if readStr m (CfgId i) [] = [] \<or> m_id (heap s2 d) = readStr m (CfgId i) [] then Some s2 else None)"
    unfolding loadDesktop_def Let_def s1_def[symmetric] at by (simp only: Option.bind.simps s2_def)
  ultimately have "loadDesktop V m i s = Some ?s'" by simp
  then show ?thesis by blast
qed

lemma vdm_inv_heap:
  assumes "vdm_inv s" "\<And>d. m_x11DesktopNumber (h d) = m_x11DesktopNumber (heap s d)"
  shows "vdm_inv (s\<lparr>heap := h, signals := x\<rparr>)"
  using assms by (simp add: vdm_inv_def listInv_def numbered_def vcount_def desktopNumber_def)

lemma loadDesktops_spec:
  assumes "vdm_inv s" "distinct is" "set is \<subseteq> {1 .. int (vcount s)}"
    "\<forall>i \<in> set is. m_id (heap s (m_desktops s ! nat (i - 1))) = []"
  shows "\<exists>h x. loadDesktops V m is s = Some (s\<lparr>heap := h, signals := x\<rparr>) \<and> vdm_inv (s\<lparr>heap := h, signals := x\<rparr>) \<and>
    (\<forall>j < vcount s. h (m_desktops s ! j) = (if int j + 1 \<in> set is
       then loadedDesktop V m (int j + 1) (m_desktops s ! j) (heap s (m_desktops s ! j))
       else heap s (m_desktops s ! j)))"
  using assms
proof (induction "is" arbitrary: s)
  case Nil
  then show ?case by (intro exI[of _ "heap s"] exI[of _ "signals s"]) simp
next
  case (Cons i "is")
  let ?k = "nat (i - 1)" let ?d = "m_desktops s ! ?k"
  have k: "?k < vcount s" "int ?k + 1 = i" using Cons.prems(3) by auto
  obtain x where one: "loadDesktop V m i s = Some (s\<lparr>heap := (heap s)(?d := loadedDesktop V m i ?d (heap s ?d)), signals := x\<rparr>)"
    using loadDesktop_frame[of i s ?d m V] Cons.prems by auto
  let ?s = "s\<lparr>heap := (heap s)(?d := loadedDesktop V m i ?d (heap s ?d)), signals := x\<rparr>"
  have dist: "distinct (m_desktops s)" using vdm_invD[OF Cons.prems(1)] by auto
  have inj: "m_desktops s ! j = ?d \<longleftrightarrow> j = ?k" if "j < vcount s" for j
    using dist that k by (simp add: vcount_def nth_eq_iff_index_eq)
  have inv: "vdm_inv ?s" using Cons.prems(1) by (rule vdm_inv_heap) (simp add: loadedDesktop_def)
  have "m_id (heap ?s (m_desktops ?s ! nat (i' - 1))) = []" if "i' \<in> set is" for i'
  proof -
    have r: "1 \<le> i'" "i' \<le> int (vcount s)" "i' \<noteq> i" using that Cons.prems(2,3) by auto
    then have "m_desktops s ! nat (i' - 1) \<noteq> ?d" using inj[of "nat (i' - 1)"] k Cons.prems(3)
      by (auto simp: nat_eq_iff2)
    then show ?thesis using Cons.prems(4) that by simp
  qed
  moreover have "set is \<subseteq> {1 .. int (vcount ?s)}" using Cons.prems(3) by (auto simp: vcount_def)
  ultimately obtain h y where r: "loadDesktops V m is ?s = Some (?s\<lparr>heap := h, signals := y\<rparr>)"
      "vdm_inv (?s\<lparr>heap := h, signals := y\<rparr>)"
    and num: "\<forall>j < vcount ?s. h (m_desktops ?s ! j) = (if int j + 1 \<in> set is
       then loadedDesktop V m (int j + 1) (m_desktops ?s ! j) (heap ?s (m_desktops ?s ! j))
       else heap ?s (m_desktops ?s ! j))"
    using Cons.IH[OF inv] Cons.prems(2) by auto
  have "h (m_desktops s ! j) = (if int j + 1 \<in> set (i # is)
       then loadedDesktop V m (int j + 1) (m_desktops s ! j) (heap s (m_desktops s ! j))
       else heap s (m_desktops s ! j))" if j: "j < vcount s" for j
  proof (cases "j = ?k")
    case True
    then have "int j + 1 \<notin> set is" using Cons.prems(2) k by simp
    moreover have "h (m_desktops s ! j) = (if int j + 1 \<in> set is
       then loadedDesktop V m (int j + 1) (m_desktops ?s ! j) (heap ?s (m_desktops ?s ! j))
       else heap ?s (m_desktops ?s ! j))" using num j by (simp add: vcount_def)
    ultimately show ?thesis using True k by simp
  next
    case False
    then have "int j + 1 \<noteq> i" using k by auto
    moreover have "h (m_desktops s ! j) = (if int j + 1 \<in> set is
       then loadedDesktop V m (int j + 1) (m_desktops ?s ! j) (heap ?s (m_desktops ?s ! j))
       else heap ?s (m_desktops ?s ! j))" using num j by (simp add: vcount_def)
    ultimately show ?thesis using False inj[OF j] by simp
  qed
  moreover have "loadDesktops V m (i # is) s = Some (s\<lparr>heap := h, signals := y\<rparr>)" using one r(1) by simp
  ultimately show ?case using r(2) by auto
qed

text \<open>Loading into a manager without desktops, as at start-up.\<close>

lemma load_spec:
  assumes "listInv s" "vcount s = 0" "m_config s = Some m"
    "1 \<le> readInt m CfgNumber 2" "readInt m CfgNumber 2 \<le> 20"
  shows "\<exists>s'. load V None s = Some s' \<and> vdm_inv s' \<and> int (vcount s') = readInt m CfgNumber 2 \<and>
    \<not> s_loadingDesktopSettings s' \<and>
    m_rows s' = nat (max 1 (min (readInt m CfgRows 2) (readInt m CfgNumber 2))) \<and>
    (\<forall>j < vcount s'. m_name (heap s' (m_desktops s' ! j)) = readStr m (CfgName (int j + 1)) (defaultName V (int j + 1)) \<and>
      m_id (heap s' (m_desktops s' ! j)) = (if readStr m (CfgId (int j + 1)) [] = []
        then generateDesktopId V (m_desktops s' ! j) else readStr m (CfgId (int j + 1)) []))"
proof -
  let ?n = "readInt m CfgNumber 2"
  define s0 where "s0 = s\<lparr>s_loadingDesktopSettings := True, m_config := Some m\<rparr>"
  have s0: "listInv s0" "vcount s0 = 0" "s_loadingDesktopSettings s0"
    using assms(1,2) by (simp_all add: s0_def vcount_def)
  have n: "int_to_uint ?n = nat ?n" "clampCount (nat ?n) = nat ?n"
    using assms(4,5) by (simp_all add: int_to_uint_def clampCount_def maximum_def)
  have m_desktops0: "m_desktops s0 = []" using s0(2) by (simp add: vcount_def)
  obtain s1 where s1: "setCount V (nat ?n) s0 = Some s1" "vdm_inv s1" "vcount s1 = nat ?n"
    "\<forall>d \<in> set (m_desktops s1). m_id (heap s1 d) = []"
    using setCount_spec[OF s0(1) disjI1[OF s0(2)], of V "nat ?n"] n(2) s0 m_desktops0 by auto
  have idx: "set [1 .. ?n] \<subseteq> {1 .. int (vcount s1)}" "distinct [1 .. ?n]"
    using s1(3) assms(4) by auto
  have "\<forall>i \<in> set [1 .. ?n]. m_id (heap s1 (m_desktops s1 ! nat (i - 1))) = []"
  proof
    fix i assume "i \<in> set [1 .. ?n]"
    then have "nat (i - 1) < vcount s1" using s1(3) by auto
    then show "m_id (heap s1 (m_desktops s1 ! nat (i - 1))) = []" using s1(4) by (simp add: vcount_def)
  qed
  from loadDesktops_spec[OF s1(2) idx(2,1) this, of V m] obtain h x where
    l: "loadDesktops V m [1 .. ?n] s1 = Some (s1\<lparr>heap := h, signals := x\<rparr>)" "vdm_inv (s1\<lparr>heap := h, signals := x\<rparr>)"
    and hh: "\<forall>j < vcount s1. h (m_desktops s1 ! j) = (if int j + 1 \<in> set [1 .. ?n]
       then loadedDesktop V m (int j + 1) (m_desktops s1 ! j) (heap s1 (m_desktops s1 ! j))
       else heap s1 (m_desktops s1 ! j))" by blast
  define s' where "s' = s1\<lparr>m_rows := nat (max 1 (min (readInt m CfgRows 2) ?n)), heap := h, signals := x, s_loadingDesktopSettings := False\<rparr>"
  have "load V None s = Some s'"
    using assms(3,4) s1(1) l(1) n(1)
    by (simp add: load_def Let_def s0_def s'_def)
  moreover have "vdm_inv s'"
    using l(2) by (simp add: s'_def vdm_inv_def listInv_def numbered_def vcount_def desktopNumber_def)
  moreover have "h (m_desktops s1 ! j) = loadedDesktop V m (int j + 1) (m_desktops s1 ! j) (heap s1 (m_desktops s1 ! j))"
    if "j < vcount s1" for j
    using hh that s1(3) by auto
  ultimately show ?thesis using s1(3,4) assms(4)
    by (intro exI[of _ s']) (auto simp: s'_def vcount_def loadedDesktop_def)
qed

end
