(* ===== verification/Desktop_Properties.thy ===== *)
theory Desktop_Properties
  imports Desktop_Config
begin

text \<open>
  The virtual desktop manager as a state machine: its transitions are the calls of the public
  operations, and the properties of the reachable states and of the single operations follow.
\<close>

section \<open>Transitions\<close>

definition vdm_init :: "config option \<Rightarrow> vdm" where
  "vdm_init c = \<lparr>heap = (\<lambda>_. \<lparr>m_id = [], m_name = [], m_x11DesktopNumber = 0\<rparr>), nextPtr = 0,
     m_desktops = [], m_current = None, m_rows = 2, m_navigationWrapsAround = False,
     m_grid = \<lparr>gridW = 1, gridH = 2, cells = [[], []]\<rparr>, m_rootInfo = None, m_config = c,
     m_currentDesktopOffset = \<lparr>pointX = 0, pointY = 0\<rparr>, s_loadingDesktopSettings = False, signals = []\<rparr>"

inductive vdm_step :: "vd_env \<Rightarrow> vdm \<Rightarrow> vdm \<Rightarrow> bool" for V where
  step_create: "createVirtualDesktop V p n s = Some (r, s') \<Longrightarrow> vdm_step V s s'"
| step_remove: "d \<in> set (m_desktops s) \<Longrightarrow> removeVirtualDesktop V d s = Some s' \<Longrightarrow> vdm_step V s s'"
| step_removeId: "removeVirtualDesktopId V i s = Some s' \<Longrightarrow> vdm_step V s s'"
| step_setCount: "setCount V k s = Some s' \<Longrightarrow> vdm_step V s s'"
| step_setRows: "setRows V k s = Some s' \<Longrightarrow> vdm_step V s s'"
| step_setCurrent: "d \<in> set (m_desktops s) \<Longrightarrow> setCurrent d s = (b, s') \<Longrightarrow> vdm_step V s s'"
| step_setCurrentId: "setCurrentId k s = Some (b, s') \<Longrightarrow> vdm_step V s s'"
| step_move: "slotMove dir s = Some s' \<Longrightarrow> vdm_step V s s'"
| step_gesture: "vdm_step V s (s\<lparr>m_currentDesktopOffset := q\<rparr>)"
| step_releasedY: "gestureReleasedY s = Some s' \<Longrightarrow> vdm_step V s s'"
| step_releasedX: "gestureReleasedX s = Some s' \<Longrightarrow> vdm_step V s s'"
| step_wrap: "vdm_step V s (setNavigationWrappingAround b s)"
| step_setRootInfo: "saneRoot info \<Longrightarrow> setRootInfo V info s = Some s' \<Longrightarrow> vdm_step V s s'"
| step_rename: "d \<in> set (m_desktops s) \<Longrightarrow> vdm_step V s (renameDesktop d n s)"
| step_save: "vdm_step V s (save V s)"
| step_load: "load V legacy s = Some s' \<Longrightarrow> m_config s \<noteq> None \<Longrightarrow> vdm_step V s s'"

inductive vdm_reachable :: "vd_env \<Rightarrow> vdm \<Rightarrow> bool" for V where
  start_count: "setCount V k (vdm_init c) = Some s \<Longrightarrow> vdm_reachable V s"
| start_load: "load V legacy (vdm_init (Some m)) = Some s \<Longrightarrow> vdm_reachable V s"
| reach_step: "vdm_reachable V s \<Longrightarrow> vdm_step V s s' \<Longrightarrow> vdm_reachable V s'"

inductive_cases vdm_stepE: "vdm_step V s s'"

section \<open>Preservation by the remaining operations\<close>

lemma setCurrent_inv:
  "vdm_inv s \<Longrightarrow> d \<in> set (m_desktops s) \<Longrightarrow> vdm_inv (snd (setCurrent d s))"
  by (auto simp: setCurrent_def vdm_inv_def listInv_def numbered_def vcount_def desktopNumber_def emit_def)

lemma setCurrentId_inv:
  assumes "vdm_inv s" "setCurrentId k s = Some (b, s')"
  shows "vdm_inv s'"
proof (cases "k < 1 \<or> k > vcount s")
  case True
  then show ?thesis using assms by (simp add: setCurrentId_def)
next
  case False
  then have "m_desktops s ! (k - 1) \<in> set (m_desktops s)" by (intro nth_mem) (simp add: vcount_def, linarith)
  then have "vdm_inv (snd (setCurrent (m_desktops s ! (k - 1)) s))" by (rule setCurrent_inv[OF assms(1)])
  then show ?thesis using assms(2) False by (auto simp: setCurrentId_def desktopForX11Id_def)
qed

lemma moveTo_inv:
  assumes "vdm_inv s" "moveTo dir wrap s = Some s'"
  shows "vdm_inv s'"
proof -
  have "m_current s \<noteq> None"
  proof
    assume "m_current s = None"
    then have "inDirection s None dir wrap = None"
      by (cases dir) (auto simp: inDirection_def above_def below_def toRight_def toLeft_def
          nextDesktop_def previousDesktop_def startDesktop_def)
    then show False using assms(2) by (simp add: moveTo_def)
  qed
  then obtain c where c: "m_current s = Some c" by auto
  obtain e where "e \<in> set (m_desktops s)" "inDirection s (Some c) dir wrap = Some e"
    using inDirection_desktop[OF assms(1) c current_desktop[OF assms(1) c]] by blast
  then show ?thesis using assms setCurrent_inv[OF assms(1)] inDirection_None[OF c]
    by (auto simp: moveTo_def)
qed

lemma finishGesture_inv: "vdm_inv s \<Longrightarrow> d \<in> set (m_desktops s) \<Longrightarrow> vdm_inv (finishGesture d s)"
  using setCurrent_inv[of s d] by (simp add: finishGesture_def)

lemma gestureReleased_inv:
  assumes "vdm_inv s" "gestureReleasedY s = Some s' \<or> gestureReleasedX s = Some s'"
  shows "vdm_inv s'"
proof -
  obtain c where c: "m_current s = Some c" using assms(2)
    by (cases "m_current s") (auto simp: gestureReleasedY_def gestureReleasedX_def above_def below_def
        toLeft_def toRight_def startDesktop_def Let_def split: if_splits)
  note mem = current_desktop[OF assms(1) c]
  have *: "e \<in> set (m_desktops s)"
    if "inDirection s (Some c) dir wrap = Some e" for dir wrap e
    using inDirection_desktop[OF assms(1) c mem, of dir wrap] that by auto
  show ?thesis
    using assms(2) c mem *[of Up] *[of Down] *[of DLeft] *[of DRight] finishGesture_inv[OF assms(1)]
    by (auto simp: gestureReleasedY_def gestureReleasedX_def inDirection_def Let_def bind_eq_Some_conv split: if_splits)
qed

lemma fold_rootNames_frame:
  "\<exists>x. fold (\<lambda>d s. emit (RootSetDesktopName (m_x11DesktopNumber (heap s d)) (m_name (heap s d))) s) ds r = r\<lparr>signals := x\<rparr>"
proof (induction ds arbitrary: r)
  case Nil
  show ?case by (intro exI[of _ "signals r"]) simp
next
  case (Cons d ds)
  show ?case using Cons[of "emit (RootSetDesktopName (m_x11DesktopNumber (heap r d)) (m_name (heap r d))) r"]
    by (auto simp: emit_def)
qed

lemma columns_bounds:
  assumes "vdm_inv s" "columnsFor s = Some c"
  shows "0 \<le> c \<and> c \<le> 20"
proof -
  let ?n = "vcount s" and ?r = "m_rows s"
  have n: "?n \<le> 20" "0 < ?r" using assms by (auto simp: vdm_inv_def listInv_def maximum_def)
  have "?n div ?r + (if ?n mod ?r > 0 then 1 else 0) \<le> ?n"
  proof (cases "?r = 1 \<or> ?n = 0")
    case False
    then have "?n div ?r < ?n" using n(2) by (intro div_less_dividend) auto
    then show ?thesis by auto
  qed auto
  then have "int (?n div ?r) + (if ?n mod ?r > 0 then 1 else 0) \<le> 20" using n(1) by (auto split: if_splits)
  then show ?thesis using assms(2) n by (auto simp: columnsFor_def split: if_splits simp del: div_le_dividend)
qed

lemma setRootInfo_inv:
  assumes "saneEnv V" "saneRoot info" "vdm_inv s" "setRootInfo V info s = Some s'"
  shows "vdm_inv s'"
proof (cases info)
  case None
  then show ?thesis using assms by (auto simp: setRootInfo_def vdm_inv_def listInv_def numbered_def vcount_def desktopNumber_def)
next
  case (Some ri)
  define s1 where "s1 = s\<lparr>m_rootInfo := info\<rparr>"
  have inv1: "vdm_inv s1" using assms(2,3)
    by (auto simp: s1_def vdm_inv_def listInv_def numbered_def vcount_def desktopNumber_def)
  obtain c where c: "columnsFor s1 = Some c" using assms(4) Some
    by (cases "columnsFor s1") (auto simp: setRootInfo_def s1_def Let_def)
  have cb: "0 \<le> c" "c \<le> 20" using columns_bounds[OF inv1 c] by auto
  define s2 where "s2 = rootSetLayout V c s1"
  have "listInv s2" "1 \<le> vcount s2"
    using inv1 cb assms(1,2) Some
    by (auto simp: s2_def rootSetLayout_def s1_def emit_def vdm_inv_def listInv_def numbered_def vcount_def
        desktopNumber_def saneEnv_def)
  from updateRootInfo_inv[OF this] obtain r g e where u: "updateRootInfo s2 = Some (s2\<lparr>m_rows := r, m_grid := g, signals := e\<rparr>)"
    "vdm_inv (s2\<lparr>m_rows := r, m_grid := g, signals := e\<rparr>)" by blast
  define s3 where "s3 = s2\<lparr>m_rows := r, m_grid := g, signals := e\<rparr>"
  have e: "setRootInfo V info s = do { cur \<leftarrow> m_current s3;
      let s = emit (RootSetCurrentDesktop (m_x11DesktopNumber (heap s3 cur))) s3;
      Some (fold (\<lambda>d s. emit (RootSetDesktopName (m_x11DesktopNumber (heap s d)) (m_name (heap s d))) s)
         (m_desktops s) s) }"
    using c u(1) option.discI[OF Some]
    by (simp add: setRootInfo_def s1_def[symmetric] s2_def[symmetric] s3_def[symmetric] Let_def del: not_None_eq)
  obtain cur where cur: "m_current s3 = Some cur" using assms(4) e
    by (cases "m_current s3") auto
  define s4 where "s4 = emit (RootSetCurrentDesktop (m_x11DesktopNumber (heap s3 cur))) s3"
  obtain x where x: "fold (\<lambda>d s. emit (RootSetDesktopName (m_x11DesktopNumber (heap s d)) (m_name (heap s d))) s)
      (m_desktops s4) s4 = s4\<lparr>signals := x\<rparr>" using fold_rootNames_frame by blast
  have "s' = s4\<lparr>signals := x\<rparr>"
    using assms(4) cur x by (simp add: e s4_def[symmetric] Let_def)
  then show ?thesis using u(2) by (simp add: s4_def s3_def)
qed

lemma renameDesktop_inv: "vdm_inv s \<Longrightarrow> vdm_inv (renameDesktop d n s)"
proof -
  assume inv: "vdm_inv s"
  obtain x where "renameDesktop d n s = s\<lparr>heap := (heap s)(d := (heap s d)\<lparr>m_name := n\<rparr>), signals := x\<rparr>"
    using renameDesktop_frame by blast
  then show ?thesis using vdm_inv_heap[OF inv] by auto
qed

lemma loadDesktop_inv:
  assumes "vdm_inv s" "loadDesktop V m i s = Some s'"
  shows "vdm_inv s' \<and> vcount s' = vcount s"
proof -
  let ?n = "readStr m (CfgName i) (defaultName V i)"
  define s1 where "s1 = rootCall (RootSetDesktopName i ?n) s"
  obtain d where d: "atIdx (m_desktops s1) (i - 1) = Some d"
    using assms(2) by (cases "atIdx (m_desktops s1) (i - 1)") (auto simp: loadDesktop_def Let_def s1_def)
  define s2 where "s2 = renameDesktop d ?n s1"
  have inv2: "vdm_inv s2" using assms(1) by (simp add: s2_def s1_def renameDesktop_inv)
  obtain y where y: "s2 = s1\<lparr>heap := (heap s1)(d := (heap s1 d)\<lparr>m_name := ?n\<rparr>), signals := y\<rparr>"
    unfolding s2_def using renameDesktop_frame by blast
  have cnt: "vcount s2 = vcount s" by (simp add: y s1_def vcount_def rootCall_def emit_def)
  have *: "vdm_inv (s2\<lparr>heap := (heap s2)(d := (heap s2 d)\<lparr>m_id := j\<rparr>)\<rparr>)" for j
    using vdm_inv_heap[OF inv2, of "(heap s2)(d := (heap s2 d)\<lparr>m_id := j\<rparr>)" "signals s2"] by simp
  have "s' = s2 \<or> (\<exists>j. s' = s2\<lparr>heap := (heap s2)(d := (heap s2 d)\<lparr>m_id := j\<rparr>)\<rparr>)"
    using assms(2) unfolding loadDesktop_def Let_def s1_def[symmetric] d
    by (auto simp: s2_def[symmetric] setId_def split: if_splits)
  then show ?thesis using inv2 * cnt by (auto simp: vcount_def)
qed

lemma loadDesktops_inv:
  "vdm_inv s \<Longrightarrow> loadDesktops V m is s = Some s' \<Longrightarrow> vdm_inv s' \<and> vcount s' = vcount s"
proof (induction "is" arbitrary: s)
  case (Cons i "is")
  then obtain s1 where "loadDesktop V m i s = Some s1" "loadDesktops V m is s1 = Some s'"
    by (auto simp: bind_eq_Some_conv)
  then show ?case using Cons loadDesktop_inv by metis
qed simp

lemma load_inv:
  assumes "listInv s" "vcount s = 0 \<or> vdm_inv s" "load V legacy s = Some s'" "m_config s = Some m0"
  shows "vdm_inv s'"
proof -
  define m where "m = (case legacy of None \<Rightarrow> m0
           | Some (num, ids) \<Rightarrow> writeEntry CfgNumber (CfgInt (case num of None \<Rightarrow> ids | Some k \<Rightarrow> k)) m0)"
  define s0 where "s0 = s\<lparr>s_loadingDesktopSettings := True, m_config := Some m\<rparr>"
  have s0: "listInv s0" "vcount s0 = 0 \<or> vdm_inv s0" using assms(1,2) by (auto simp: s0_def vcount_def)
  obtain s1 where s1: "setCount V (int_to_uint (readInt m CfgNumber 2)) s0 = Some s1" "vdm_inv s1"
    using setCount_spec[OF s0] by blast
  have e: "load V legacy s = do {
       s \<leftarrow> loadDesktops V m [1 .. readInt m CfgNumber 2] s1;
       assertThat (1 \<le> readInt m CfgNumber 2);
       Some (s\<lparr>m_rows := nat (max 1 (min (readInt m CfgRows 2) (readInt m CfgNumber 2))), s_loadingDesktopSettings := False\<rparr>) }"
    using assms(4) s1(1) by (simp add: load_def Let_def m_def[symmetric] s0_def)
  then obtain s2 where s2: "loadDesktops V m [1 .. readInt m CfgNumber 2] s1 = Some s2"
    "s' = s2\<lparr>m_rows := nat (max 1 (min (readInt m CfgRows 2) (readInt m CfgNumber 2))), s_loadingDesktopSettings := False\<rparr>"
    using assms(3)[unfolded e] by (auto simp: bind_eq_Some_conv)
  have "vdm_inv s2" using loadDesktops_inv[OF s1(2) s2(1)] by simp
  then show ?thesis by (simp add: s2(2) vdm_inv_def listInv_def numbered_def vcount_def desktopNumber_def)
qed

lemma vdm_init_list: "listInv (vdm_init c)" "vcount (vdm_init c) = 0"
  by (simp_all add: vdm_init_def listInv_def numbered_def vcount_def saneRoot_def)

lemma removeVirtualDesktop_inv:
  assumes "vdm_inv s" "d \<in> set (m_desktops s)" "removeVirtualDesktop V d s = Some s'"
  shows "vdm_inv s'"
proof (cases "vcount s = 1")
  case True
  then show ?thesis using assms by (simp add: removeVirtualDesktop_def)
next
  case False
  have "m_current s \<noteq> None"
  proof
    assume "m_current s = None"
    then show False using assms(3) False by (simp add: removeVirtualDesktop_def)
  qed
  then show ?thesis using remove_spec[OF assms(1,2) False, of _ V] assms(3) by auto
qed

lemma desktopForId_mem: "desktopForId s i = Some d \<Longrightarrow> d \<in> set (m_desktops s) \<and> m_id (heap s d) = i"
  by (auto simp: desktopForId_def find_Some_iff)

lemma vdm_step_inv:
  assumes "saneEnv V" "vdm_step V s s'" "vdm_inv s"
  shows "vdm_inv s'"
  using assms(2)
proof (cases rule: vdm_step.cases)
  case (step_create p n r)
  then show ?thesis using create_spec[OF assms(3), of V p n] assms(3)
    by (cases "vcount s = maximum") (auto simp: createVirtualDesktop_def vdm_inv_def listInv_def)
next
  case (step_remove d)
  then show ?thesis using removeVirtualDesktop_inv[OF assms(3)] by blast
next
  case (step_removeId i)
  then show ?thesis using removeVirtualDesktop_inv[OF assms(3)] assms(3)
    by (auto simp: removeVirtualDesktopId_def dest: desktopForId_mem split: option.splits)
next
  case (step_setCount k)
  then show ?thesis using setCount_spec[of s V k] assms(3) vdm_invD(1)[OF assms(3)] by auto
next
  case (step_setRows k)
  then show ?thesis using setRows_inv[OF assms(1,3), of k] by auto
next
  case (step_setCurrent d b)
  then show ?thesis using setCurrent_inv[OF assms(3), of d] by simp
next
  case (step_setCurrentId k b)
  then show ?thesis using setCurrentId_inv[OF assms(3)] by blast
next
  case (step_move dir)
  then show ?thesis using moveTo_inv[OF assms(3)] by (simp add: slotMove_def)
next
  case step_releasedY
  then show ?thesis using gestureReleased_inv[OF assms(3)] by blast
next
  case step_releasedX
  then show ?thesis using gestureReleased_inv[OF assms(3)] by blast
next
  case (step_setRootInfo info)
  then show ?thesis using setRootInfo_inv[OF assms(1) _ assms(3)] by blast
next
  case (step_load legacy)
  then show ?thesis using load_inv[OF vdm_invD(1)[OF assms(3)]] assms(3) by auto
qed (use assms(3) in \<open>auto simp: setNavigationWrappingAround_def renameDesktop_inv\<close>)

lemma vdm_reachable_inv:
  assumes "saneEnv V"
  shows "vdm_reachable V s \<Longrightarrow> vdm_inv s"
proof (induction rule: vdm_reachable.induct)
  case (start_count k c s)
  then show ?case using setCount_spec[of "vdm_init c" V k] vdm_init_list[of c] by auto
next
  case (start_load legacy m s)
  then show ?case using load_inv[OF vdm_init_list(1) disjI1[OF vdm_init_list(2)]] by (simp add: vdm_init_def)
next
  case (reach_step s s')
  then show ?case using vdm_step_inv[OF assms] by blast
qed

section \<open>The layout without a root window\<close>

lemma ceil_div:
  assumes "0 < r" "1 \<le> w" "n \<le> w * r" "(w - 1) * r < n"
  shows "(n + r - 1) div r = (w :: nat)"
proof (rule div_nat_eqI)
  have "w * r = (w - 1) * r + r" using assms(2) by (simp add: algebra_simps flip: mult_Suc)
  then show "r * w \<le> n + r - 1" using assms(4) by (simp add: mult.commute)
  show "n + r - 1 < r * Suc w" using assms(1,3) by (simp add: mult.commute)
qed

lemma updateLayout_rows:
  assumes "vdm_inv s" "m_rootInfo s = None" "m_rows s \<le> vcount s"
  shows "\<exists>e. updateLayout s = Some (s\<lparr>m_rows := m_rows s, m_grid := gridUpdate
      (int ((vcount s + m_rows s - 1) div m_rows s)) (int (m_rows s)) Horizontal (m_desktops s), signals := e\<rparr>)"
proof -
  let ?n = "vcount s" and ?r = "m_rows s"
  have n: "1 \<le> ?n" "?n \<le> 20" "1 \<le> ?r" "?r \<le> 20"
    using assms by (auto simp: vdm_inv_def listInv_def maximum_def)
  define w where "w = ?n div ?r"
  have w: "1 \<le> w" "w \<le> 20" "w * ?r \<le> ?n"
    using n assms(3) le_trans[OF div_le_dividend[of ?n ?r] n(2)]
    by (simp_all add: w_def Suc_le_eq div_greater_zero_iff del: div_le_dividend)
  obtain w' where g: "growLayout Horizontal ?n w ?r = Some (w', ?r)" "?n \<le> w' * ?r" "w \<le> w'" "w' < 2 ^ 16"
    "w < w' \<longrightarrow> (w' - 1) * ?r < ?n"
    using growLayout_horizontal[of ?r w ?n] n w by auto
  have "(w' - 1) * ?r < ?n"
  proof (cases "w < w'")
    case False
    then have "w' = w" using g(3) by simp
    moreover have "(w - 1) * ?r < w * ?r" using w(1) n(3) by (intro mult_strict_right_mono) auto
    ultimately show ?thesis using w(3) by (metis order.strict_trans2)
  qed (use g(5) in simp)
  then have ceil: "(?n + ?r - 1) div ?r = w'" using ceil_div[of ?r w' ?n] n(3) w(1) g(2,3) by simp
  have c: "uint_to_int w = int w" "int_to_uint (int w) = w" using w(2) by (simp_all add: uint_to_int_small)
  have one: "w = 1 \<and> ?r = 1" if "?n = 1" using that assms(3) n by (simp add: w_def)
  have "updateLayout s = setNETDesktopLayout Horizontal w ?r (s\<lparr>m_rows := ?r\<rparr>)"
    using assms(2,3) n w c one by (cases "?n = 1") (simp_all add: updateLayout_def w_def[symmetric] Let_def min_def int_to_uint_def)
  also have "\<dots> = Some (emit (RowsChanged ?r) (emit (LayoutChanged (uint_to_int w') (uint_to_int ?r))
       (s\<lparr>m_rows := ?r, m_grid := gridUpdate (uint_to_int w') (uint_to_int ?r) Horizontal (m_desktops s)\<rparr>)))"
    using w n g(1) by (simp add: setNETDesktopLayout_def vcount_def)
  finally show ?thesis
    using g(4) n(4) ceil by (auto simp: emit_def uint_to_int_small)
qed

section \<open>The signals of a change of the current desktop\<close>

definition curSignals :: "vdm \<Rightarrow> vd_signal list" where
  "curSignals s = filter (\<lambda>e. case e of CurrentChanged _ _ \<Rightarrow> True | _ \<Rightarrow> False) (signals s)"

lemma curSignals_update [simp]:
  "curSignals (s\<lparr>m_rows := r\<rparr>) = curSignals s" "curSignals (s\<lparr>m_grid := g\<rparr>) = curSignals s"
  "curSignals (s\<lparr>heap := h\<rparr>) = curSignals s" "curSignals (s\<lparr>m_desktops := ds\<rparr>) = curSignals s"
  "curSignals (s\<lparr>m_current := c\<rparr>) = curSignals s" "curSignals (s\<lparr>m_config := cf\<rparr>) = curSignals s"
  by (simp_all add: curSignals_def)

lemma curSignals_emit [simp]:
  "curSignals (emit e s) = curSignals s @ (case e of CurrentChanged a b \<Rightarrow> [CurrentChanged a b] | _ \<Rightarrow> [])"
  by (simp add: curSignals_def emit_def split: vd_signal.split)

lemma curSignals_rootName [simp]: "curSignals (rootCall (RootSetDesktopName i n) s) = curSignals s"
  by (simp add: rootCall_def)

lemma curSignals_setX11 [simp]: "curSignals (setX11DesktopNumber d n s) = curSignals s"
  by (simp add: setX11DesktopNumber_def Let_def)

lemma curSignals_renumber [simp]: "curSignals (renumberFrom j s) = curSignals s"
proof -
  have "curSignals (fold (renumberOne s0) js r) = curSignals r" for s0 js r
    by (induction js arbitrary: r) (simp_all add: renumberOne_def Let_def)
  then show ?thesis by (simp add: renumberFrom_def)
qed

lemma curSignals_save [simp]: "curSignals (save V s) = curSignals s"
proof -
  have one: "curSignals (snd (saveDesktop V d ms)) = curSignals (snd ms)" for d ms
    by (cases ms) (simp add: saveDesktop_def Let_def)
  have "curSignals (snd (fold (saveDesktop V) ds ms)) = curSignals (snd ms)" for ds ms
    by (induction ds arbitrary: ms) (simp_all add: one)
  from this[of "m_desktops s"] show ?thesis
    by (simp add: save_def split_def Let_def split: option.split)
qed

lemma curSignals_setNET: "setNETDesktopLayout orient w h s = Some s' \<Longrightarrow> curSignals s' = curSignals s"
  by (auto simp: setNETDesktopLayout_def bind_eq_Some_conv Let_def split_def split: if_splits)

lemma curSignals_updateLayout: "updateLayout s = Some s' \<Longrightarrow> curSignals s' = curSignals s"
  by (auto simp: updateLayout_def bind_eq_Some_conv Let_def split_def dest!: curSignals_setNET)

lemma curSignals_updateRootInfo: "updateRootInfo s = Some s' \<Longrightarrow> curSignals s' = curSignals s"
  by (auto simp: updateRootInfo_def dest!: curSignals_updateLayout split: if_splits)

lemma curSignals_remove:
  assumes "vdm_inv s" "d \<in> set (m_desktops s)" "m_current s = Some c" "removeVirtualDesktop V d s = Some s'" "vcount s \<noteq> 1"
  shows "curSignals s' = curSignals s @ (if nat (desktopNumber s c) = vcount s
    then [CurrentChanged (vcount s) (vcount s - 1)] else [])"
proof -
  have inv: "listInv s" using assms(1) vdm_invD by blast
  have n: "vcount s \<le> 20" "2 \<le> vcount s" using assms(1,5) by (auto simp: vdm_inv_def listInv_def maximum_def)
  obtain k where k: "k < vcount s" "c = m_desktops s ! k"
    using current_desktop[OF assms(1,3)] by (auto simp: in_set_conv_nth vcount_def)
  have dk: "desktopNumber s c = int k + 1" using listInv_nth[OF inv k(1)] k by simp
  then have num: "int_to_uint (m_x11DesktopNumber (heap s c)) = Suc k"
    using k n by (simp add: desktopNumber_def int_to_uint_def)
  obtain i where i: "i < vcount s" "int_to_uint (m_x11DesktopNumber (heap s d) - 1) = i"
  proof -
    obtain j where "j < vcount s" "d = m_desktops s ! j" using assms(2) by (auto simp: in_set_conv_nth vcount_def)
    then show ?thesis using that[of j] listInv_nth[OF inv, of j] n by (simp add: desktopNumber_def int_to_uint_def)
  qed
  let ?s1 = "renumberFrom i (s\<lparr>m_desktops := take i (m_desktops s) @ drop (Suc i) (m_desktops s)\<rparr>)"
  have cnt: "vcount ?s1 = vcount s - 1"
  proof -
    have "vcount (renumberFrom i r) = vcount r" for r
    proof -
      have *: "m_desktops (setX11DesktopNumber e m q) = m_desktops q" for e m q
        by (simp add: setX11DesktopNumber_def Let_def emit_def)
      have "m_desktops (fold (renumberOne s0) js q) = m_desktops q" for s0 js q
        by (induction js arbitrary: q) (simp_all add: renumberOne_def Let_def rootCall_def emit_def *)
      then show ?thesis by (simp add: renumberFrom_def vcount_def)
    qed
    then show ?thesis using i(1) by (simp add: vcount_def)
  qed
  obtain c' s2 where s2: "updateRootInfo (if Suc k \<noteq> min (Suc k) (vcount ?s1)
        then emit (CurrentChanged (Suc k) (min (Suc k) (vcount ?s1))) (?s1\<lparr>m_current := Some c'\<rparr>)
        else ?s1\<lparr>m_current := Some c'\<rparr>) = Some s2"
    "curSignals s' = curSignals s2"
    using assms(4) unfolding removeVirtualDesktop_eq[OF assms(5,3) num i(2,1)]
    by (auto simp: bind_eq_Some_conv Let_def)
  have "curSignals s2 = curSignals s @ (if Suc k \<noteq> min (Suc k) (vcount s - 1)
      then [CurrentChanged (Suc k) (min (Suc k) (vcount s - 1))] else [])"
    using curSignals_updateRootInfo[OF s2(1)] by (simp add: cnt)
  moreover have "Suc k \<noteq> min (Suc k) (vcount s - 1) \<longleftrightarrow> Suc k = vcount s" using k(1) n by auto
  moreover have "nat (desktopNumber s c) = Suc k" using dk by simp
  ultimately show ?thesis using s2(2) by auto
qed

section \<open>Loading fails outside the range\<close>

lemma loadDesktops_out_of_range:
  "vdm_inv s \<Longrightarrow> i \<in> set is \<Longrightarrow> i > int (vcount s) \<Longrightarrow> loadDesktops V m is s = None"
proof (induction "is" arbitrary: s)
  case (Cons j "is")
  show ?case
  proof (cases "loadDesktop V m j s")
    case (Some s1)
    have "j \<noteq> i"
    proof
      assume "j = i"
      moreover have "m_desktops (rootCall e s) = m_desktops s" for e by (simp add: rootCall_def emit_def)
      ultimately have "loadDesktop V m j s = None" using Cons.prems(3)
        by (simp add: loadDesktop_def Let_def atIdx_def vcount_def)
      then show False using Some by simp
    qed
    then show ?thesis using Some Cons loadDesktop_inv[OF Cons.prems(1) Some] by simp
  qed simp
qed simp

section \<open>Properties\<close>

text \<open>A concrete manager for the witnesses: four desktops, the second one current, no root info.\<close>

definition demo_vd_env :: vd_env where
  "demo_vd_env = \<lparr>defaultName = (\<lambda>i. if i = 1 then ''Desktop 1'' else ''Desktop n''),
     generateDesktopId = (\<lambda>d. replicate (Suc d) (CHR ''x'')), rootinfoSetLayout = (\<lambda>_ _ _ ri. ri)\<rparr>"

definition demo_four :: vdm where "demo_four = the (setCount demo_vd_env 4 (vdm_init (Some [])))"

definition demo_vdm :: vdm where "demo_vdm = snd (setCurrent (m_desktops demo_four ! 1) demo_four)"

lemma demo_saneEnv: "saneEnv demo_vd_env"
  by (simp add: saneEnv_def demo_vd_env_def)

lemma demo_four: "setCount demo_vd_env 4 (vdm_init (Some [])) = Some demo_four" "vcount demo_four = 4"
  "\<not> s_loadingDesktopSettings demo_four"
  using setCount_spec[of "vdm_init (Some [])" demo_vd_env 4] vdm_init_list[of "Some []"]
  by (auto simp: demo_four_def clampCount_def maximum_def vdm_init_def)

lemma demo_mem: "m_desktops demo_four ! 1 \<in> set (m_desktops demo_four)"
  using demo_four(2) by (intro nth_mem) (simp add: vcount_def)

lemma demo_reachable: "vdm_reachable demo_vd_env demo_vdm"
proof (rule vdm_reachable.reach_step)
  show "vdm_reachable demo_vd_env demo_four" by (rule vdm_reachable.start_count[OF demo_four(1)])
  show "vdm_step demo_vd_env demo_four demo_vdm"
    unfolding demo_vdm_def by (rule step_setCurrent[OF demo_mem]) (rule surjective_pairing)
qed

lemma demo_vdm: "vdm_inv demo_vdm" "vcount demo_vdm = 4" "m_current demo_vdm = Some (m_desktops demo_vdm ! 1)"
  "m_desktops demo_vdm ! 1 \<in> set (m_desktops demo_vdm)" "m_desktops demo_vdm ! 0 \<in> set (m_desktops demo_vdm)"
  using vdm_reachable_inv[OF demo_saneEnv demo_reachable] demo_four(2) demo_mem
  by (auto simp: demo_vdm_def setCurrent_def emit_def vcount_def)

text \<open>Three desktops in one row, written out.\<close>

definition demo_row :: vdm where
  "demo_row = (vdm_init (Some []))\<lparr>heap := (\<lambda>d. \<lparr>m_id = replicate (Suc d) (CHR ''i''), m_name = ''Desk'',
       m_x11DesktopNumber = int d + 1\<rparr>),
     nextPtr := 3, m_desktops := [0, 1, 2], m_current := Some 1, m_rows := 1,
     m_grid := \<lparr>gridW = 3, gridH = 1, cells = [[0, 1, 2]]\<rparr>\<rparr>"

lemma demo_row: "vdm_inv demo_row" "m_rootInfo demo_row = None" "m_desktops demo_row = [0, 1, 2]"
  "vcount demo_row = 3" "m_rows demo_row = 1" "m_current demo_row = Some 1" "m_config demo_row = Some []"
  "\<not> s_loadingDesktopSettings demo_row"
  by (simp_all add: demo_row_def vdm_init_def vdm_inv_def listInv_def numbered_def vcount_def desktopNumber_def
      maximum_def saneRoot_def gridOK_def gridShape_def less_Suc_eq numeral_3_eq_3 numeral_2_eq_2)

lemma demo_row_heap: "m_id (heap demo_row 2) = ''iii''" "m_name (heap demo_row d) = ''Desk''"
  by (simp_all add: demo_row_def numeral_2_eq_2)



text \<open>C8: In every direction, with and without wrapping, navigation from an existing desktop ends at an
  existing desktop (the loops terminate), and with wrapping the opposite direction leads back.\<close>

theorem vdm_navigation:
  assumes "vdm_inv s" "m_current s = Some c" "d \<in> set (m_desktops s)"
  shows "(\<exists>e \<in> set (m_desktops s). inDirection s (Some d) dir wrap = Some e) \<and>
    (inDirection s (Some d) dir True \<bind> (\<lambda>e. inDirection s (Some e) (opposite dir) True)) = Some d"
  using inDirection_desktop[OF assms] inDirection_opposite[OF assms] by blast

theorem vdm_navigation_witness:
  "(inDirection demo_vdm (Some (m_desktops demo_vdm ! 0)) DRight True \<bind>
      (\<lambda>e. inDirection demo_vdm (Some e) DLeft True)) = Some (m_desktops demo_vdm ! 0)"
  using vdm_navigation[OF demo_vdm(1,3,5), of DRight] by (simp add: opposite_def)

text \<open>Creating a desktop when there are fewer than 20 inserts a new one at the given position, or at
  the end for a larger position; it has the given name, or the default name for that number; the other
  desktops keep their order, names and ids, the current one stays, and all are numbered by position
  again.\<close>

theorem vdm_create_inserts:
  assumes "vdm_inv s" "vcount s < maximum"
  shows "\<exists>s'. createVirtualDesktop V position name s = Some (Some (nextPtr s), s') \<and> vdm_inv s' \<and>
    m_desktops s' = list_insert (min position (vcount s)) (nextPtr s) (m_desktops s) \<and>
    m_current s' = m_current s \<and>
    m_name (heap s' (nextPtr s)) = (if name = [] then defaultName V (int (min position (vcount s)) + 1) else name) \<and>
    (\<forall>d \<in> set (m_desktops s). m_id (heap s' d) = m_id (heap s d) \<and> m_name (heap s' d) = m_name (heap s d))"
  by (rule create_spec[OF assms])

theorem vdm_create_inserts_witness:
  "\<exists>s'. createVirtualDesktop demo_vd_env 1 ''Work'' demo_vdm = Some (Some (nextPtr demo_vdm), s') \<and>
    m_desktops s' = list_insert 1 (nextPtr demo_vdm) (m_desktops demo_vdm)"
  using vdm_create_inserts[of demo_vdm demo_vd_env 1 "''Work''"] demo_vdm(1,2) by (auto simp: maximum_def)

text \<open>Removing one of several desktops deletes exactly it, keeps the order, names and ids of the
  others, renumbers them by position, and makes current the desktop that now has the old current number,
  or the last one.\<close>

theorem vdm_remove_deletes:
  assumes "vdm_inv s" "d \<in> set (m_desktops s)" "vcount s \<noteq> 1" "m_current s = Some c"
  shows "\<exists>s'. removeVirtualDesktop V d s = Some s' \<and> vdm_inv s' \<and>
    m_desktops s' = removeAll d (m_desktops s) \<and>
    m_current s' = Some (m_desktops s' ! (min (nat (desktopNumber s c)) (vcount s') - 1)) \<and>
    (\<forall>e. m_id (heap s' e) = m_id (heap s e) \<and> m_name (heap s' e) = m_name (heap s e))"
  by (rule remove_spec[OF assms])

theorem vdm_remove_deletes_witness:
  "\<exists>s'. removeVirtualDesktop demo_vd_env (m_desktops demo_vdm ! 0) demo_vdm = Some s' \<and>
    m_desktops s' = removeAll (m_desktops demo_vdm ! 0) (m_desktops demo_vdm)"
  using vdm_remove_deletes[OF demo_vdm(1,5) _ demo_vdm(3), of demo_vd_env] demo_vdm(2) by auto

text \<open>C22: \<open>setCount\<close> always returns; afterwards there are as many desktops as asked for, at least 1 and at
  most 20, and the desktops that stay are the first ones, with their names and ids.\<close>

theorem vdm_setCount_clamps:
  assumes "vdm_inv s"
  shows "\<exists>s'. setCount V n s = Some s' \<and> vdm_inv s' \<and> vcount s' = max 1 (min n 20) \<and>
    take (vcount s) (m_desktops s') = take (vcount s') (m_desktops s) \<and>
    (\<forall>d \<in> set (take (vcount s') (m_desktops s)). m_id (heap s' d) = m_id (heap s d) \<and> m_name (heap s' d) = m_name (heap s d))"
proof -
  obtain s' where s': "setCount V n s = Some s'" "vdm_inv s'" "vcount s' = clampCount n"
    "take (vcount s) (m_desktops s') = take (clampCount n) (m_desktops s)"
    "keepsDesktops (take (clampCount n) (m_desktops s)) s s'"
    using setCount_spec[OF vdm_invD(1)[OF assms], of V n] assms by auto
  show ?thesis
    using s' by (intro exI[of _ s']) (simp add: keepsDesktops_def clampCount_def maximum_def)
qed

theorem vdm_setCount_clamps_witness:
  "\<exists>s'. setCount demo_vd_env 100 demo_vdm = Some s' \<and> vcount s' = 20"
  using vdm_setCount_clamps[OF demo_vdm(1), of demo_vd_env 100] by auto

text \<open>Without a root window, \<open>setRows\<close> lays the desktops out in exactly the given number of rows,
  in row-major order, with as few columns as hold them all.\<close>

theorem vdm_setRows_layout:
  assumes "vdm_inv s" "m_rootInfo s = None" "1 \<le> r" "r \<le> vcount s" "r \<noteq> m_rows s"
  shows "\<exists>s'. setRows V r s = Some s' \<and> m_rows s' = r \<and> gridH (m_grid s') = int r \<and>
    gridW (m_grid s') = int ((vcount s + r - 1) div r) \<and> concat (cells (m_grid s')) = m_desktops s"
proof -
  let ?s = "s\<lparr>m_rows := r\<rparr>"
  have inv: "vdm_inv ?s" using assms(1,3) by (simp add: vdm_inv_def listInv_rows vcount_def)
  have n: "vcount s \<le> 20" "r \<le> 20" using assms by (auto simp: vdm_inv_def listInv_def maximum_def)
  have w: "(vcount s + r - 1) div r < 2 ^ 31"
    by (rule le_less_trans[of _ 39]) (use n le_trans[OF div_le_dividend[of "vcount s + r - 1" r], of 39] in auto)
  have enough: "vcount s \<le> r * ((vcount s + r - 1) div r)"
    using dividend_less_times_div[of r "vcount s + r - 1"] assms(3) by linarith
  obtain e where "updateLayout ?s = Some (?s\<lparr>m_rows := r, m_grid := gridUpdate
      (int ((vcount s + r - 1) div r)) (int r) Horizontal (m_desktops s), signals := e\<rparr>)"
    using updateLayout_rows[OF inv] assms(2,4) by (auto simp: vcount_def)
  moreover have "setRows V r s = updateLayout ?s"
    using assms by (simp add: setRows_def columnsFor_def Let_def vcount_def)
  moreover have "concat (cells (gridUpdate (int ((vcount s + r - 1) div r)) (int r) Horizontal (m_desktops s))) = m_desktops s"
    using w n enough by (simp add: gridUpdate_def Let_def concat_fillRows vcount_def)
  ultimately show ?thesis using w n
    by (intro exI[of _ "?s\<lparr>m_rows := r, m_grid := gridUpdate
      (int ((vcount s + r - 1) div r)) (int r) Horizontal (m_desktops s), signals := e\<rparr>"]) (simp add: gridUpdate_def Let_def)
qed

theorem vdm_setRows_layout_witness:
  "\<exists>s'. setRows demo_vd_env 2 demo_row = Some s' \<and> gridW (m_grid s') = 2 \<and> concat (cells (m_grid s')) = [0, 1, 2]"
  using vdm_setRows_layout[of demo_row 2 demo_vd_env] demo_row by auto

text \<open>C9: What \<open>save\<close> wrote, \<open>load\<close> into a fresh manager brings back: as many desktops, in the same order,
  with the same names (the default name where there was none), the same ids, and the same rows; and no
  entry of a removed desktop is left right behind the last one.\<close>

theorem vdm_save_load_roundtrip:
  assumes "vdm_inv s" "\<not> s_loadingDesktopSettings s" "m_config s = Some m0"
    and "listInv t" "vcount t = 0" "m_config t = m_config (save V s)"
  shows "\<exists>t' m. load V None t = Some t' \<and> vcount t' = vcount s \<and> m_rows t' = min (m_rows s) (vcount s) \<and>
    m_config t = Some m \<and> map_of m (CfgId (int (vcount s) + 1)) = None \<and>
    (\<forall>i < vcount s. m_name (heap t' (m_desktops t' ! i)) = savedName V s (m_desktops s ! i) \<and>
      (m_id (heap s (m_desktops s ! i)) \<noteq> [] \<longrightarrow>
        m_id (heap t' (m_desktops t' ! i)) = m_id (heap s (m_desktops s ! i))))"
proof -
  obtain m where m: "m_config t = Some m" "map_of m CfgNumber = Some (CfgInt (int (vcount s)))"
    "map_of m CfgRows = Some (CfgInt (int (m_rows s)))" "map_of m (CfgId (int (vcount s) + 1)) = None"
    and d: "\<forall>i < vcount s. readStr m (CfgName (int i + 1)) (defaultName V (int i + 1)) = savedName V s (m_desktops s ! i) \<and>
       readStr m (CfgId (int i + 1)) [] = m_id (heap s (m_desktops s ! i))"
    using save_config[OF assms(1-3), of V] assms(6) by auto
  have n: "1 \<le> vcount s" "vcount s \<le> 20" "1 \<le> m_rows s" using assms(1) by (auto simp: vdm_inv_def listInv_def maximum_def)
  have r: "readInt m CfgNumber 2 = int (vcount s)" "readInt m CfgRows 2 = int (m_rows s)"
    using m by (simp_all add: readInt_def)
  obtain t' where t': "load V None t = Some t'" "int (vcount t') = readInt m CfgNumber 2"
    "m_rows t' = nat (max 1 (min (readInt m CfgRows 2) (readInt m CfgNumber 2)))"
    "\<forall>j < vcount t'. m_name (heap t' (m_desktops t' ! j)) = readStr m (CfgName (int j + 1)) (defaultName V (int j + 1)) \<and>
      m_id (heap t' (m_desktops t' ! j)) = (if readStr m (CfgId (int j + 1)) [] = []
        then generateDesktopId V (m_desktops t' ! j) else readStr m (CfgId (int j + 1)) [])"
    using load_spec[OF assms(4,5) m(1), of V] r n by auto
  have "m_rows t' = min (m_rows s) (vcount s)" using t'(3) r n by (auto simp: min_def max_def)
  then show ?thesis using t' m r d by (intro exI[of _ t'] exI[of _ m]) simp
qed

theorem vdm_save_load_roundtrip_witness:
  "\<exists>t'. load demo_vd_env None (vdm_init (m_config (save demo_vd_env demo_row))) = Some t' \<and> vcount t' = 3 \<and>
    m_name (heap t' (m_desktops t' ! 2)) = ''Desk'' \<and> m_id (heap t' (m_desktops t' ! 2)) = ''iii''"
proof -
  have "m_config (vdm_init (m_config (save demo_vd_env demo_row))) = m_config (save demo_vd_env demo_row)"
    by (simp add: vdm_init_def)
  from vdm_save_load_roundtrip[OF demo_row(1,8,7) vdm_init_list this]
  obtain t' where t': "load demo_vd_env None (vdm_init (m_config (save demo_vd_env demo_row))) = Some t'"
    "vcount t' = vcount demo_row" and names: "\<forall>i < vcount demo_row.
      m_name (heap t' (m_desktops t' ! i)) = savedName demo_vd_env demo_row (m_desktops demo_row ! i) \<and>
      (m_id (heap demo_row (m_desktops demo_row ! i)) \<noteq> [] \<longrightarrow>
        m_id (heap t' (m_desktops t' ! i)) = m_id (heap demo_row (m_desktops demo_row ! i)))"
    by (elim exE conjE) (rule that)
  have "(2::nat) < vcount demo_row" by (simp add: demo_row(4))
  from names[rule_format, OF this] show ?thesis
    using t' demo_row(3,4) by (simp add: savedName_def demo_row_heap)
qed

text \<open>Loading at start-up succeeds only if the configured number of desktops is between 1 and 20. A
  larger number is clamped by \<open>setCount\<close>, but the loop that follows runs up to the number in the file
  and indexes past the end of \<open>m_desktops\<close>; a number below 1 reaches \<open>std::clamp\<close> with an empty
  range.\<close>

theorem vdm_load_range:
  assumes "listInv s" "vcount s = 0" "m_config s = Some m" "readInt m CfgNumber 2 < 2 ^ 31"
  shows "load V None s \<noteq> None \<longleftrightarrow> 1 \<le> readInt m CfgNumber 2 \<and> readInt m CfgNumber 2 \<le> 20"
proof
  assume "1 \<le> readInt m CfgNumber 2 \<and> readInt m CfgNumber 2 \<le> 20"
  then show "load V None s \<noteq> None" using load_spec[OF assms(1-3), of V] by auto
next
  let ?n = "readInt m CfgNumber 2"
  assume some: "load V None s \<noteq> None"
  define s0 where "s0 = s\<lparr>s_loadingDesktopSettings := True, m_config := Some m\<rparr>"
  have s0: "listInv s0" "vcount s0 = 0" using assms(1,2) by (simp_all add: s0_def vcount_def)
  obtain s1 where s1: "setCount V (int_to_uint ?n) s0 = Some s1" "vdm_inv s1"
    using setCount_spec[OF s0(1) disjI1[OF s0(2)]] by blast
  have e: "load V None s = do { s \<leftarrow> loadDesktops V m [1 .. ?n] s1; assertThat (1 \<le> ?n);
       Some (s\<lparr>m_rows := nat (max 1 (min (readInt m CfgRows 2) ?n)), s_loadingDesktopSettings := False\<rparr>) }"
    using assms(3) s1(1) by (simp add: load_def Let_def s0_def)
  have "loadDesktops V m [1 .. ?n] s1 \<noteq> None"
    using some e by (cases "loadDesktops V m [1 .. ?n] s1") simp_all
  then have "?n \<notin> set [1 .. ?n] \<or> \<not> ?n > int (vcount s1)"
    using loadDesktops_out_of_range[OF s1(2), of ?n "[1 .. ?n]" V m] by auto
  then have "?n \<le> int (vcount s1) \<or> ?n < 1" by auto
  moreover have "vcount s1 \<le> 20" using s1(2) by (simp add: vdm_inv_def listInv_def maximum_def)
  moreover have "1 \<le> ?n"
  proof (rule ccontr)
    assume "\<not> 1 \<le> ?n"
    then show False using some e by simp
  qed
  ultimately show "1 \<le> ?n \<and> ?n \<le> 20" by linarith
qed

theorem vdm_load_range_witness:
  "load demo_vd_env None (vdm_init (Some [(CfgNumber, CfgInt 21)])) = None"
  using vdm_load_range[OF vdm_init_list, of "Some [(CfgNumber, CfgInt 21)]" "[(CfgNumber, CfgInt 21)]" demo_vd_env]
  by (simp add: readInt_def vdm_init_def)



end
