(* ===== verification/Stacking.thy ===== *)
theory Stacking
  imports Focus_Chain "HOL-Library.Monad_Syntax"
begin

text \<open>
  The stacking order of the workspace (\<open>src/src/layers.cpp\<close> and the constraint functions of
  \<open>src/src/workspace.cpp\<close>). Constraints are heap objects that point to each other, as in the
  code: \<open>m_constraints\<close> is the list of the live ones and \<open>constraintAt\<close> the heap. Operations
  return \<open>None\<close> where the code would index a list out of range, fail an assertion or not return.
  What the workspace asks of windows, groups, the split screen manager and X11 is the record
  \<open>stack_env\<close>; the calls to the X server are appended to \<open>xcalls\<close>.
\<close>

section \<open>State\<close>

type_synonym cid = nat
type_synonym xid = nat

record sconstraint =
  cbelow :: wid
  cabove :: wid
  cparents :: "cid list"
  cchildren :: "cid list"

datatype xcall =
    RestackWindows "xid list"
  | SetClientList "xid list"
  | SetClientListStacking "xid list"
  | StackingOrderChanged
  | DemandAttention wid
  | CancelAutoRaise wid

record stack_env =
  world :: env
  cachedLayer :: "wid \<Rightarrow> layer"
  groupMembers :: "wid \<Rightarrow> wid list option"
  splitBarWindows :: "(string \<times> wid option) list"
  splitWindows :: "(string \<times> wid list) list"
  hasRootInfo :: bool
  supportWindow :: xid
  screenEdgeWindows :: "xid list"
  manual_overlays :: "xid list"
  x11Clients :: "wid list"
  frameId :: "wid \<Rightarrow> xid"
  inputId :: "wid \<Rightarrow> xid option"
  windowId :: "wid \<Rightarrow> xid"
  hiddenPreview :: "wid \<Rightarrow> bool"
  isSplitBar :: "wid \<Rightarrow> bool"
  separateScreenFocus :: bool
  sessionStackingOrder :: "wid \<Rightarrow> int"
  allowFullClientRaising :: "wid \<Rightarrow> bool"
  hasUserTimeSupport :: "wid \<Rightarrow> bool"

record stacking =
  unconstrained_stacking_order :: "wid list"
  stacking_order :: "wid list"
  m_constraints :: "cid list"
  constraintAt :: "cid \<Rightarrow> sconstraint"
  nextConstraint :: cid
  m_blockStackingUpdates :: int
  m_blockedPropagatingNewWindows :: bool
  force_restacking :: bool
  stackPosition :: "wid \<Rightarrow> int"
  stackFocusChain :: focus_chain
  xcalls :: "xcall list"

definition xcall :: "xcall \<Rightarrow> stacking \<Rightarrow> stacking" where
  "xcall c s = s\<lparr>xcalls := xcalls s @ [c]\<rparr>"

section \<open>Layers\<close>

definition windowLayer :: "stack_env \<Rightarrow> wid \<Rightarrow> layer" where
  "windowLayer E w = (if cachedLayer E w = UnknownLayer then belongsToLayer (world E) w else cachedLayer E w)"

definition layerForWindow :: "stack_env \<Rightarrow> wid \<Rightarrow> layer" where
  "layerForWindow E w = (if windowLayer E w = DesktopLayer then DesktopLayer
     else (case groupMembers E w of None \<Rightarrow> windowLayer E w
       | Some ms \<Rightarrow>
         if (\<exists>m \<in> set ms. m \<noteq> w \<and> outputOf (windowAt (world E) m) = outputOf (windowAt (world E) w)
               \<and> windowLayer E m = ActiveLayer)
         then ActiveLayer else windowLayer E w))"

definition computeLayer :: "stack_env \<Rightarrow> wid \<Rightarrow> layer" where
  "computeLayer E w = (if isX11 (windowAt (world E) w) then layerForWindow E w else windowLayer E w)"

text \<open>The array of one list per layer, concatenated from the bottom layer to the top one.\<close>

definition NumLayers :: nat where "NumLayers = 12"

definition layered :: "(wid \<Rightarrow> int) \<Rightarrow> wid list \<Rightarrow> wid list" where
  "layered lay ws = concat (map (\<lambda>l. filter (\<lambda>w. lay w = int l) ws) [0 ..< NumLayers])"

section \<open>The constrained stacking order\<close>

text \<open>One constraint is applied: the upper window is taken out and put right above the lower one.\<close>

definition applyConstraint :: "wid \<Rightarrow> wid \<Rightarrow> wid list \<Rightarrow> wid list" where
  "applyConstraint b a st = (let bi = indexOf st b; ai = indexOf st a in
     if ai < bi then list_insert (nat bi) a (take (nat ai) st @ drop (Suc (nat ai)) st) else st)"

text \<open>The children that have not been enqueued yet are, in their order.\<close>

definition enqueueChildren :: "cid list \<Rightarrow> cid list \<times> cid list \<Rightarrow> cid list \<times> cid list" where
  "enqueueChildren cs qe = fold (\<lambda>c (q, enq). if c \<in> set enq then (q, enq) else (q @ [c], c # enq)) cs qe"

partial_function (option) processConstraints ::
    "(cid \<Rightarrow> sconstraint) \<Rightarrow> cid list \<Rightarrow> cid list \<Rightarrow> wid list \<Rightarrow> wid list option" where
  "processConstraints hp queue enq st = (case queue of [] \<Rightarrow> Some st
     | c # q \<Rightarrow>
       if indexOf st (cbelow (hp c)) = -1 \<or> indexOf st (cabove (hp c)) = -1
       then processConstraints hp q enq st
       else (let st' = applyConstraint (cbelow (hp c)) (cabove (hp c)) st;
                 qe = enqueueChildren (cchildren (hp c)) (q, enq)
             in processConstraints hp (fst qe) (snd qe) st'))"

text \<open>The split bars: right above the highest of the windows they split.\<close>

definition highestSplit :: "wid list \<Rightarrow> wid list \<Rightarrow> int" where
  "highestSplit st ws = fold (\<lambda>w i. let j = indexOf st w in if j > i then j else i) ws 0"

fun insertSplitBars :: "(string \<times> wid option) list \<Rightarrow> (string \<times> wid list) list \<Rightarrow> wid list \<Rightarrow> wid list option" where
  "insertSplitBars bars [] st = Some st"
| "insertSplitBars bars ((k, ws) # groups) st =
     (case map_of bars k of
        Some (Some bar) \<Rightarrow> insertAt (highestSplit st ws + 1) bar st \<bind> insertSplitBars bars groups
      | _ \<Rightarrow> insertSplitBars bars groups st)"

definition withoutSplitBars :: "stack_env \<Rightarrow> wid list \<Rightarrow> wid list" where
  "withoutSplitBars E ws = fold (\<lambda>(k, bar) ws. case bar of None \<Rightarrow> ws | Some b \<Rightarrow> removeAll b ws) (splitBarWindows E) ws"

definition rootConstraints :: "stacking \<Rightarrow> cid list" where
  "rootConstraints s = filter (\<lambda>c. cparents (constraintAt s c) = []) (m_constraints s)"

definition constrainedStackingOrder :: "stack_env \<Rightarrow> stacking \<Rightarrow> (wid list \<times> stacking) option" where
  "constrainedStackingOrder E s = do {
     let s = s\<lparr>unconstrained_stacking_order := withoutSplitBars E (unconstrained_stacking_order s)\<rparr>;
     assertThat (\<forall>w \<in> set (unconstrained_stacking_order s). computeLayer E w \<noteq> UnknownLayer);
     let st = layered (\<lambda>w. layerIndex (computeLayer E w)) (unconstrained_stacking_order s);
     st \<leftarrow> processConstraints (constraintAt s) (rootConstraints s) (rootConstraints s) st;
     st \<leftarrow> (if splitBarWindows E = [] then Some st else insertSplitBars (splitBarWindows E) (splitWindows E) st);
     Some (st, s) }"

section \<open>Updating and blocking\<close>

definition nativeStack :: "stack_env \<Rightarrow> wid list \<Rightarrow> xid list" where
  "nativeStack E order =
     supportWindow E # screenEdgeWindows E @ manual_overlays E
     @ concat (map (\<lambda>w. (if isSplitBar E w then [frameId E w] else [])
         @ (if isX11 (windowAt (world E) w) \<and> \<not> hiddenPreview E w
            then (case inputId E w of None \<Rightarrow> [] | Some i \<Rightarrow> [i]) @ [frameId E w] else [])) (rev order))
     @ map (frameId E) (filter (\<lambda>w. isX11 (windowAt (world E) w) \<and> hiddenPreview E w) (rev order))"

definition propagateWindows :: "stack_env \<Rightarrow> bool \<Rightarrow> stacking \<Rightarrow> stacking" where
  "propagateWindows E propagate_new_windows s = (if \<not> hasRootInfo E then s
     else (let s = xcall (RestackWindows (nativeStack E (stacking_order s))) s;
               s = (if propagate_new_windows
                    then xcall (SetClientList (manual_overlays E @ map (windowId E) (x11Clients E))) s else s)
           in xcall (SetClientListStacking (map (windowId E)
                (filter (\<lambda>w. isX11 (windowAt (world E) w)) (stacking_order s)) @ manual_overlays E)) s))"

fun setPositions :: "wid list \<Rightarrow> int \<Rightarrow> (wid \<Rightarrow> int) \<Rightarrow> wid \<Rightarrow> int" where
  "setPositions [] i p = p"
| "setPositions (w # ws) i p = setPositions ws (i + 1) (p(w := i))"

definition updateStackingOrder :: "stack_env \<Rightarrow> bool \<Rightarrow> stacking \<Rightarrow> stacking option" where
  "updateStackingOrder E propagate_new_windows s =
     (if m_blockStackingUpdates s > 0
      then Some (if propagate_new_windows then s\<lparr>m_blockedPropagatingNewWindows := True\<rparr> else s)
      else do {
        (new_stacking_order, s) \<leftarrow> constrainedStackingOrder E s;
        let changed = (force_restacking s \<or> new_stacking_order \<noteq> stacking_order s);
        let s = s\<lparr>force_restacking := False, stacking_order := new_stacking_order\<rparr>;
        Some (if changed \<or> propagate_new_windows
          then (let s = propagateWindows E propagate_new_windows s
                in xcall StackingOrderChanged
                     (s\<lparr>stackPosition := setPositions (stacking_order s) 0 (stackPosition s)\<rparr>))
          else s) })"

definition blockStackingUpdates :: "stack_env \<Rightarrow> bool \<Rightarrow> stacking \<Rightarrow> stacking option" where
  "blockStackingUpdates E block s = (if block
     then (let s = (if m_blockStackingUpdates s = 0 then s\<lparr>m_blockedPropagatingNewWindows := False\<rparr> else s)
           in Some (s\<lparr>m_blockStackingUpdates := m_blockStackingUpdates s + 1\<rparr>))
     else (let s = s\<lparr>m_blockStackingUpdates := m_blockStackingUpdates s - 1\<rparr>
           in if m_blockStackingUpdates s = 0
              then updateStackingOrder E (m_blockedPropagatingNewWindows s) s else Some s))"

text \<open>The scope of a \<open>StackingUpdatesBlocker\<close>.\<close>

definition withBlocker :: "stack_env \<Rightarrow> (stacking \<Rightarrow> stacking option) \<Rightarrow> stacking \<Rightarrow> stacking option" where
  "withBlocker E f s = do {
     s \<leftarrow> blockStackingUpdates E True s;
     s \<leftarrow> f s;
     blockStackingUpdates E False s }"

section \<open>Constraints\<close>

definition constrain :: "stack_env \<Rightarrow> wid \<Rightarrow> wid \<Rightarrow> stacking \<Rightarrow> stacking option" where
  "constrain E b a s =
     (if b = a \<or> (\<exists>c \<in> set (m_constraints s). cbelow (constraintAt s c) = b \<and> cabove (constraintAt s c) = a)
      then Some s
      else (let hp = constraintAt s;
                parents = filter (\<lambda>c. cbelow (hp c) \<noteq> a \<and> cabove (hp c) = b) (m_constraints s);
                children = filter (\<lambda>c. cbelow (hp c) = a) (m_constraints s);
                n = nextConstraint s;
                hp = hp(n := \<lparr>cbelow = b, cabove = a, cparents = parents, cchildren = children\<rparr>);
                hp = fold (\<lambda>p hp. hp(p := (hp p)\<lparr>cchildren := cchildren (hp p) @ [n]\<rparr>)) parents hp;
                hp = fold (\<lambda>c hp. hp(c := (hp c)\<lparr>cparents := cparents (hp c) @ [n]\<rparr>)) children hp
            in updateStackingOrder E False
                 (s\<lparr>m_constraints := m_constraints s @ [n], constraintAt := hp, nextConstraint := Suc n\<rparr>)))"

definition dropParent :: "cid \<Rightarrow> cid \<Rightarrow> (cid \<Rightarrow> sconstraint) \<Rightarrow> cid \<Rightarrow> sconstraint" where
  "dropParent k c hp = hp(c := (hp c)\<lparr>cparents := remove1 k (cparents (hp c))\<rparr>)"

definition dropChild :: "cid \<Rightarrow> cid \<Rightarrow> (cid \<Rightarrow> sconstraint) \<Rightarrow> cid \<Rightarrow> sconstraint" where
  "dropChild k p hp = hp(p := (hp p)\<lparr>cchildren := remove1 k (cchildren (hp p))\<rparr>)"

definition unconstrain :: "stack_env \<Rightarrow> wid \<Rightarrow> wid \<Rightarrow> stacking \<Rightarrow> stacking option" where
  "unconstrain E b a s =
     (case find (\<lambda>c. cbelow (constraintAt s c) = b \<and> cabove (constraintAt s c) = a) (m_constraints s) of
        None \<Rightarrow> Some s
      | Some k \<Rightarrow>
        (let hp = fold (dropChild k) (cparents (constraintAt s k)) (constraintAt s);
             hp = fold (dropParent k) (cchildren (constraintAt s k)) hp
         in updateStackingOrder E False (s\<lparr>m_constraints := remove1 k (m_constraints s), constraintAt := hp\<rparr>)))"

definition addToStack :: "wid \<Rightarrow> stacking \<Rightarrow> stacking" where
  "addToStack w s = s\<lparr>
     unconstrained_stacking_order := (if w \<in> set (unconstrained_stacking_order s)
       then unconstrained_stacking_order s else unconstrained_stacking_order s @ [w]),
     stacking_order := (if w \<in> set (stacking_order s) then stacking_order s else stacking_order s @ [w])\<rparr>"

definition replaceFirst :: "wid \<Rightarrow> wid \<Rightarrow> wid list \<Rightarrow> wid list" where
  "replaceFirst old new ws = (if old \<in> set ws then ws[nat (indexOf ws old) := new] else ws)"

definition replaceInConstraint :: "wid \<Rightarrow> wid \<Rightarrow> sconstraint \<Rightarrow> sconstraint" where
  "replaceInConstraint old new c = (if cbelow c = old then c\<lparr>cbelow := new\<rparr>
     else if cabove c = old then c\<lparr>cabove := new\<rparr> else c)"

definition replaceInStack :: "wid \<Rightarrow> wid \<Rightarrow> stacking \<Rightarrow> stacking" where
  "replaceInStack original deleted s = s\<lparr>
     unconstrained_stacking_order := replaceFirst original deleted (unconstrained_stacking_order s),
     stacking_order := replaceFirst original deleted (stacking_order s),
     constraintAt := (\<lambda>c. if c \<in> set (m_constraints s) then replaceInConstraint original deleted (constraintAt s c)
       else constraintAt s c)\<rparr>"

text \<open>One step of the backwards loop of \<open>removeFromStack\<close>.\<close>

definition removeConstraintOf :: "wid \<Rightarrow> cid \<Rightarrow> cid list \<times> (cid \<Rightarrow> sconstraint) \<Rightarrow> cid list \<times> (cid \<Rightarrow> sconstraint)" where
  "removeConstraintOf w k chp = (case chp of (cs, hp) \<Rightarrow>
     if cbelow (hp k) \<noteq> w \<and> cabove (hp k) \<noteq> w then (cs, hp)
     else if cbelow (hp k) = w then (remove1 k cs, fold (dropParent k) (cchildren (hp k)) hp)
     else (remove1 k cs, fold (dropChild k) (cparents (hp k)) hp))"

definition removeFromStack :: "wid \<Rightarrow> stacking \<Rightarrow> stacking" where
  "removeFromStack w s = (let (cs, hp) = fold (removeConstraintOf w) (rev (m_constraints s)) (m_constraints s, constraintAt s)
     in s\<lparr>unconstrained_stacking_order := removeAll w (unconstrained_stacking_order s),
          stacking_order := removeAll w (stacking_order s), m_constraints := cs, constraintAt := hp\<rparr>)"

section \<open>Raising and lowering\<close>

definition sameApp :: "stack_env \<Rightarrow> wid \<Rightarrow> wid \<Rightarrow> bool" where
  "sameApp E a b = belongToSameApplication (world E) a b"

abbreviation clientWindow :: "stack_env \<Rightarrow> wid \<Rightarrow> bool" where
  "clientWindow E w \<equiv> isClient (windowAt (world E) w)"

definition setUnconstrained :: "(wid list \<Rightarrow> wid list) \<Rightarrow> stacking \<Rightarrow> stacking" where
  "setUnconstrained f s = s\<lparr>unconstrained_stacking_order := f (unconstrained_stacking_order s)\<rparr>"

definition toTop :: "wid \<Rightarrow> wid list \<Rightarrow> wid list" where "toTop w ws = removeAll w ws @ [w]"
definition toBottom :: "wid \<Rightarrow> wid list \<Rightarrow> wid list" where "toBottom w ws = w # removeAll w ws"

text \<open>Below the bottom-most window of the application, or to the bottom.\<close>

definition belowApp :: "stack_env \<Rightarrow> wid \<Rightarrow> wid list \<Rightarrow> wid list" where
  "belowApp E w ws = (let ws = removeAll w ws;
       i = firstIndexWhere (\<lambda>other. clientWindow E other \<and> sameApp E other w) ws
     in if 0 \<le> i then list_insert (nat i) w ws else w # ws)"

text \<open>Above the top-most window of the application; not moved when it is that window itself, or when
  there is none.\<close>

definition aboveApp :: "stack_env \<Rightarrow> wid \<Rightarrow> wid list \<Rightarrow> wid list" where
  "aboveApp E w ws = (case findLast (\<lambda>other. clientWindow E other \<and> (other = w \<or> sameApp E other w)) ws of
       None \<Rightarrow> ws
     | Some other \<Rightarrow> if other = w then ws
         else (let ws = removeAll w ws in list_insert (nat (indexOf ws other + 1)) w ws))"

text \<open>The chain of the windows a transient belongs to; \<open>None\<close> when it never ends.\<close>

partial_function (option) transientChain :: "env \<Rightarrow> wid \<Rightarrow> wid list option" where
  "transientChain E w = (case transientFor (windowAt E w) of None \<Rightarrow> Some []
     | Some p \<Rightarrow> do { ps \<leftarrow> transientChain E p; Some (p # ps) })"

definition raiseOne :: "stack_env \<Rightarrow> wid \<Rightarrow> stacking \<Rightarrow> stacking option" where
  "raiseOne E w s = withBlocker E (\<lambda>s. Some (setUnconstrained (toTop w) s)) (xcall (CancelAutoRaise w) s)"

fun raiseAll :: "stack_env \<Rightarrow> wid list \<Rightarrow> stacking \<Rightarrow> stacking option" where
  "raiseAll E [] s = Some s"
| "raiseAll E (w # ws) s = raiseOne E w s \<bind> raiseAll E ws"

definition raiseWindow :: "stack_env \<Rightarrow> wid option \<Rightarrow> bool \<Rightarrow> stacking \<Rightarrow> stacking option" where
  "raiseWindow E window nogroup s = (case window of None \<Rightarrow> Some s
     | Some w \<Rightarrow> withBlocker E (\<lambda>s. do {
         s \<leftarrow> (if \<not> nogroup \<and> isTransient (windowAt (world E) w)
              then transientChain (world E) w \<bind> (\<lambda>ps. raiseAll E ps s) else Some s);
         Some (setUnconstrained (toTop w) s) }) (xcall (CancelAutoRaise w) s))"

text \<open>\<open>ensureStackingOrder\<close>: the windows of the list that are in the stacking order are moved to its
  end, in stacking order.\<close>

definition ensureStackingOrder :: "wid list \<Rightarrow> wid list \<Rightarrow> wid list" where
  "ensureStackingOrder order ws = (if length ws < 2 then ws
     else fold (\<lambda>w res. if w \<in> set res then removeAll w res @ [w] else res) order ws)"

definition lowerOne :: "stack_env \<Rightarrow> wid \<Rightarrow> stacking \<Rightarrow> stacking option" where
  "lowerOne E w s = withBlocker E (\<lambda>s. Some (setUnconstrained (toBottom w) s)) (xcall (CancelAutoRaise w) s)"

fun lowerAll :: "stack_env \<Rightarrow> wid list \<Rightarrow> stacking \<Rightarrow> stacking option" where
  "lowerAll E [] s = Some s"
| "lowerAll E (w # ws) s = lowerOne E w s \<bind> lowerAll E ws"

definition lowerWindow :: "stack_env \<Rightarrow> wid option \<Rightarrow> bool \<Rightarrow> stacking \<Rightarrow> stacking option" where
  "lowerWindow E window nogroup s = (case window of None \<Rightarrow> Some s
     | Some w \<Rightarrow> withBlocker E (\<lambda>s. do {
         let s = setUnconstrained (toBottom w) s;
         (if \<not> nogroup \<and> isTransient (windowAt (world E) w)
          then (let wins = (case groupMembers E w of None \<Rightarrow> []
                  | Some ms \<Rightarrow> ensureStackingOrder (stacking_order s) ms)
                in lowerAll E (filter (\<lambda>x. x \<noteq> w) (rev wins)) s)
          else Some s) }) (xcall (CancelAutoRaise w) s))"

definition lowerWindowWithinApplication :: "stack_env \<Rightarrow> wid option \<Rightarrow> stacking \<Rightarrow> stacking option" where
  "lowerWindowWithinApplication E window s = (case window of None \<Rightarrow> Some s
     | Some w \<Rightarrow> withBlocker E (\<lambda>s. Some (setUnconstrained (belowApp E w) s)) (xcall (CancelAutoRaise w) s))"

definition raiseWindowWithinApplication :: "stack_env \<Rightarrow> wid option \<Rightarrow> stacking \<Rightarrow> stacking option" where
  "raiseWindowWithinApplication E window s = (case window of None \<Rightarrow> Some s
     | Some w \<Rightarrow> withBlocker E (\<lambda>s. Some (setUnconstrained (aboveApp E w) s)) (xcall (CancelAutoRaise w) s))"

definition raiseWindowRequest :: "stack_env \<Rightarrow> wid \<Rightarrow> bool \<Rightarrow> stacking \<Rightarrow> stacking option" where
  "raiseWindowRequest E w fromTool s = (if fromTool \<or> allowFullClientRaising E w
     then raiseWindow E (Some w) False s
     else map_option (xcall (DemandAttention w)) (raiseWindowWithinApplication E (Some w) s))"

definition lowerX11WindowRequest :: "stack_env \<Rightarrow> wid \<Rightarrow> bool \<Rightarrow> stacking \<Rightarrow> stacking option" where
  "lowerX11WindowRequest E w fromTool s = (if fromTool \<or> \<not> hasUserTimeSupport E w
     then lowerWindow E (Some w) False s else lowerWindowWithinApplication E (Some w) s)"

definition lowerWindowRequest :: "stack_env \<Rightarrow> wid \<Rightarrow> stacking \<Rightarrow> stacking option" where
  "lowerWindowRequest E w s = lowerWindowWithinApplication E (Some w) s"

definition topWindowOnDesktop :: "stack_env \<Rightarrow> vd option \<Rightarrow> outp option \<Rightarrow> bool \<Rightarrow> bool \<Rightarrow> stacking \<Rightarrow> wid option" where
  "topWindowOnDesktop E desktop out unconstrained only_normal s =
     findLast (\<lambda>w. let c = windowAt (world E) w in
         isClient c \<and> isOnDesktop c desktop \<and> isShown c \<and> isOnCurrentActivity (world E) c \<and> \<not> isShade c
         \<and> (case out of None \<Rightarrow> True | Some o' \<Rightarrow> outputOf c = o')
         \<and> (\<not> only_normal \<or> (wantsTabFocus c \<and> \<not> isSpecialWindow c)))
       (if unconstrained then unconstrained_stacking_order s else stacking_order s)"

definition findDesktop :: "stack_env \<Rightarrow> bool \<Rightarrow> vd option \<Rightarrow> stacking \<Rightarrow> wid option" where
  "findDesktop E topmost desktop s =
     (let P = (\<lambda>w. let c = windowAt (world E) w in isClient c \<and> isOnDesktop c desktop \<and> isDesktop c \<and> isShown c)
      in if topmost then findLast P (stacking_order s) else find P (stacking_order s))"

definition raiseOrLowerWindow :: "stack_env \<Rightarrow> wid option \<Rightarrow> stacking \<Rightarrow> stacking option" where
  "raiseOrLowerWindow E window s = (case window of None \<Rightarrow> Some s
     | Some w \<Rightarrow>
       if \<not> isOnCurrentDesktop (world E) (windowAt (world E) w) then Some s
       else if topWindowOnDesktop E (currentDesktop (world E))
                 (if separateScreenFocus E then Some (outputOf (windowAt (world E) w)) else None) False True s = Some w
       then lowerWindow E (Some w) False s else raiseWindow E (Some w) False s)"

section \<open>Restacking\<close>

text \<open>Where \<open>restack\<close> puts the window: under the given one, or under the bottom-most window of its application
  in the same layer; \<open>None\<close> leaves it in place.\<close>

definition restackTarget :: "stack_env \<Rightarrow> wid \<Rightarrow> wid \<Rightarrow> bool \<Rightarrow> wid list \<Rightarrow> wid option" where
  "restackTarget E window ref force ws =
     (if \<not> force \<and> \<not> sameApp E ref window
      then (case find (\<lambda>other. clientWindow E other \<and> windowLayer E other = windowLayer E window \<and> sameApp E ref other) ws of
          None \<Rightarrow> Some ref
        | Some other \<Rightarrow> if window = other then None else Some other)
      else Some ref)"

definition restack :: "stack_env \<Rightarrow> wid \<Rightarrow> wid \<Rightarrow> bool \<Rightarrow> stacking \<Rightarrow> stacking option" where
  "restack E window ref force s =
     (if window \<notin> set (unconstrained_stacking_order s) then Some s
      else do {
        assertThat (ref \<in> set (unconstrained_stacking_order s));
        let target = restackTarget E window ref force (unconstrained_stacking_order s);
        s \<leftarrow> (case target of None \<Rightarrow> Some s
              | Some u \<Rightarrow> (let ws = removeAll window (unconstrained_stacking_order s)
                  in map_option (\<lambda>ws. s\<lparr>unconstrained_stacking_order := ws\<rparr>) (insertAt (indexOf ws u) window ws)));
        assertThat (window \<in> set (unconstrained_stacking_order s));
        chain \<leftarrow> moveAfterWindow (world E) window target (stackFocusChain s);
        updateStackingOrder E False (s\<lparr>stackFocusChain := chain\<rparr>) })"

definition restackWindowUnderActive :: "stack_env \<Rightarrow> wid option \<Rightarrow> wid \<Rightarrow> stacking \<Rightarrow> stacking option" where
  "restackWindowUnderActive E activeWindow window s = (case activeWindow of
       None \<Rightarrow> raiseWindow E (Some window) False s
     | Some a \<Rightarrow> if a = window \<or> windowLayer E a \<noteq> windowLayer E window
         then raiseWindow E (Some window) False s else restack E window a False s)"

definition restoreOrder :: "stack_env \<Rightarrow> wid \<Rightarrow> wid list \<Rightarrow> wid list" where
  "restoreOrder E w ws = (let ws = removeAll w ws;
       i = firstIndexWhere (\<lambda>c. isX11 (windowAt (world E) c) \<and> sessionStackingOrder E c > sessionStackingOrder E w) ws
     in if 0 \<le> i then list_insert (nat i) w ws else ws @ [w])"

definition restoreSessionStackingOrder :: "stack_env \<Rightarrow> wid \<Rightarrow> stacking \<Rightarrow> stacking option" where
  "restoreSessionStackingOrder E w s = (if sessionStackingOrder E w < 0 then Some s
     else withBlocker E (\<lambda>s. Some (setUnconstrained (restoreOrder E w) s)) s)"

text \<open>The override-redirect windows are moved to the top in the order of the X server's tree.
  \<open>remaining\<close> counts the unmanaged windows not met yet; the loop ends early when it reaches 0.\<close>

fun raiseUnmanaged :: "(xid \<Rightarrow> wid option) \<Rightarrow> xid list \<Rightarrow> int \<Rightarrow> wid list \<Rightarrow> wid list" where
  "raiseUnmanaged findUnmanaged [] remaining ws = ws"
| "raiseUnmanaged findUnmanaged (x # xs) remaining ws =
     (case findUnmanaged x of
        None \<Rightarrow> if remaining = 0 then ws else raiseUnmanaged findUnmanaged xs remaining ws
      | Some w \<Rightarrow> if remaining - 1 = 0 then toTop w ws
          else raiseUnmanaged findUnmanaged xs (remaining - 1) (toTop w ws))"

definition updateXStackingOrder :: "stack_env \<Rightarrow> (xid \<Rightarrow> wid option) \<Rightarrow> xid list \<Rightarrow> wid list \<Rightarrow> stacking \<Rightarrow> stacking option" where
  "updateXStackingOrder E findUnmanaged tree unmanaged s =
     (let s = setUnconstrained (raiseUnmanaged findUnmanaged tree (int (length unmanaged))) s
      in if unmanaged = [] then Some s else updateStackingOrder E False s)"

text \<open>\<open>ensureStackingOrder\<close> on the current order.\<close>

definition ensureStackingOrderOf :: "stacking \<Rightarrow> wid list \<Rightarrow> wid list" where
  "ensureStackingOrderOf s ws = ensureStackingOrder (stacking_order s) ws"

end
