(* ===== verification/Stacking_Order.thy ===== *)
theory Stacking_Order
  imports Stacking "HOL-Library.Multiset"
begin

text \<open>
  The constrained stacking order as a function of the unconstrained one: it is a permutation, it is sorted by
  layer and stable where no constraint interferes, and when the constraints can be graded every one of them
  holds in the result.
\<close>

section \<open>Layers\<close>

lemma mset_concat_filter:
  "\<forall>w \<in> set ws. 0 \<le> lay w \<and> lay w < int n \<Longrightarrow>
   mset (concat (map (\<lambda>l. filter (\<lambda>w. lay w = int l) ws) [0 ..< n])) = mset ws"
proof (induction n arbitrary: ws)
  case (Suc n)
  let ?lo = "filter (\<lambda>w. lay w < int n) ws"
  have "filter (\<lambda>w. lay w = int l) ws = filter (\<lambda>w. lay w = int l) ?lo" if "l < n" for l
    using that by (induction ws) auto
  then have "concat (map (\<lambda>l. filter (\<lambda>w. lay w = int l) ws) [0 ..< n]) =
      concat (map (\<lambda>l. filter (\<lambda>w. lay w = int l) ?lo) [0 ..< n])"
    by (intro arg_cong[of _ _ concat] map_cong) auto
  moreover have "mset (concat (map (\<lambda>l. filter (\<lambda>w. lay w = int l) ?lo) [0 ..< n])) = mset ?lo"
    using Suc.prems by (intro Suc.IH) auto
  moreover have "filter (\<lambda>w. lay w = int n) ws = filter (\<lambda>w. \<not> lay w < int n) ws"
    using Suc.prems by (intro filter_cong) auto
  ultimately show ?case by (simp add: multiset_partition[symmetric])
next
  case 0
  then show ?case by (cases ws) auto
qed

lemma mset_layered: "\<forall>w \<in> set ws. 0 \<le> lay w \<and> lay w < 12 \<Longrightarrow> mset (layered lay ws) = mset ws"
  using mset_concat_filter[of ws lay 12] by (simp add: layered_def NumLayers_def)

lemma filter_concat_layer:
  "k < n \<Longrightarrow> filter (\<lambda>w. lay w = int k) (concat (map (\<lambda>l. filter (\<lambda>w. lay w = int l) ws) [0 ..< n])) =
    filter (\<lambda>w. lay w = int k) ws"
proof (induction n)
  case (Suc n)
  have none: "filter (\<lambda>w. lay w = int k) (filter (\<lambda>w. lay w = int l) ws) = []" if "l \<noteq> k" for l
    using that by (auto simp: filter_empty_conv)
  show ?case
  proof (cases "k < n")
    case True
    then show ?thesis using Suc.IH none[of n] by simp
  next
    case False
    then have "k = n" using Suc.prems by simp
    have "filter (\<lambda>w. lay w = int k) (concat (map (\<lambda>l. filter (\<lambda>w. lay w = int l) ws) [0 ..< n])) = []"
      using \<open>k = n\<close> by (auto simp: filter_empty_conv)
    then show ?thesis using \<open>k = n\<close> by simp
  qed
qed simp

lemma layered_stable:
  "0 \<le> k \<Longrightarrow> k < 12 \<Longrightarrow> filter (\<lambda>w. lay w = k) (layered lay ws) = filter (\<lambda>w. lay w = k) ws"
  using filter_concat_layer[of "nat k" 12 lay ws] by (simp add: layered_def NumLayers_def)

lemma layered_sorted: "sorted (map lay (layered lay ws))"
proof -
  have "sorted (map lay (concat (map (\<lambda>l. filter (\<lambda>w. lay w = int l) ws) [0 ..< n])))" for n
  proof (induction n)
    case (Suc n)
    have "lay x \<le> lay y" if "x \<in> set (concat (map (\<lambda>l. filter (\<lambda>w. lay w = int l) ws) [0 ..< n]))"
      "y \<in> set (filter (\<lambda>w. lay w = int n) ws)" for x y
      using that by auto
    moreover have "sorted (map lay (filter (\<lambda>w. lay w = int n) ws))" by (induction ws) auto
    ultimately show ?case using Suc by (auto simp: sorted_append)
  qed simp
  then show ?thesis by (simp add: layered_def)
qed

section \<open>The order of two windows\<close>

definition before :: "wid list \<Rightarrow> wid \<Rightarrow> wid \<Rightarrow> bool" where
  "before st x y \<longleftrightarrow> x \<in> set st \<and> y \<in> set st \<and> indexOf st x < indexOf st y"

lemma before_split: "distinct (us @ x # vs @ y # ws) \<Longrightarrow> before (us @ x # vs @ y # ws) x y"
  using indexOf_bounds[of "vs @ y # ws" y] indexOf_present[of y "vs @ y # ws"]
  by (auto simp: before_def indexOf_append2 Let_def)

lemma before_cases:
  assumes "distinct st" "x \<in> set st" "y \<in> set st" "x \<noteq> y"
  shows "before st x y \<longleftrightarrow> (\<exists>us vs ws. st = us @ x # vs @ y # ws)"
proof
  assume b: "before st x y"
  obtain us r where r: "st = us @ x # r" using assms(2) by (auto dest: split_list)
  have "y \<notin> set us"
  proof
    assume "y \<in> set us"
    then have "indexOf st y < int (length us)" "indexOf st x = int (length us)"
      using assms(1) indexOf_bounds[of us y] by (auto simp: r indexOf_append1 indexOf_append2)
    then show False using b by (simp add: before_def)
  qed
  then have "y \<in> set r" using assms(3,4) r by auto
  then obtain vs ws where "r = vs @ y # ws" by (auto dest: split_list)
  then show "\<exists>us vs ws. st = us @ x # vs @ y # ws" using r by auto
qed (use assms(1) before_split in auto)

lemma before_prefix: "before (xs @ a # r) x a \<Longrightarrow> a \<notin> set xs \<Longrightarrow> x \<in> set xs"
  using indexOf_present[of x "a # r"]
  by (cases "x \<in> set xs") (auto simp: before_def indexOf_append2 Let_def)

lemma before_removeAll:
  assumes "x \<noteq> a" "y \<noteq> a"
  shows "before (removeAll a st) x y \<longleftrightarrow> before st x y"
proof (induction st)
  case (Cons z st)
  have step: "before (z # st) x y \<longleftrightarrow> (if x = z then y \<in> set st \<and> y \<noteq> z else y \<noteq> z \<and> before st x y)" for st z
    using indexOf_present[of x st] indexOf_present[of y st]
    by (auto simp: before_def Let_def indexOf_neg_iff)
  show ?case using Cons assms by (cases "z = a") (auto simp: step)
qed (simp add: before_def)

lemma applyConstraint_cases:
  assumes "distinct st" "a \<in> set st" "b \<in> set st" "a \<noteq> b"
  shows "(before st b a \<and> applyConstraint b a st = st) \<or>
    (\<exists>xs ys zs. st = xs @ a # ys @ b # zs \<and> applyConstraint b a st = xs @ ys @ b # a # zs)"
proof (cases "indexOf st a < indexOf st b")
  case True
  then have "before st a b" using assms by (simp add: before_def)
  then obtain xs ys zs where st: "st = xs @ a # ys @ b # zs" using before_cases assms by blast
  have i: "indexOf st a = int (length xs)" "indexOf st b = int (length xs) + 1 + int (length ys)"
    using assms(1) by (auto simp: st indexOf_append2 Let_def)
  have "applyConstraint b a st = list_insert (length xs + 1 + length ys) a (xs @ ys @ b # zs)"
    using i True by (simp add: applyConstraint_def Let_def st nat_add_distrib)
  also have "\<dots> = xs @ ys @ b # a # zs" by (simp add: list_insert_def)
  finally show ?thesis using st by blast
next
  case False
  moreover have "indexOf st a \<noteq> indexOf st b" using indexOf_inj assms by metis
  ultimately show ?thesis using assms by (auto simp: applyConstraint_def before_def Let_def)
qed

lemma applyConstraint_spec:
  assumes "distinct st" "a \<in> set st" "b \<in> set st" "a \<noteq> b"
  shows "mset (applyConstraint b a st) = mset st"
    and "distinct (applyConstraint b a st)"
    and "before (applyConstraint b a st) b a"
    and "removeAll a (applyConstraint b a st) = removeAll a st"
    and "before st x a \<Longrightarrow> before (applyConstraint b a st) x a"
proof -
  have main: "mset (applyConstraint b a st) = mset st \<and> distinct (applyConstraint b a st) \<and>
    before (applyConstraint b a st) b a \<and> removeAll a (applyConstraint b a st) = removeAll a st \<and>
    (before st x a \<longrightarrow> before (applyConstraint b a st) x a)"
  proof (cases "before st b a \<and> applyConstraint b a st = st")
    case True
    then show ?thesis using assms(1) by simp
  next
    case False
    then obtain xs ys zs where st: "st = xs @ a # ys @ b # zs" and r: "applyConstraint b a st = xs @ ys @ b # a # zs"
      using applyConstraint_cases[OF assms] by blast
    have d: "distinct (xs @ ys @ b # a # zs)" using assms(1) st by auto
    have "before (xs @ ys @ b # a # zs) b a"
      using before_split[of "xs @ ys" b "[]" a zs] d by simp
    moreover have "before (xs @ ys @ b # a # zs) x a" if "before st x a"
    proof -
      have "x \<in> set xs" using before_prefix[of xs a "ys @ b # zs" x] that assms(1) by (simp add: st)
      then obtain us' vs' where "xs = us' @ x # vs'" by (auto dest: split_list)
      then show ?thesis using before_split[of us' x "vs' @ ys @ [b]" a zs] d by simp
    qed
    moreover have "removeAll a (xs @ ys @ b # a # zs) = removeAll a st"
      using assms(1,4) by (simp add: st)
    ultimately show ?thesis using d by (simp add: r) (simp add: st)
  qed
  show "mset (applyConstraint b a st) = mset st" "distinct (applyConstraint b a st)"
    "before (applyConstraint b a st) b a" "removeAll a (applyConstraint b a st) = removeAll a st"
    "before st x a \<Longrightarrow> before (applyConstraint b a st) x a"
    using main by auto
qed

text \<open>A constraint between other windows is not touched; one with the moved window on top stays satisfied.\<close>

lemma applyConstraint_keeps:
  assumes "distinct st" "a \<in> set st" "b \<in> set st" "a \<noteq> b" "before st x y" "x \<noteq> a"
  shows "before (applyConstraint b a st) x y"
proof (cases "y = a")
  case True
  then show ?thesis using applyConstraint_spec(5)[OF assms(1-4)] assms(5) by simp
next
  case False
  then show ?thesis using before_removeAll[OF assms(6) False] applyConstraint_spec(4)[OF assms(1-4)] assms(5) by metis
qed

section \<open>The queue of constraints\<close>

text \<open>What the traversal needs of the graph: the children of a live constraint are live, and a constraint
  never relates a window to itself.\<close>

definition closedUnder :: "(cid \<Rightarrow> sconstraint) \<Rightarrow> cid list \<Rightarrow> bool" where
  "closedUnder hp M \<longleftrightarrow> (\<forall>c \<in> set M. set (cchildren (hp c)) \<subseteq> set M \<and> cbelow (hp c) \<noteq> cabove (hp c))"

lemma enqueueChildren_Cons:
  "enqueueChildren (c # cs) (q, enq) =
    (if c \<in> set enq then enqueueChildren cs (q, enq) else enqueueChildren cs (q @ [c], c # enq))"
  by (simp add: enqueueChildren_def)

lemma enqueueChildren_Nil [simp]: "enqueueChildren [] qe = qe"
  by (simp add: enqueueChildren_def)

text \<open>The new entries of the queue are the children that had not been enqueued.\<close>

lemma enqueueChildren_spec:
  "\<exists>new. enqueueChildren cs (q, enq) = (q @ new, rev new @ enq) \<and> distinct new \<and>
    set new = set cs - set enq"
proof (induction cs arbitrary: q enq)
  case (Cons c cs)
  show ?case
  proof (cases "c \<in> set enq")
    case True
    then show ?thesis using Cons[of q enq] by (auto simp: enqueueChildren_Cons)
  next
    case False
    obtain new where "enqueueChildren cs (q @ [c], c # enq) = ((q @ [c]) @ new, rev new @ (c # enq))"
      "distinct new" "set new = set cs - set (c # enq)" using Cons[of "q @ [c]" "c # enq"] by blast
    then show ?thesis using False by (intro exI[of _ "c # new"]) (auto simp: enqueueChildren_Cons)
  qed
qed simp

lemma both_present: "indexOf st x = -1 \<or> indexOf st y = -1 \<longleftrightarrow> x \<notin> set st \<or> y \<notin> set st"
  by (simp add: indexOf_minus1_iff)

text \<open>The traversal ends and permutes the order.\<close>

lemma processConstraints_total:
  assumes "closedUnder hp M" "set queue \<subseteq> set M" "distinct st"
  shows "\<exists>st'. processConstraints hp queue enq st = Some st' \<and> mset st' = mset st \<and> distinct st'"
  using assms(2,3)
proof (induction "card (set M - set enq) + length queue" arbitrary: queue enq st rule: less_induct)
  case less
  show ?case
  proof (cases queue)
    case Nil
    then show ?thesis using less.prems by (simp add: processConstraints.simps)
  next
    case (Cons c q)
    then have c: "c \<in> set M" "set q \<subseteq> set M" using less.prems by auto
    show ?thesis
    proof (cases "cbelow (hp c) \<notin> set st \<or> cabove (hp c) \<notin> set st")
      case True
      have "\<exists>st'. processConstraints hp q enq st = Some st' \<and> mset st' = mset st \<and> distinct st'"
        by (rule less.hyps) (use Cons c less.prems in auto)
      then show ?thesis using True Cons by (subst processConstraints.simps) (simp add: both_present[simplified])
    next
      case False
      let ?st = "applyConstraint (cbelow (hp c)) (cabove (hp c)) st"
      have ne: "cabove (hp c) \<noteq> cbelow (hp c)" using assms(1) c by (auto simp: closedUnder_def)
      have st: "mset ?st = mset st" "distinct ?st"
        using applyConstraint_spec(1,2)[OF less.prems(2) _ _ ne] False by auto
      obtain new where new: "enqueueChildren (cchildren (hp c)) (q, enq) = (q @ new, rev new @ enq)"
        "distinct new" "set new = set (cchildren (hp c)) - set enq" using enqueueChildren_spec by blast
      have sub: "set new \<subseteq> set M - set enq" using new(3) assms(1) c(1) by (auto simp: closedUnder_def)
      have "card (set M - set (rev new @ enq)) = card (set M - set enq) - card (set new)"
        using sub by (subst card_Diff_subset[symmetric]) (auto simp: Diff_Un intro!: arg_cong[of _ _ card])
      moreover have "card (set new) \<le> card (set M - set enq)" using sub by (intro card_mono) auto
      ultimately have "card (set M - set (rev new @ enq)) + length (q @ new) < card (set M - set enq) + length queue"
        using new(2) Cons by (simp add: distinct_card)
      moreover have "set (q @ new) \<subseteq> set M" using c sub by auto
      ultimately have "\<exists>st'. processConstraints hp (q @ new) (rev new @ enq) ?st = Some st' \<and> mset st' = mset ?st \<and> distinct st'"
        using less.hyps st(2) by blast
      then show ?thesis using False Cons new st by (subst processConstraints.simps) (simp add: both_present[simplified] Let_def)
    qed
  qed
qed

section \<open>Graded constraints\<close>

text \<open>Every constraint leads from one rank to the next, and only windows of rank 0 have nothing below
  them.\<close>

definition graded :: "(wid \<Rightarrow> nat) \<Rightarrow> (cid \<Rightarrow> sconstraint) \<Rightarrow> cid list \<Rightarrow> bool" where
  "graded r hp M \<longleftrightarrow> (\<forall>c \<in> set M. r (cabove (hp c)) = Suc (r (cbelow (hp c))) \<and>
     (r (cbelow (hp c)) = 0 \<or> (\<exists>p \<in> set M. cabove (hp p) = cbelow (hp c))))"

text \<open>The links between constraints say what they should, up to cycles of length two.\<close>

definition linked :: "(cid \<Rightarrow> sconstraint) \<Rightarrow> cid list \<Rightarrow> bool" where
  "linked hp M \<longleftrightarrow> (\<forall>c \<in> set M. \<forall>e \<in> set M. cabove (hp c) = cbelow (hp e) \<longrightarrow> cabove (hp e) \<noteq> cbelow (hp c) \<longrightarrow>
     e \<in> set (cchildren (hp c)))"

definition childrenOK :: "(cid \<Rightarrow> sconstraint) \<Rightarrow> cid list \<Rightarrow> bool" where
  "childrenOK hp M \<longleftrightarrow> (\<forall>c \<in> set M. \<forall>e \<in> set (cchildren (hp c)). e \<in> set M \<and> cbelow (hp e) = cabove (hp c))"

text \<open>The state of the traversal: the constraints taken off the queue hold and have all their children
  enqueued, the queue holds constraints of one rank followed by those of the next, and everything up to the first of
  the two ranks has been enqueued.\<close>

definition bfsInv :: "(wid \<Rightarrow> nat) \<Rightarrow> (cid \<Rightarrow> sconstraint) \<Rightarrow> cid list \<Rightarrow> cid list \<Rightarrow> cid list \<Rightarrow> wid list \<Rightarrow> bool" where
  "bfsInv r hp M queue enq st \<longleftrightarrow>
     set queue \<subseteq> set enq \<and> set enq \<subseteq> set M \<and> distinct queue \<and> distinct st \<and>
     (\<forall>c \<in> set M. cbelow (hp c) \<in> set st \<and> cabove (hp c) \<in> set st) \<and>
     (\<forall>c \<in> set enq - set queue. before st (cbelow (hp c)) (cabove (hp c)) \<and> set (cchildren (hp c)) \<subseteq> set enq) \<and>
     (\<exists>k A B. queue = A @ B \<and> (\<forall>c \<in> set A. r (cbelow (hp c)) = k) \<and> (\<forall>c \<in> set B. r (cbelow (hp c)) = Suc k) \<and>
        (\<forall>c \<in> set M. r (cbelow (hp c)) \<le> k \<longrightarrow> c \<in> set enq) \<and>
        (\<forall>c \<in> set enq - set queue. r (cbelow (hp c)) \<le> k))"

lemma graded_child:
  assumes "graded r hp M" "linked hp M" "c \<in> set M" "r (cbelow (hp c)) = Suc k"
  shows "\<exists>p \<in> set M. r (cbelow (hp p)) = k \<and> c \<in> set (cchildren (hp p))"
proof -
  obtain p where p: "p \<in> set M" "cabove (hp p) = cbelow (hp c)"
    using assms by (auto simp: graded_def)
  then have "r (cbelow (hp p)) = k" using assms(1,4) by (auto simp: graded_def)
  moreover have "cabove (hp c) \<noteq> cbelow (hp p)" using assms(1,3,4) calculation by (auto simp: graded_def)
  ultimately show ?thesis using p assms(2,3) by (auto simp: linked_def)
qed

text \<open>The invariant may be read with a non-empty first part.\<close>

lemma bfsInv_front:
  assumes "graded r hp M" "linked hp M" "bfsInv r hp M (c # q) enq st"
  obtains A B where "q = A @ B" "\<forall>x \<in> set A. r (cbelow (hp x)) = r (cbelow (hp c))"
    "\<forall>x \<in> set B. r (cbelow (hp x)) = Suc (r (cbelow (hp c)))"
    "\<forall>x \<in> set M. r (cbelow (hp x)) \<le> r (cbelow (hp c)) \<longrightarrow> x \<in> set enq"
    "\<forall>x \<in> set enq - set (c # q). r (cbelow (hp x)) \<le> r (cbelow (hp c))"
proof -
  obtain k A B where AB: "c # q = A @ B" "\<forall>x \<in> set A. r (cbelow (hp x)) = k" "\<forall>x \<in> set B. r (cbelow (hp x)) = Suc k"
    "\<forall>x \<in> set M. r (cbelow (hp x)) \<le> k \<longrightarrow> x \<in> set enq"
    "\<forall>x \<in> set enq - set (c # q). r (cbelow (hp x)) \<le> k"
    using assms(3) unfolding bfsInv_def by (elim conjE exE) (rule that)
  have okd: "\<forall>x \<in> set enq - set (c # q). set (cchildren (hp x)) \<subseteq> set enq"
    using assms(3) unfolding bfsInv_def by blast
  show ?thesis
  proof (cases A)
    case (Cons a A')
    then have a: "a = c" "q = A' @ B" using AB(1) by simp_all
    have k: "k = r (cbelow (hp c))" using AB(2) Cons a(1) by simp
    have A': "\<forall>x \<in> set A'. r (cbelow (hp x)) = r (cbelow (hp c))" using AB(2) Cons a(1) by simp
    show ?thesis
      by (rule that[OF a(2) A']) (use AB(3-5) in \<open>simp_all only: k\<close>)
  next
    case Nil
    then have B: "B = c # q" "r (cbelow (hp c)) = Suc k" "\<forall>x \<in> set q. r (cbelow (hp x)) = Suc k" using AB by auto
    have "x \<in> set enq" if xm: "x \<in> set M" and xr: "r (cbelow (hp x)) \<le> Suc k" for x
    proof (cases "r (cbelow (hp x)) \<le> k")
      case False
      then obtain p where p: "p \<in> set M" "r (cbelow (hp p)) = k" "x \<in> set (cchildren (hp p))"
        using graded_child[OF assms(1,2) xm] xr by (metis le_SucE)
      then have "p \<in> set enq" "p \<notin> set (c # q)" using AB(3,4) B(1) by fastforce+
      then show ?thesis using okd p(3) by blast
    qed (use AB(4) xm in auto)
    then have low: "\<forall>x \<in> set M. r (cbelow (hp x)) \<le> r (cbelow (hp c)) \<longrightarrow> x \<in> set enq" using B(2) by simp
    have "\<forall>x \<in> set enq - set (c # q). r (cbelow (hp x)) \<le> r (cbelow (hp c))"
      using AB(5) unfolding B(2) by (meson le_SucI)
    then show ?thesis by (intro that[of q "[]", OF _ _ _ low]) (use B(2,3) in simp_all)
  qed
qed

lemma bfsInv_step:
  assumes "graded r hp M" "linked hp M" "childrenOK hp M" "closedUnder hp M" "bfsInv r hp M (c # q) enq st"
    "enqueueChildren (cchildren (hp c)) (q, enq) = (q @ new, rev new @ enq)" "distinct new"
    "set new = set (cchildren (hp c)) - set enq"
  shows "bfsInv r hp M (q @ new) (rev new @ enq) (applyConstraint (cbelow (hp c)) (cabove (hp c)) st)"
proof -
  let ?b = "cbelow (hp c)" and ?a = "cabove (hp c)"
  let ?st = "applyConstraint ?b ?a st"
  obtain A B where AB: "q = A @ B" "\<forall>x \<in> set A. r (cbelow (hp x)) = r ?b" "\<forall>x \<in> set B. r (cbelow (hp x)) = Suc (r ?b)"
    "\<forall>x \<in> set M. r (cbelow (hp x)) \<le> r ?b \<longrightarrow> x \<in> set enq"
    "\<forall>x \<in> set enq - set (c # q). r (cbelow (hp x)) \<le> r ?b"
    using bfsInv_front[OF assms(1,2,5)] by blast
  have base: "set (c # q) \<subseteq> set enq" "set enq \<subseteq> set M" "distinct (c # q)" "distinct st"
    "\<forall>x \<in> set M. cbelow (hp x) \<in> set st \<and> cabove (hp x) \<in> set st"
    and okd: "\<forall>x \<in> set enq - set (c # q). before st (cbelow (hp x)) (cabove (hp x)) \<and> set (cchildren (hp x)) \<subseteq> set enq"
    using assms(5) by (auto simp: bfsInv_def)
  have cM: "c \<in> set M" using base by auto
  have pres: "?a \<in> set st" "?b \<in> set st" "?a \<noteq> ?b" using base(5) cM assms(4) by (auto simp: closedUnder_def)
  note ac = applyConstraint_spec[OF base(4) pres] and keep = applyConstraint_keeps[OF base(4) pres]
  have setst: "set ?st = set st" using ac(1) by (metis set_mset_mset)
  have newM: "set new \<subseteq> set M" "\<forall>x \<in> set new. r (cbelow (hp x)) = Suc (r ?b)"
    using assms(1,3,8) cM by (auto simp: childrenOK_def graded_def)
  have held: "before ?st (cbelow (hp x)) (cabove (hp x)) \<and> set (cchildren (hp x)) \<subseteq> set (rev new @ enq)"
    if x: "x \<in> set (rev new @ enq) - set (q @ new)" for x
  proof (cases "x = c")
    case True
    then show ?thesis using ac(3) assms(8) by auto
  next
    case False
    then have e: "x \<in> set enq - set (c # q)" using x by auto
    have xM: "x \<in> set M" using e base(2) by auto
    have "cbelow (hp x) \<noteq> ?a"
    proof
      assume "cbelow (hp x) = ?a"
      then have "r (cbelow (hp x)) = Suc (r ?b)" using assms(1) cM by (simp add: graded_def)
      then show False using AB(5)[rule_format, OF e] by simp
    qed
    then show ?thesis using keep okd e by auto
  qed
  have low: "r (cbelow (hp x)) \<le> r ?b" if "x \<in> set (rev new @ enq) - set (q @ new)" for x
  proof (cases "x = c")
    case False
    then have "x \<in> set enq - set (c # q)" using that by auto
    then show ?thesis using AB(5) by blast
  qed simp
  have "\<forall>x \<in> set (B @ new). r (cbelow (hp x)) = Suc (r ?b)" using AB(3) newM(2) by auto
  moreover have "\<forall>x \<in> set M. r (cbelow (hp x)) \<le> r ?b \<longrightarrow> x \<in> set (rev new @ enq)" using AB(4) by simp
  moreover have "q @ new = A @ (B @ new)" using AB(1) by simp
  ultimately have levels: "\<exists>k A B. q @ new = A @ B \<and> (\<forall>c \<in> set A. r (cbelow (hp c)) = k) \<and>
      (\<forall>c \<in> set B. r (cbelow (hp c)) = Suc k) \<and>
      (\<forall>c \<in> set M. r (cbelow (hp c)) \<le> k \<longrightarrow> c \<in> set (rev new @ enq)) \<and>
      (\<forall>c \<in> set (rev new @ enq) - set (q @ new). r (cbelow (hp c)) \<le> k)"
    using AB(2) low by blast
  have "set (q @ new) \<subseteq> set (rev new @ enq)" "set (rev new @ enq) \<subseteq> set M" using base(1,2) newM(1) by auto
  moreover have "distinct (q @ new)" using base(1,3) assms(7,8) by auto
  moreover have "\<forall>x \<in> set M. cbelow (hp x) \<in> set ?st \<and> cabove (hp x) \<in> set ?st" using base(5) setst by simp
  ultimately show ?thesis
    unfolding bfsInv_def using held ac(2) levels by blast
qed

lemma bfsInv_final:
  assumes "graded r hp M" "linked hp M" "bfsInv r hp M [] enq st" "c \<in> set M"
  shows "before st (cbelow (hp c)) (cabove (hp c))"
proof -
  have okd: "\<forall>x \<in> set enq. before st (cbelow (hp x)) (cabove (hp x)) \<and> set (cchildren (hp x)) \<subseteq> set enq"
    and low: "\<exists>k. \<forall>x \<in> set M. r (cbelow (hp x)) \<le> k \<longrightarrow> x \<in> set enq"
    using assms(3) by (auto simp: bfsInv_def)
  have "x \<in> set enq" if "x \<in> set M" for x
    using that
  proof (induction "r (cbelow (hp x))" arbitrary: x)
    case 0
    then show ?case using low by auto
  next
    case (Suc k)
    then obtain p where "p \<in> set M" "r (cbelow (hp p)) = k" "x \<in> set (cchildren (hp p))"
      using graded_child[OF assms(1,2)] by metis
    then show ?case using Suc.hyps(1)[of p] okd by auto
  qed
  then show ?thesis using assms(4) okd by blast
qed

lemma processConstraints_satisfies:
  assumes "graded r hp M" "linked hp M" "childrenOK hp M" "closedUnder hp M"
    "bfsInv r hp M queue enq st" "processConstraints hp queue enq st = Some st'" "c \<in> set M"
  shows "before st' (cbelow (hp c)) (cabove (hp c))"
  using assms(5,6)
proof (induction "card (set M - set enq) + length queue" arbitrary: queue enq st rule: less_induct)
  case less
  show ?case
  proof (cases queue)
    case Nil
    then have "st' = st" using less.prems(2) by (simp add: processConstraints.simps)
    then show ?thesis using bfsInv_final[OF assms(1,2) _ assms(7)] less.prems(1) Nil by simp
  next
    case (Cons d q)
    have base: "set (d # q) \<subseteq> set enq" "set enq \<subseteq> set M" "\<forall>x \<in> set M. cbelow (hp x) \<in> set st \<and> cabove (hp x) \<in> set st"
      using less.prems(1) Cons by (auto simp: bfsInv_def)
    have dM: "d \<in> set M" using base by auto
    obtain new where new: "enqueueChildren (cchildren (hp d)) (q, enq) = (q @ new, rev new @ enq)"
      "distinct new" "set new = set (cchildren (hp d)) - set enq" using enqueueChildren_spec by blast
    let ?st = "applyConstraint (cbelow (hp d)) (cabove (hp d)) st"
    have inv: "bfsInv r hp M (q @ new) (rev new @ enq) ?st"
      using bfsInv_step[OF assms(1-4) _ new] less.prems(1) Cons by simp
    have run: "processConstraints hp (q @ new) (rev new @ enq) ?st = Some st'"
      using less.prems(2) Cons new(1) base(3) dM
      by (simp add: processConstraints.simps[of hp "d # q"] both_present[simplified] Let_def)
    have sub: "set new \<subseteq> set M - set enq" using new(3) assms(4) dM by (auto simp: closedUnder_def)
    have "card (set M - set (rev new @ enq)) = card (set M - set enq) - card (set new)"
      using sub by (subst card_Diff_subset[symmetric]) (auto simp: Diff_Un intro!: arg_cong[of _ _ card])
    moreover have "card (set new) \<le> card (set M - set enq)" using sub by (intro card_mono) auto
    ultimately have "card (set M - set (rev new @ enq)) + length (q @ new) < card (set M - set enq) + length queue"
      using new(2) Cons by (simp add: distinct_card)
    then show ?thesis using less.hyps inv run by blast
  qed
qed

end
