(* ===== verification/Stacking_Graph.thy ===== *)
theory Stacking_Graph
  imports Stacking_Order
begin

text \<open>
  The graph of stacking constraints: the two directions of its links agree, every link joins the upper
  window of one constraint with the lower window of another, and each operation keeps it so.
\<close>

section \<open>The invariant\<close>

definition linksOK :: "(cid \<Rightarrow> sconstraint) \<Rightarrow> cid list \<Rightarrow> bool" where
  "linksOK hp M \<longleftrightarrow> (\<forall>c \<in> set M. cbelow (hp c) \<noteq> cabove (hp c) \<and>
     distinct (cchildren (hp c)) \<and> distinct (cparents (hp c)) \<and>
     set (cchildren (hp c)) = {e \<in> set M. c \<in> set (cparents (hp e))} \<and>
     (\<forall>p \<in> set (cparents (hp c)). p \<in> set M \<and> cabove (hp p) = cbelow (hp c)))"

definition graphOK :: "stacking \<Rightarrow> bool" where
  "graphOK s \<longleftrightarrow> distinct (m_constraints s) \<and> (\<forall>c \<in> set (m_constraints s). c < nextConstraint s) \<and>
     linksOK (constraintAt s) (m_constraints s) \<and> linked (constraintAt s) (m_constraints s)"

lemma linksOK_D:
  assumes "linksOK hp M" "c \<in> set M"
  shows "cbelow (hp c) \<noteq> cabove (hp c)" "distinct (cchildren (hp c))" "distinct (cparents (hp c))"
    and "e \<in> set (cchildren (hp c)) \<longleftrightarrow> e \<in> set M \<and> c \<in> set (cparents (hp e))"
    and "p \<in> set (cparents (hp c)) \<Longrightarrow> p \<in> set M \<and> cabove (hp p) = cbelow (hp c)"
  using assms by (auto simp: linksOK_def)

lemma linksOK_childrenOK: "linksOK hp M \<Longrightarrow> childrenOK hp M"
  using linksOK_D(4,5) by (fastforce simp: childrenOK_def)

lemma linksOK_closed: "linksOK hp M \<Longrightarrow> closedUnder hp M"
  using linksOK_D(1,4) by (fastforce simp: closedUnder_def)

lemma fold_update_at:
  "distinct xs \<Longrightarrow> fold (\<lambda>x hp. hp(x := f (hp x))) xs hp y = (if y \<in> set xs then f (hp y) else hp y)"
  by (induction xs arbitrary: hp) auto

lemma fold_dropParent:
  "distinct cs \<Longrightarrow> fold (dropParent k) cs hp c =
    (if c \<in> set cs then (hp c)\<lparr>cparents := remove1 k (cparents (hp c))\<rparr> else hp c)"
  using fold_update_at[of cs "\<lambda>v. v\<lparr>cparents := remove1 k (cparents v)\<rparr>" hp c]
  by (simp add: dropParent_def[abs_def])

lemma fold_dropChild:
  "distinct ps \<Longrightarrow> fold (dropChild k) ps hp c =
    (if c \<in> set ps then (hp c)\<lparr>cchildren := remove1 k (cchildren (hp c))\<rparr> else hp c)"
  using fold_update_at[of ps "\<lambda>v. v\<lparr>cchildren := remove1 k (cchildren v)\<rparr>" hp c]
  by (simp add: dropChild_def[abs_def])

section \<open>Adding a constraint\<close>

definition addConstraint :: "wid \<Rightarrow> wid \<Rightarrow> cid \<Rightarrow> cid list \<Rightarrow> (cid \<Rightarrow> sconstraint) \<Rightarrow> cid \<Rightarrow> sconstraint" where
  "addConstraint b a n M hp = (let parents = filter (\<lambda>c. cbelow (hp c) \<noteq> a \<and> cabove (hp c) = b) M;
       children = filter (\<lambda>c. cbelow (hp c) = a) M;
       hp = hp(n := \<lparr>cbelow = b, cabove = a, cparents = parents, cchildren = children\<rparr>);
       hp = fold (\<lambda>p hp. hp(p := (hp p)\<lparr>cchildren := cchildren (hp p) @ [n]\<rparr>)) parents hp
     in fold (\<lambda>c hp. hp(c := (hp c)\<lparr>cparents := cparents (hp c) @ [n]\<rparr>)) children hp)"

lemma addConstraint_at:
  assumes "distinct M" "n \<notin> set M"
  shows "addConstraint b a n M hp n = \<lparr>cbelow = b, cabove = a,
      cparents = filter (\<lambda>c. cbelow (hp c) \<noteq> a \<and> cabove (hp c) = b) M, cchildren = filter (\<lambda>c. cbelow (hp c) = a) M\<rparr>"
    and "c \<in> set M \<Longrightarrow> addConstraint b a n M hp c = (hp c)\<lparr>
      cparents := cparents (hp c) @ (if cbelow (hp c) = a then [n] else []),
      cchildren := cchildren (hp c) @ (if cbelow (hp c) \<noteq> a \<and> cabove (hp c) = b then [n] else [])\<rparr>"
  using assms
  by (auto simp: addConstraint_def Let_def
      fold_update_at[of _ "\<lambda>v. v\<lparr>cparents := cparents v @ [n]\<rparr>"] fold_update_at[of _ "\<lambda>v. v\<lparr>cchildren := cchildren v @ [n]\<rparr>"])

lemma addConstraint_links:
  assumes "linksOK hp M" "linked hp M" "distinct M" "n \<notin> set M" "a \<noteq> b"
  shows "linksOK (addConstraint b a n M hp) (M @ [n])" "linked (addConstraint b a n M hp) (M @ [n])"
proof -
  let ?h = "addConstraint b a n M hp"
  note at = addConstraint_at[OF assms(3,4), where b = b and a = a and hp = hp]
  have nin: "n \<notin> set (cchildren (hp c))" "n \<notin> set (cparents (hp c))" if "c \<in> set M" for c
    using linksOK_D(4,5)[OF assms(1) that] assms(4) by auto
  have ba: "cbelow (?h c) = cbelow (hp c)" "cabove (?h c) = cabove (hp c)" if "c \<in> set M" for c
    using at(2)[OF that] by simp_all
  show "linksOK ?h (M @ [n])"
    unfolding linksOK_def
  proof (intro ballI)
    fix c assume "c \<in> set (M @ [n])"
    then consider "c = n" | "c \<in> set M" by auto
    then show "cbelow (?h c) \<noteq> cabove (?h c) \<and> distinct (cchildren (?h c)) \<and> distinct (cparents (?h c)) \<and>
       set (cchildren (?h c)) = {e \<in> set (M @ [n]). c \<in> set (cparents (?h e))} \<and>
       (\<forall>p \<in> set (cparents (?h c)). p \<in> set (M @ [n]) \<and> cabove (?h p) = cbelow (?h c))"
    proof cases
      case 1
      have "e \<in> set (cchildren (?h n)) \<longleftrightarrow> e \<in> set (M @ [n]) \<and> n \<in> set (cparents (?h e))" for e
        using at assms(4) nin(2)[of e] by (cases "e = n") auto
      then show ?thesis using 1 at(1) assms(3,5) ba by auto
    next
      case 2
      have "c \<noteq> n" using 2 assms(4) by auto
      have "e \<in> set (cchildren (?h c)) \<longleftrightarrow> e \<in> set (M @ [n]) \<and> c \<in> set (cparents (?h e))" for e
        using at(1) at(2)[OF 2] at(2)[of e] linksOK_D(4)[OF assms(1) 2, of e] assms(4) nin(1)[OF 2] 2 \<open>c \<noteq> n\<close>
        by (cases "e = n") auto
      moreover have "p \<in> set (M @ [n]) \<and> cabove (?h p) = cbelow (?h c)" if "p \<in> set (cparents (?h c))" for p
        using that at(2)[OF 2] linksOK_D(5)[OF assms(1) 2, of p] at(1) ba by (auto split: if_splits)
      ultimately show ?thesis using linksOK_D(1-3)[OF assms(1) 2] at(2)[OF 2] nin[OF 2] by auto
    qed
  qed
  show "linked ?h (M @ [n])"
    unfolding linked_def
  proof (intro ballI impI)
    fix c e assume ce: "c \<in> set (M @ [n])" "e \<in> set (M @ [n])" "cabove (?h c) = cbelow (?h e)" "cabove (?h e) \<noteq> cbelow (?h c)"
    consider "c \<in> set M" "e \<in> set M" | "c = n" "e \<in> set M" | "c \<in> set M" "e = n" | "c = n" "e = n" using ce by auto
    then show "e \<in> set (cchildren (?h c))"
    proof cases
      case 1
      then show ?thesis using ce ba at(2)[of c] assms(2) by (auto simp: linked_def)
    next
      case 2
      then show ?thesis using ce at(1) ba by auto
    next
      case 3
      then show ?thesis using ce at(1) at(2)[of c] by auto
    next
      case 4
      then show ?thesis using ce at(1) by auto
    qed
  qed
qed

section \<open>Removing constraints\<close>

text \<open>What is left of a link structure when a set \<open>R\<close> of constraints is gone.\<close>

lemma linksOK_remove:
  assumes "linksOK hp M" "linked hp M" "set M' = set M - R"
    and "\<And>c. c \<in> set M' \<Longrightarrow> hp' c = (hp c)\<lparr>cchildren := filter (\<lambda>e. e \<notin> R) (cchildren (hp c)),
           cparents := filter (\<lambda>p. p \<notin> R) (cparents (hp c))\<rparr>"
  shows "linksOK hp' M'" "linked hp' M'"
proof -
  have m: "c \<in> set M" "c \<notin> R" if "c \<in> set M'" for c using that assms(3) by auto
  have ba: "cbelow (hp' c) = cbelow (hp c)" "cabove (hp' c) = cabove (hp c)" if "c \<in> set M'" for c
    using assms(4)[OF that] by simp_all
  show "linksOK hp' M'" unfolding linksOK_def
  proof (intro ballI conjI)
    fix c assume c: "c \<in> set M'"
    note d = linksOK_D[OF assms(1) m(1)[OF c]]
    show "cbelow (hp' c) \<noteq> cabove (hp' c)" using ba[OF c] d(1) by simp
    show "distinct (cchildren (hp' c))" "distinct (cparents (hp' c))" using assms(4)[OF c] d(2,3) by simp_all
    show "set (cchildren (hp' c)) = {e \<in> set M'. c \<in> set (cparents (hp' e))}"
      using assms(4)[OF c] d(4) assms(3,4) m(2)[OF c] by auto
    fix p assume "p \<in> set (cparents (hp' c))"
    then have p: "p \<in> set (cparents (hp c))" "p \<notin> R" using assms(4)[OF c] by auto
    then have "p \<in> set M'" using d(5) assms(3) by auto
    then show "p \<in> set M'" "cabove (hp' p) = cbelow (hp' c)" using d(5)[OF p(1)] ba c by auto
  qed
  show "linked hp' M'" unfolding linked_def
  proof (intro ballI impI)
    fix c e assume ce: "c \<in> set M'" "e \<in> set M'" "cabove (hp' c) = cbelow (hp' e)" "cabove (hp' e) \<noteq> cbelow (hp' c)"
    then have "e \<in> set (cchildren (hp c))" using assms(2) m ba by (auto simp: linked_def)
    then show "e \<in> set (cchildren (hp' c))" using assms(4)[OF ce(1)] m(2)[OF ce(2)] by simp
  qed
qed

lemma filter_absent: "k \<notin> set xs \<Longrightarrow> filter (\<lambda>e. e \<noteq> k) xs = xs"
  by (induction xs) auto

lemma remove1_as_filter: "distinct xs \<Longrightarrow> remove1 k xs = filter (\<lambda>e. e \<notin> {k}) xs"
  by (induction xs) (auto simp: filter_absent)

lemma unconstrain_links:
  assumes "linksOK hp M" "linked hp M" "distinct M" "k \<in> set M"
  shows "linksOK (fold (dropParent k) (cchildren (hp k)) (fold (dropChild k) (cparents (hp k)) hp)) (remove1 k M)"
    and "linked (fold (dropParent k) (cchildren (hp k)) (fold (dropChild k) (cparents (hp k)) hp)) (remove1 k M)"
proof -
  note d = linksOK_D[OF assms(1)]
  let ?h = "fold (dropParent k) (cchildren (hp k)) (fold (dropChild k) (cparents (hp k)) hp)"
  have at: "?h c = (hp c)\<lparr>cchildren := filter (\<lambda>e. e \<notin> {k}) (cchildren (hp c)),
           cparents := filter (\<lambda>p. p \<notin> {k}) (cparents (hp c))\<rparr>" if "c \<in> set (remove1 k M)" for c
  proof -
    have c: "c \<in> set M" using that by (metis notin_set_remove1)
    have "k \<in> set (cchildren (hp c)) \<longleftrightarrow> c \<in> set (cparents (hp k))" using d(4)[OF c] assms(4) by auto
    moreover have "c \<in> set (cchildren (hp k)) \<longleftrightarrow> k \<in> set (cparents (hp c))" using d(4)[OF assms(4)] c by auto
    ultimately show ?thesis
      using d(2,3)[OF assms(4)] d(2,3)[OF c]
      by (simp add: fold_dropParent fold_dropChild remove1_as_filter filter_absent)
  qed
  have set: "set (remove1 k M) = set M - {k}" using assms(3) by simp
  show "linksOK ?h (remove1 k M)" "linked ?h (remove1 k M)"
    using linksOK_remove[OF assms(1,2) set at] by auto
qed

section \<open>Removing a window\<close>

definition involves :: "(cid \<Rightarrow> sconstraint) \<Rightarrow> wid \<Rightarrow> cid \<Rightarrow> bool" where
  "involves hp w c \<longleftrightarrow> cbelow (hp c) = w \<or> cabove (hp c) = w"

lemma filter_filter_notin: "distinct xs \<Longrightarrow> remove1 k (filter (\<lambda>e. e \<notin> R) xs) = filter (\<lambda>e. e \<notin> insert k R) xs"
  by (induction xs) (auto simp: remove1_as_filter intro!: filter_cong)

text \<open>The loop of \<open>removeFromStack\<close> after some steps: the constraints of the window met so far are gone, and no
  surviving constraint links to them.\<close>

lemma removeConstraintOf_fold:
  assumes "linksOK hp M" "distinct M" "set ks \<subseteq> set M" "distinct ks"
  shows "\<exists>cs' hp'. fold (removeConstraintOf w) ks (M, hp) = (cs', hp') \<and> distinct cs' \<and>
    set cs' = set M - {k \<in> set ks. involves hp w k} \<and>
    (\<forall>c \<in> set M. cbelow (hp' c) = cbelow (hp c) \<and> cabove (hp' c) = cabove (hp c)) \<and>
    (\<forall>c \<in> set M. \<not> involves hp w c \<longrightarrow> hp' c = (hp c)\<lparr>
       cchildren := filter (\<lambda>e. e \<notin> {k \<in> set ks. involves hp w k}) (cchildren (hp c)),
       cparents := filter (\<lambda>p. p \<notin> {k \<in> set ks. involves hp w k}) (cparents (hp c))\<rparr>) \<and>
    (\<forall>c \<in> set M. involves hp w c \<longrightarrow> distinct (cchildren (hp' c)) \<and> distinct (cparents (hp' c)) \<and>
       set (cchildren (hp' c)) \<subseteq> set M \<and> set (cparents (hp' c)) \<subseteq> set M \<and>
       (\<forall>e \<in> set M. \<not> involves hp w e \<longrightarrow>
          (e \<in> set (cchildren (hp' c)) \<longleftrightarrow> e \<in> set (cchildren (hp c))) \<and>
          (e \<in> set (cparents (hp' c)) \<longleftrightarrow> e \<in> set (cparents (hp c)))))"
  using assms(3,4)
proof (induction ks rule: rev_induct)
  case Nil
  have "set (cchildren (hp c)) \<subseteq> set M" "set (cparents (hp c)) \<subseteq> set M" if "c \<in> set M" for c
    using linksOK_D(4,5)[OF assms(1) that] by auto
  then show ?case using assms(2) linksOK_D(2,3)[OF assms(1)] by auto
next
  case (snoc k ks)
  let ?R = "{j \<in> set ks. involves hp w j}"
  obtain cs' hp' where IH: "fold (removeConstraintOf w) ks (M, hp) = (cs', hp')" "distinct cs'" "set cs' = set M - ?R"
    and ba: "\<And>c. c \<in> set M \<Longrightarrow> cbelow (hp' c) = cbelow (hp c) \<and> cabove (hp' c) = cabove (hp c)"
    and live: "\<And>c. c \<in> set M \<Longrightarrow> \<not> involves hp w c \<Longrightarrow> hp' c = (hp c)\<lparr>
       cchildren := filter (\<lambda>e. e \<notin> ?R) (cchildren (hp c)), cparents := filter (\<lambda>p. p \<notin> ?R) (cparents (hp c))\<rparr>"
    and dead: "\<And>c. c \<in> set M \<Longrightarrow> involves hp w c \<Longrightarrow> distinct (cchildren (hp' c)) \<and> distinct (cparents (hp' c)) \<and>
       set (cchildren (hp' c)) \<subseteq> set M \<and> set (cparents (hp' c)) \<subseteq> set M \<and>
       (\<forall>e \<in> set M. \<not> involves hp w e \<longrightarrow>
          (e \<in> set (cchildren (hp' c)) \<longleftrightarrow> e \<in> set (cchildren (hp c))) \<and>
          (e \<in> set (cparents (hp' c)) \<longleftrightarrow> e \<in> set (cparents (hp c))))"
    using snoc by auto
  have kM: "k \<in> set M" "k \<notin> set ks" using snoc.prems by auto
  note d = linksOK_D[OF assms(1)]
  show ?case
  proof (cases "involves hp w k")
    case False
    then have "{j \<in> set (ks @ [k]). involves hp w j} = ?R" by auto
    moreover have "removeConstraintOf w k (cs', hp') = (cs', hp')"
      using False ba[OF kM(1)] by (simp add: removeConstraintOf_def involves_def)
    ultimately show ?thesis using IH ba live dead by auto
  next
    case True
    have R: "{j \<in> set (ks @ [k]). involves hp w j} = insert k ?R" using True by auto
    note dk = dead[OF kM(1) True]
    define hp'' where "hp'' = (if cbelow (hp k) = w then fold (dropParent k) (cchildren (hp' k)) hp'
      else fold (dropChild k) (cparents (hp' k)) hp')"
    have step: "removeConstraintOf w k (cs', hp') = (remove1 k cs', hp'')"
      using True ba[OF kM(1)] by (auto simp: removeConstraintOf_def involves_def hp''_def)
    have at: "hp'' c = (if cbelow (hp k) = w
        then (if c \<in> set (cchildren (hp' k)) then (hp' c)\<lparr>cparents := remove1 k (cparents (hp' c))\<rparr> else hp' c)
        else (if c \<in> set (cparents (hp' k)) then (hp' c)\<lparr>cchildren := remove1 k (cchildren (hp' c))\<rparr> else hp' c))" for c
      using dk by (simp add: hp''_def fold_dropParent fold_dropChild)
    have live': "hp'' c = (hp c)\<lparr>cchildren := filter (\<lambda>e. e \<notin> insert k ?R) (cchildren (hp c)),
        cparents := filter (\<lambda>p. p \<notin> insert k ?R) (cparents (hp c))\<rparr>" if c: "c \<in> set M" "\<not> involves hp w c" for c
    proof -
      have ch: "c \<in> set (cchildren (hp' k)) \<longleftrightarrow> k \<in> set (cparents (hp c))"
        "c \<in> set (cparents (hp' k)) \<longleftrightarrow> k \<in> set (cchildren (hp c))"
        using dk c d(4)[OF kM(1)] d(4)[OF c(1)] kM(1) by auto
      have "k \<notin> set (cchildren (hp c))" if "cbelow (hp k) = w"
      proof
        assume "k \<in> set (cchildren (hp c))"
        then have "c \<in> set (cparents (hp k))" using d(4)[OF c(1)] by simp
        then have "cabove (hp c) = cbelow (hp k)" using d(5)[OF kM(1)] by simp
        then show False using that c(2) by (simp add: involves_def)
      qed
      moreover have "k \<notin> set (cparents (hp c))" if "cbelow (hp k) \<noteq> w"
      proof
        assume "k \<in> set (cparents (hp c))"
        then have "cabove (hp k) = cbelow (hp c)" using d(5)[OF c(1)] by simp
        moreover have "cabove (hp k) = w" using that True by (simp add: involves_def)
        ultimately show False using c(2) by (simp add: involves_def)
      qed
      moreover have skip: "filter (\<lambda>e. e \<notin> insert k ?R) xs = filter (\<lambda>e. e \<notin> ?R) xs" if "k \<notin> set xs" for xs
        using that by (intro filter_cong) auto
      ultimately show ?thesis
        using live[OF c] ch filter_filter_notin[OF d(2)[OF c(1)], of k ?R] filter_filter_notin[OF d(3)[OF c(1)], of k ?R]
        by (cases "cbelow (hp k) = w") (simp_all add: at)
    qed
    have ba'': "cbelow (hp'' c) = cbelow (hp' c) \<and> cabove (hp'' c) = cabove (hp' c)" for c by (simp add: at)
    have dead': "distinct (cchildren (hp'' c)) \<and> distinct (cparents (hp'' c)) \<and>
       set (cchildren (hp'' c)) \<subseteq> set M \<and> set (cparents (hp'' c)) \<subseteq> set M \<and>
       (\<forall>e \<in> set M. \<not> involves hp w e \<longrightarrow>
          (e \<in> set (cchildren (hp'' c)) \<longleftrightarrow> e \<in> set (cchildren (hp c))) \<and>
          (e \<in> set (cparents (hp'' c)) \<longleftrightarrow> e \<in> set (cparents (hp c))))" if c: "c \<in> set M" "involves hp w c" for c
    proof -
      have "e \<in> set (remove1 k xs) \<longleftrightarrow> e \<in> set xs" if "\<not> involves hp w e" for e xs
        using that True by (metis in_set_remove1)
      then show ?thesis using dead[OF c] set_remove1_subset[of k] distinct_remove1 True
        by (auto simp: at)
    qed
    have "set (remove1 k cs') = set M - insert k ?R" using IH(2,3) by auto
    moreover have "distinct (remove1 k cs')" using IH(2) by simp
    moreover have "fold (removeConstraintOf w) (ks @ [k]) (M, hp) = (remove1 k cs', hp'')" using IH(1) step by simp
    ultimately show ?thesis
      unfolding R using ba ba'' live' dead' by (intro exI[of _ "remove1 k cs'"] exI[of _ hp'']) simp
  qed
qed

lemma removeFromStack_graph:
  assumes "graphOK s"
  shows "graphOK (removeFromStack w s)"
    and "set (m_constraints (removeFromStack w s)) = {c \<in> set (m_constraints s). \<not> involves (constraintAt s) w c}"
proof -
  let ?M = "m_constraints s" and ?hp = "constraintAt s"
  have ok: "linksOK ?hp ?M" "linked ?hp ?M" "distinct ?M" using assms by (auto simp: graphOK_def)
  have "set (rev ?M) \<subseteq> set ?M" "distinct (rev ?M)" using ok(3) by auto
  from removeConstraintOf_fold[OF ok(1,3) this, of w] obtain cs' hp' where
    f: "fold (removeConstraintOf w) (rev ?M) (?M, ?hp) = (cs', hp')" "distinct cs'"
    "set cs' = set ?M - {k \<in> set ?M. involves ?hp w k}"
    and live: "\<And>c. c \<in> set ?M \<Longrightarrow> \<not> involves ?hp w c \<Longrightarrow> hp' c = (?hp c)\<lparr>
       cchildren := filter (\<lambda>e. e \<notin> {k \<in> set ?M. involves ?hp w k}) (cchildren (?hp c)),
       cparents := filter (\<lambda>p. p \<notin> {k \<in> set ?M. involves ?hp w k}) (cparents (?hp c))\<rparr>"
    unfolding set_rev by blast
  have "linksOK hp' cs'" "linked hp' cs'"
    by (rule linksOK_remove[OF ok(1,2) f(3)]; use live f(3) in simp)+
  then show "graphOK (removeFromStack w s)"
    using assms f by (auto simp: graphOK_def removeFromStack_def)
  show "set (m_constraints (removeFromStack w s)) = {c \<in> set ?M. \<not> involves ?hp w c}"
    using f by (auto simp: removeFromStack_def)
qed

section \<open>Replacing a window\<close>

text \<open>A closed window is replaced by an object that no constraint mentions yet.\<close>

lemma replaceInConstraint_ba:
  "cbelow (replaceInConstraint old new c) = (if cbelow c = old then new else cbelow c)"
  "cbelow c \<noteq> cabove c \<Longrightarrow> cabove (replaceInConstraint old new c) = (if cabove c = old then new else cabove c)"
  "cchildren (replaceInConstraint old new c) = cchildren c" "cparents (replaceInConstraint old new c) = cparents c"
  by (auto simp: replaceInConstraint_def)

lemma replaceInStack_graph:
  assumes "graphOK s" "\<forall>c \<in> set (m_constraints s). \<not> involves (constraintAt s) deleted c"
  shows "graphOK (replaceInStack original deleted s)"
proof -
  let ?M = "m_constraints s" and ?hp = "constraintAt s"
  let ?h = "\<lambda>c. if c \<in> set ?M then replaceInConstraint original deleted (?hp c) else ?hp c"
  let ?f = "\<lambda>w. if w = original then deleted else w"
  have ok: "linksOK ?hp ?M" "linked ?hp ?M" using assms(1) by (auto simp: graphOK_def)
  have ba: "cbelow (?h c) = ?f (cbelow (?hp c))" "cabove (?h c) = ?f (cabove (?hp c))"
    "cchildren (?h c) = cchildren (?hp c)" "cparents (?h c) = cparents (?hp c)" if "c \<in> set ?M" for c
    using that linksOK_D(1)[OF ok(1) that] by (simp_all add: replaceInConstraint_ba)
  have inj: "?f x = ?f y \<longleftrightarrow> x = y" if "x \<noteq> deleted" "y \<noteq> deleted" for x y using that by auto
  have nd: "cbelow (?hp c) \<noteq> deleted" "cabove (?hp c) \<noteq> deleted" if "c \<in> set ?M" for c
    using assms(2) that by (auto simp: involves_def)
  have "linksOK ?h ?M" unfolding linksOK_def
  proof (intro ballI conjI)
    fix c assume c: "c \<in> set ?M"
    note d = linksOK_D[OF ok(1) c]
    show "cbelow (?h c) \<noteq> cabove (?h c)" using ba[OF c] inj nd[OF c] d(1) by simp
    show "distinct (cchildren (?h c))" "distinct (cparents (?h c))" using ba[OF c] d(2,3) by simp_all
    show "set (cchildren (?h c)) = {e \<in> set ?M. c \<in> set (cparents (?h e))}"
      using ba(3)[OF c] ba(4) d(4) by auto
    fix p assume "p \<in> set (cparents (?h c))"
    then have p: "p \<in> set (cparents (?hp c))" using ba(4)[OF c] by simp
    then show "p \<in> set ?M" using d(5) by simp
    then show "cabove (?h p) = cbelow (?h c)" using ba(1)[OF c] ba(2)[of p] d(5)[OF p] by simp
  qed
  moreover have "linked ?h ?M" unfolding linked_def
  proof (intro ballI impI)
    fix c e assume ce: "c \<in> set ?M" "e \<in> set ?M" "cabove (?h c) = cbelow (?h e)" "cabove (?h e) \<noteq> cbelow (?h c)"
    have "cabove (?hp c) = cbelow (?hp e)" "cabove (?hp e) \<noteq> cbelow (?hp c)"
      using ce(3,4) ba(1,2)[OF ce(1)] ba(1,2)[OF ce(2)] inj nd[OF ce(1)] nd[OF ce(2)] by (metis, metis)
    then show "e \<in> set (cchildren (?h c))" using ok(2) ce(1,2) ba(3)[OF ce(1)] by (simp add: linked_def)
  qed
  ultimately show ?thesis using assms(1) by (simp add: graphOK_def replaceInStack_def)
qed

end
