(* ===== verification/Stacking_Properties.thy ===== *)
theory Stacking_Properties
  imports Stacking_Graph
begin

text \<open>
  The stacking order as a state machine: totality of the update, the invariant of the reachable states, what
  raising, lowering and restacking do to the order, and the properties that rest on these.
\<close>

section \<open>The update is total\<close>

lemma windowLayer_known: "windowLayer E w \<noteq> UnknownLayer"
  using belongsToLayer_known by (simp add: windowLayer_def)

lemma computeLayer_known: "computeLayer E w \<noteq> UnknownLayer"
  using windowLayer_known[of E w] by (auto simp: computeLayer_def layerForWindow_def split: option.splits)

abbreviation layerNo :: "stack_env \<Rightarrow> wid \<Rightarrow> int" where
  "layerNo E w \<equiv> layerIndex (computeLayer E w)"

lemma layerNo_range: "0 \<le> layerNo E w \<and> layerNo E w < 12"
  using layerIndex_range computeLayer_known by blast

lemma withoutSplitBars_none [simp]: "splitBarWindows E = [] \<Longrightarrow> withoutSplitBars E ws = ws"
  by (simp add: withoutSplitBars_def)

lemma withoutSplitBars_distinct: "distinct ws \<Longrightarrow> distinct (withoutSplitBars E ws)"
proof -
  have "distinct ws \<Longrightarrow> distinct (fold (\<lambda>(k, bar) ws. case bar of None \<Rightarrow> ws | Some b \<Rightarrow> removeAll b ws) bs ws)" for bs :: "(string \<times> wid option) list"
    by (induction bs arbitrary: ws) (auto simp: distinct_removeAll split: option.split)
  then show "distinct ws \<Longrightarrow> distinct (withoutSplitBars E ws)" by (simp add: withoutSplitBars_def)
qed

lemma graphOK_root: "set (rootConstraints s) \<subseteq> set (m_constraints s)"
  by (auto simp: rootConstraints_def)

text \<open>The order before split bars are put in.\<close>

definition constraintPass :: "stack_env \<Rightarrow> stacking \<Rightarrow> wid list option" where
  "constraintPass E s = processConstraints (constraintAt s) (rootConstraints s) (rootConstraints s)
     (layered (layerNo E) (withoutSplitBars E (unconstrained_stacking_order s)))"

lemma constrained_eq:
  "constrainedStackingOrder E s = do {
     st \<leftarrow> constraintPass E s;
     st \<leftarrow> (if splitBarWindows E = [] then Some st else insertSplitBars (splitBarWindows E) (splitWindows E) st);
     Some (st, s\<lparr>unconstrained_stacking_order := withoutSplitBars E (unconstrained_stacking_order s)\<rparr>) }"
  using computeLayer_known[of E]
  by (simp add: constrainedStackingOrder_def constraintPass_def rootConstraints_def Let_def)

lemma constraintPass_total:
  assumes "graphOK s" "distinct (unconstrained_stacking_order s)"
  shows "\<exists>st. constraintPass E s = Some st \<and> distinct st \<and>
    mset st = mset (withoutSplitBars E (unconstrained_stacking_order s))"
proof -
  let ?ws = "withoutSplitBars E (unconstrained_stacking_order s)"
  have m: "mset (layered (layerNo E) ?ws) = mset ?ws"
    using layerNo_range by (intro mset_layered) auto
  have "distinct (layered (layerNo E) ?ws)"
    using withoutSplitBars_distinct[OF assms(2)] mset_eq_imp_distinct_iff[OF m] by blast
  moreover have "closedUnder (constraintAt s) (m_constraints s)"
    using assms(1) linksOK_closed by (auto simp: graphOK_def)
  ultimately show ?thesis
    using processConstraints_total[OF _ graphOK_root, of "constraintAt s" s "layered (layerNo E) ?ws" "rootConstraints s"] m
    by (auto simp: constraintPass_def)
qed

section \<open>Frames\<close>

text \<open>What an update of the order leaves alone.\<close>

definition sameGraph :: "stacking \<Rightarrow> stacking \<Rightarrow> bool" where
  "sameGraph s s' \<longleftrightarrow> m_constraints s' = m_constraints s \<and> constraintAt s' = constraintAt s \<and>
     nextConstraint s' = nextConstraint s"

lemma sameGraph_refl [simp]: "sameGraph s s" by (simp add: sameGraph_def)

lemma sameGraph_trans: "sameGraph s t \<Longrightarrow> sameGraph t u \<Longrightarrow> sameGraph s u" by (simp add: sameGraph_def)

lemma sameGraph_graphOK: "sameGraph s s' \<Longrightarrow> graphOK s' = graphOK s"
  by (simp add: sameGraph_def graphOK_def)

lemma sameGraph_simps [simp]:
  "sameGraph s (xcall c t) = sameGraph s t" "sameGraph s (setUnconstrained f t) = sameGraph s t"
  "sameGraph s (propagateWindows E p t) = sameGraph s t" "sameGraph s (t\<lparr>stackPosition := q\<rparr>) = sameGraph s t"
  "sameGraph s (t\<lparr>force_restacking := b\<rparr>) = sameGraph s t" "sameGraph s (t\<lparr>stacking_order := ws\<rparr>) = sameGraph s t"
  "sameGraph s (t\<lparr>unconstrained_stacking_order := ws\<rparr>) = sameGraph s t"
  "sameGraph s (t\<lparr>m_blockedPropagatingNewWindows := b\<rparr>) = sameGraph s t"
  "sameGraph s (t\<lparr>m_blockStackingUpdates := n\<rparr>) = sameGraph s t" "sameGraph s (t\<lparr>stackFocusChain := ch\<rparr>) = sameGraph s t"
  by (simp_all add: sameGraph_def xcall_def setUnconstrained_def propagateWindows_def Let_def)

lemma propagate_fields [simp]:
  "unconstrained_stacking_order (propagateWindows E p s) = unconstrained_stacking_order s"
  "stacking_order (propagateWindows E p s) = stacking_order s"
  "m_blockStackingUpdates (propagateWindows E p s) = m_blockStackingUpdates s"
  by (simp_all add: propagateWindows_def xcall_def Let_def)

lemma xcall_fields [simp]:
  "unconstrained_stacking_order (xcall c s) = unconstrained_stacking_order s" "stacking_order (xcall c s) = stacking_order s"
  "m_blockStackingUpdates (xcall c s) = m_blockStackingUpdates s" "constraintAt (xcall c s) = constraintAt s"
  "m_constraints (xcall c s) = m_constraints s" "graphOK (xcall c s) = graphOK s"
  by (simp_all add: xcall_def graphOK_def)

lemma setUnconstrained_fields [simp]:
  "unconstrained_stacking_order (setUnconstrained f s) = f (unconstrained_stacking_order s)"
  "stacking_order (setUnconstrained f s) = stacking_order s"
  "m_blockStackingUpdates (setUnconstrained f s) = m_blockStackingUpdates s" "graphOK (setUnconstrained f s) = graphOK s"
  by (simp_all add: setUnconstrained_def graphOK_def)

lemma updateStackingOrder_frame:
  assumes "updateStackingOrder E p s = Some s'"
  shows "sameGraph s s' \<and> m_blockStackingUpdates s' = m_blockStackingUpdates s \<and>
    unconstrained_stacking_order s' = (if m_blockStackingUpdates s > 0 then unconstrained_stacking_order s
      else withoutSplitBars E (unconstrained_stacking_order s))"
  using assms
  by (auto simp: updateStackingOrder_def constrained_eq bind_eq_Some_conv Let_def split: if_splits prod.splits)

lemma updateStackingOrder_order:
  assumes "updateStackingOrder E p s = Some s'" "\<not> m_blockStackingUpdates s > 0"
  shows "map_option fst (constrainedStackingOrder E s) = Some (stacking_order s')"
  using assms
  by (auto simp: updateStackingOrder_def bind_eq_Some_conv Let_def split: if_splits prod.splits)

lemma updateStackingOrder_total:
  assumes "graphOK s" "distinct (unconstrained_stacking_order s)" "splitBarWindows E = []"
  shows "\<exists>s'. updateStackingOrder E p s = Some s'"
  using constraintPass_total[OF assms(1,2), of E] assms(3)
  by (auto simp: updateStackingOrder_def constrained_eq Let_def)

text \<open>A blocker's scope.\<close>

lemma withBlocker_eq:
  "withBlocker E f s = do {
     s \<leftarrow> f (s\<lparr>m_blockedPropagatingNewWindows := (if m_blockStackingUpdates s = 0 then False else m_blockedPropagatingNewWindows s),
             m_blockStackingUpdates := m_blockStackingUpdates s + 1\<rparr>);
     blockStackingUpdates E False s }"
proof -
  have "blockStackingUpdates E True s = Some (s\<lparr>m_blockedPropagatingNewWindows :=
      (if m_blockStackingUpdates s = 0 then False else m_blockedPropagatingNewWindows s),
             m_blockStackingUpdates := m_blockStackingUpdates s + 1\<rparr>)"
    by (cases "m_blockStackingUpdates s = 0") (simp_all add: blockStackingUpdates_def)
  then show ?thesis by (simp add: withBlocker_def)
qed

lemma unblock_frame:
  assumes "blockStackingUpdates E False s = Some s'"
  shows "sameGraph s s' \<and> m_blockStackingUpdates s' = m_blockStackingUpdates s - 1 \<and>
    (unconstrained_stacking_order s' = unconstrained_stacking_order s \<or>
     unconstrained_stacking_order s' = withoutSplitBars E (unconstrained_stacking_order s)) \<and>
    (splitBarWindows E = [] \<longrightarrow> unconstrained_stacking_order s' = unconstrained_stacking_order s)"
proof -
  let ?s = "s\<lparr>m_blockStackingUpdates := m_blockStackingUpdates s - 1\<rparr>"
  show ?thesis
  proof (cases "m_blockStackingUpdates s = 1")
    case True
    then have "updateStackingOrder E (m_blockedPropagatingNewWindows s) ?s = Some s'"
      using assms by (simp add: blockStackingUpdates_def Let_def)
    from updateStackingOrder_frame[OF this] show ?thesis using True by (simp add: sameGraph_def)
  next
    case False
    then have "s' = ?s" using assms by (simp add: blockStackingUpdates_def Let_def)
    then show ?thesis by simp
  qed
qed

lemma unblock_total:
  assumes "graphOK s" "distinct (unconstrained_stacking_order s)" "splitBarWindows E = []"
  shows "\<exists>s'. blockStackingUpdates E False s = Some s'"
  using updateStackingOrder_total[of "s\<lparr>m_blockStackingUpdates := m_blockStackingUpdates s - 1\<rparr>" E] assms
  by (auto simp: blockStackingUpdates_def Let_def graphOK_def)

section \<open>The invariant of the workspace\<close>

definition stkInv :: "stacking \<Rightarrow> bool" where
  "stkInv s \<longleftrightarrow> graphOK s \<and> distinct (unconstrained_stacking_order s)"

text \<open>A step that edits the unconstrained order only, under a blocker.\<close>

lemma unblock_inv: "stkInv s \<Longrightarrow> blockStackingUpdates E False s = Some s' \<Longrightarrow> stkInv s'"
  using unblock_frame[of E s s'] sameGraph_graphOK withoutSplitBars_distinct by (auto simp: stkInv_def)

lemma updateStackingOrder_inv: "stkInv s \<Longrightarrow> updateStackingOrder E p s = Some s' \<Longrightarrow> stkInv s'"
  using updateStackingOrder_frame[of E p s s'] sameGraph_graphOK withoutSplitBars_distinct
  by (auto simp: stkInv_def split: if_splits)

lemma stkInv_irrelevant [simp]:
  "stkInv (xcall c s) = stkInv s" "stkInv (s\<lparr>m_blockStackingUpdates := n\<rparr>) = stkInv s"
  "stkInv (s\<lparr>m_blockedPropagatingNewWindows := b\<rparr>) = stkInv s" "stkInv (s\<lparr>stackFocusChain := ch\<rparr>) = stkInv s"
  by (simp_all add: stkInv_def graphOK_def xcall_def)

lemma withBlocker_inv:
  assumes "stkInv s" "withBlocker E f s = Some s'" "\<And>t t'. stkInv t \<Longrightarrow> f t = Some t' \<Longrightarrow> stkInv t'"
  shows "stkInv s'"
proof -
  obtain t where t: "f (s\<lparr>m_blockedPropagatingNewWindows := (if m_blockStackingUpdates s = 0 then False else m_blockedPropagatingNewWindows s),
             m_blockStackingUpdates := m_blockStackingUpdates s + 1\<rparr>) = Some t" "blockStackingUpdates E False t = Some s'"
    using assms(2) by (auto simp: withBlocker_eq bind_eq_Some_conv)
  have "stkInv t" by (rule assms(3)[OF _ t(1)]) (use assms(1) in simp)
  then show ?thesis using unblock_inv t(2) by blast
qed

section \<open>Edits of the unconstrained order\<close>

interpretation toTop: list_placing "toTop w" w for w
  by unfold_locales (auto simp: toTop_def distinct_removeAll)

interpretation toBottom: list_placing "toBottom w" w for w
  by unfold_locales (auto simp: toBottom_def distinct_removeAll)

interpretation belowApp: list_placing "belowApp E w" w for E w
  by unfold_locales (auto simp: belowApp_def Let_def list_ops distinct_removeAll)

interpretation aboveApp: list_edit "aboveApp E w" w for E w
  by unfold_locales (auto simp: aboveApp_def Let_def list_ops distinct_removeAll split: option.split)

interpretation restoreOrder: list_placing "restoreOrder E w" w for E w
  by unfold_locales (auto simp: restoreOrder_def Let_def list_ops distinct_removeAll)

lemma setUnconstrained_inv:
  "stkInv s \<Longrightarrow> (\<And>ws. distinct ws \<Longrightarrow> distinct (f ws)) \<Longrightarrow> stkInv (setUnconstrained f s)"
  by (simp add: stkInv_def)

lemma edit_inv:
  assumes "stkInv s" "withBlocker E (\<lambda>s. Some (setUnconstrained f s)) s = Some s'" "\<And>ws. distinct ws \<Longrightarrow> distinct (f ws)"
  shows "stkInv s'"
  using withBlocker_inv[OF assms(1,2)] setUnconstrained_inv assms(3) by blast

lemma edit_total:
  assumes "stkInv s" "splitBarWindows E = []" "\<And>ws. distinct ws \<Longrightarrow> distinct (f ws)"
  shows "\<exists>s'. withBlocker E (\<lambda>s. Some (setUnconstrained f s)) s = Some s' \<and>
    unconstrained_stacking_order s' = f (unconstrained_stacking_order s) \<and> sameGraph s s' \<and>
    m_blockStackingUpdates s' = m_blockStackingUpdates s"
proof -
  let ?t = "setUnconstrained f (s\<lparr>m_blockedPropagatingNewWindows := (if m_blockStackingUpdates s = 0 then False else m_blockedPropagatingNewWindows s),
             m_blockStackingUpdates := m_blockStackingUpdates s + 1\<rparr>)"
  have "graphOK ?t" "distinct (unconstrained_stacking_order ?t)" using assms by (auto simp: stkInv_def graphOK_def setUnconstrained_def)
  then obtain s' where s': "blockStackingUpdates E False ?t = Some s'" using unblock_total assms(2) by blast
  from unblock_frame[OF this] s' assms(2) show ?thesis
    by (intro exI[of _ s']) (simp add: withBlocker_eq sameGraph_def setUnconstrained_def)
qed

lemma raiseOne_total:
  assumes "stkInv s" "splitBarWindows E = []"
  shows "\<exists>s'. raiseOne E w s = Some s' \<and> stkInv s' \<and>
    unconstrained_stacking_order s' = toTop w (unconstrained_stacking_order s)"
proof -
  have "stkInv (xcall (CancelAutoRaise w) s)" using assms(1) by simp
  from edit_total[OF this assms(2), of "toTop w"] obtain s' where
    "raiseOne E w s = Some s'" "unconstrained_stacking_order s' = toTop w (unconstrained_stacking_order s)"
    using toTop.keeps_distinct[of _ w] unfolding raiseOne_def xcall_fields by blast
  moreover have "stkInv s'"
    using edit_inv[of "xcall (CancelAutoRaise w) s" E "toTop w" s'] toTop.keeps_distinct assms(1) calculation(1)
    by (simp add: raiseOne_def)
  ultimately show ?thesis by blast
qed

lemma raiseAll_total:
  assumes "stkInv s" "splitBarWindows E = []"
  shows "\<exists>s'. raiseAll E ps s = Some s' \<and> stkInv s' \<and>
    unconstrained_stacking_order s' = fold toTop ps (unconstrained_stacking_order s)"
  using assms(1)
proof (induction ps arbitrary: s)
  case (Cons p ps)
  obtain s1 where "raiseOne E p s = Some s1" "stkInv s1"
    "unconstrained_stacking_order s1 = toTop p (unconstrained_stacking_order s)"
    using raiseOne_total[OF Cons.prems assms(2)] by blast
  then show ?case using Cons.IH[of s1] by auto
qed simp

lemma raiseAll_inv: "stkInv s \<Longrightarrow> raiseAll E ps s = Some s' \<Longrightarrow> stkInv s'"
proof (induction ps arbitrary: s)
  case (Cons p ps)
  then obtain s1 where "raiseOne E p s = Some s1" "raiseAll E ps s1 = Some s'" by (auto simp: bind_eq_Some_conv)
  moreover have "stkInv s1"
    using edit_inv[of "xcall (CancelAutoRaise p) s" E "toTop p" s1] toTop.keeps_distinct Cons.prems calculation(1)
    by (simp add: raiseOne_def)
  ultimately show ?case using Cons.IH by blast
qed simp

lemma lowerAll_inv: "stkInv s \<Longrightarrow> lowerAll E ps s = Some s' \<Longrightarrow> stkInv s'"
proof (induction ps arbitrary: s)
  case (Cons p ps)
  then obtain s1 where "lowerOne E p s = Some s1" "lowerAll E ps s1 = Some s'" by (auto simp: bind_eq_Some_conv)
  moreover have "stkInv s1"
    using edit_inv[of "xcall (CancelAutoRaise p) s" E "toBottom p" s1] toBottom.keeps_distinct Cons.prems calculation(1)
    by (simp add: lowerOne_def)
  ultimately show ?case using Cons.IH by blast
qed simp

lemma raiseWindow_inv:
  assumes "stkInv s" "raiseWindow E window nogroup s = Some s'"
  shows "stkInv s'"
proof (cases window)
  case None
  then show ?thesis using assms by (simp add: raiseWindow_def)
next
  case (Some w)
  show ?thesis
  proof (rule withBlocker_inv[of "xcall (CancelAutoRaise w) s"])
    show "stkInv (xcall (CancelAutoRaise w) s)" using assms(1) by simp
    show "withBlocker E (\<lambda>s. do {
         s \<leftarrow> (if \<not> nogroup \<and> isTransient (windowAt (world E) w)
              then transientChain (world E) w \<bind> (\<lambda>ps. raiseAll E ps s) else Some s);
         Some (setUnconstrained (toTop w) s) }) (xcall (CancelAutoRaise w) s) = Some s'"
      using assms(2) Some by (simp add: raiseWindow_def)
  next
    fix t t' assume t: "stkInv t" "(do {
         s \<leftarrow> (if \<not> nogroup \<and> isTransient (windowAt (world E) w)
              then transientChain (world E) w \<bind> (\<lambda>ps. raiseAll E ps t) else Some t);
         Some (setUnconstrained (toTop w) s) }) = Some t'"
    then obtain t1 where t1: "t' = setUnconstrained (toTop w) t1"
      "t1 = t \<or> (\<exists>ps. raiseAll E ps t = Some t1)"
      by (auto simp: bind_eq_Some_conv split: if_splits)
    then have "stkInv t1" using t(1) raiseAll_inv by blast
    then show "stkInv t'" using t1(1) setUnconstrained_inv toTop.keeps_distinct by blast
  qed
qed

lemma lowerWindow_inv:
  assumes "stkInv s" "lowerWindow E window nogroup s = Some s'"
  shows "stkInv s'"
proof (cases window)
  case None
  then show ?thesis using assms by (simp add: lowerWindow_def)
next
  case (Some w)
  show ?thesis
  proof (rule withBlocker_inv[of "xcall (CancelAutoRaise w) s"])
    show "stkInv (xcall (CancelAutoRaise w) s)" using assms(1) by simp
    show "withBlocker E (\<lambda>s. do {
         let s = setUnconstrained (toBottom w) s;
         (if \<not> nogroup \<and> isTransient (windowAt (world E) w)
          then (let wins = (case groupMembers E w of None \<Rightarrow> []
                  | Some ms \<Rightarrow> ensureStackingOrder (stacking_order s) ms)
                in lowerAll E (filter (\<lambda>x. x \<noteq> w) (rev wins)) s)
          else Some s) }) (xcall (CancelAutoRaise w) s) = Some s'"
      using assms(2) Some by (simp add: lowerWindow_def)
  next
    fix t t' assume t: "stkInv t" "(do {
         let s = setUnconstrained (toBottom w) t;
         (if \<not> nogroup \<and> isTransient (windowAt (world E) w)
          then (let wins = (case groupMembers E w of None \<Rightarrow> []
                  | Some ms \<Rightarrow> ensureStackingOrder (stacking_order s) ms)
                in lowerAll E (filter (\<lambda>x. x \<noteq> w) (rev wins)) s)
          else Some s) }) = Some t'"
    have "stkInv (setUnconstrained (toBottom w) t)" using t(1) setUnconstrained_inv toBottom.keeps_distinct by blast
    then show "stkInv t'" using t(2) lowerAll_inv by (auto simp: Let_def split: if_splits)
  qed
qed

section \<open>Transitions\<close>

definition stacking_init :: "focus_chain \<Rightarrow> stacking" where
  "stacking_init chain = \<lparr>unconstrained_stacking_order = [], stacking_order = [], m_constraints = [],
     constraintAt = (\<lambda>_. \<lparr>cbelow = 0, cabove = 0, cparents = [], cchildren = []\<rparr>), nextConstraint = 0,
     m_blockStackingUpdates = 0, m_blockedPropagatingNewWindows = False, force_restacking = False,
     stackPosition = (\<lambda>_. 0), stackFocusChain = chain, xcalls = []\<rparr>"

inductive stk_step :: "stacking \<Rightarrow> stacking \<Rightarrow> bool" where
  stk_add: "stk_step s (addToStack w s)"
| stk_remove: "stk_step s (removeFromStack w s)"
| stk_replace: "deleted \<notin> set (unconstrained_stacking_order s) \<Longrightarrow>
    \<forall>c \<in> set (m_constraints s). \<not> involves (constraintAt s) deleted c \<Longrightarrow>
    stk_step s (replaceInStack original deleted s)"
| stk_constrain: "constrain E b a s = Some s' \<Longrightarrow> stk_step s s'"
| stk_unconstrain: "unconstrain E b a s = Some s' \<Longrightarrow> stk_step s s'"
| stk_update: "updateStackingOrder E p s = Some s' \<Longrightarrow> stk_step s s'"
| stk_block: "blockStackingUpdates E b s = Some s' \<Longrightarrow> stk_step s s'"
| stk_raise: "raiseWindow E w ng s = Some s' \<Longrightarrow> stk_step s s'"
| stk_lower: "lowerWindow E w ng s = Some s' \<Longrightarrow> stk_step s s'"
| stk_raiseApp: "raiseWindowWithinApplication E w s = Some s' \<Longrightarrow> stk_step s s'"
| stk_lowerApp: "lowerWindowWithinApplication E w s = Some s' \<Longrightarrow> stk_step s s'"
| stk_raiseOrLower: "raiseOrLowerWindow E w s = Some s' \<Longrightarrow> stk_step s s'"
| stk_restack: "restack E v r force s = Some s' \<Longrightarrow> stk_step s s'"
| stk_restackActive: "restackWindowUnderActive E ac v s = Some s' \<Longrightarrow> stk_step s s'"
| stk_restore: "restoreSessionStackingOrder E v s = Some s' \<Longrightarrow> stk_step s s'"
| stk_updateX: "updateXStackingOrder E f tree um s = Some s' \<Longrightarrow> stk_step s s'"

inductive stk_reachable :: "stacking \<Rightarrow> bool" where
  stk_start: "stk_reachable (stacking_init chain)"
| stk_next: "stk_reachable s \<Longrightarrow> stk_step s s' \<Longrightarrow> stk_reachable s'"

lemma constrain_inv:
  assumes "stkInv s" "constrain E b a s = Some s'"
  shows "stkInv s'"
proof (cases "b = a \<or> (\<exists>c \<in> set (m_constraints s). cbelow (constraintAt s c) = b \<and> cabove (constraintAt s c) = a)")
  case True
  then show ?thesis using assms by (simp add: constrain_def)
next
  case False
  let ?n = "nextConstraint s" and ?M = "m_constraints s"
  let ?t = "s\<lparr>m_constraints := ?M @ [?n], constraintAt := addConstraint b a ?n ?M (constraintAt s), nextConstraint := Suc ?n\<rparr>"
  have ok: "linksOK (constraintAt s) ?M" "linked (constraintAt s) ?M" "distinct ?M" "?n \<notin> set ?M"
    "\<forall>c \<in> set ?M. c < ?n"
    using assms(1) by (auto simp: stkInv_def graphOK_def)
  have "linksOK (addConstraint b a ?n ?M (constraintAt s)) (?M @ [?n])"
    "linked (addConstraint b a ?n ?M (constraintAt s)) (?M @ [?n])"
    using addConstraint_links[OF ok(1-4), of a b] False by auto
  then have "stkInv ?t" using assms(1) ok(3-5) by (auto simp: stkInv_def graphOK_def)
  moreover have "updateStackingOrder E False ?t = Some s'"
    using assms(2) False unfolding constrain_def addConstraint_def Let_def by (simp only: if_False)
  ultimately show ?thesis using updateStackingOrder_inv by blast
qed

lemma unconstrain_inv:
  assumes "stkInv s" "unconstrain E b a s = Some s'"
  shows "stkInv s'"
proof (cases "find (\<lambda>c. cbelow (constraintAt s c) = b \<and> cabove (constraintAt s c) = a) (m_constraints s)")
  case None
  then show ?thesis using assms by (simp add: unconstrain_def)
next
  case (Some k)
  let ?h = "fold (dropParent k) (cchildren (constraintAt s k)) (fold (dropChild k) (cparents (constraintAt s k)) (constraintAt s))"
  let ?t = "s\<lparr>m_constraints := remove1 k (m_constraints s), constraintAt := ?h\<rparr>"
  have k: "k \<in> set (m_constraints s)" using Some by (auto simp: find_Some_iff)
  have ok: "linksOK (constraintAt s) (m_constraints s)" "linked (constraintAt s) (m_constraints s)" "distinct (m_constraints s)"
    using assms(1) by (auto simp: stkInv_def graphOK_def)
  have "stkInv ?t" using assms(1) unconstrain_links[OF ok k] set_remove1_subset[of k "m_constraints s"]
    by (auto simp: stkInv_def graphOK_def)
  moreover have "updateStackingOrder E False ?t = Some s'" using assms(2) Some by (simp add: unconstrain_def Let_def)
  ultimately show ?thesis using updateStackingOrder_inv by blast
qed

lemma distinct_replaceFirst: "distinct ws \<Longrightarrow> new \<notin> set ws \<Longrightarrow> distinct (replaceFirst old new ws)"
  by (auto simp: replaceFirst_def intro: distinct_list_update)

lemma raiseUnmanaged_distinct: "distinct ws \<Longrightarrow> distinct (raiseUnmanaged f xs n ws)"
  by (induction f xs n ws rule: raiseUnmanaged.induct) (auto simp: toTop.keeps_distinct split: option.split)

lemma within_inv:
  assumes "stkInv s"
  shows "raiseWindowWithinApplication E window s = Some s' \<Longrightarrow> stkInv s'"
    and "lowerWindowWithinApplication E window s = Some s' \<Longrightarrow> stkInv s'"
  using assms edit_inv[of "xcall (CancelAutoRaise (the window)) s" E "aboveApp E (the window)" s'] aboveApp.keeps_distinct
    edit_inv[of "xcall (CancelAutoRaise (the window)) s" E "belowApp E (the window)" s'] belowApp.keeps_distinct
  by (auto simp: raiseWindowWithinApplication_def lowerWindowWithinApplication_def split: option.splits)

lemma restack_inv:
  assumes "stkInv s" "restack E v r force s = Some s'"
  shows "stkInv s'"
proof (cases "v \<in> set (unconstrained_stacking_order s)")
  case False
  then show ?thesis using assms by (simp add: restack_def)
next
  case True
  let ?ws = "unconstrained_stacking_order s"
  obtain t ch where t: "(case restackTarget E v r force ?ws of None \<Rightarrow> Some s
       | Some u \<Rightarrow> (let ws = removeAll v ?ws
           in map_option (\<lambda>ws. s\<lparr>unconstrained_stacking_order := ws\<rparr>) (insertAt (indexOf ws u) v ws))) = Some t"
    "updateStackingOrder E False (t\<lparr>stackFocusChain := ch\<rparr>) = Some s'"
    using assms(2) True by (auto simp: restack_def bind_eq_Some_conv Let_def)
  have "stkInv t"
  proof (cases "restackTarget E v r force ?ws")
    case None
    then show ?thesis using t(1) assms(1) by simp
  next
    case (Some u)
    then obtain ws where ws: "insertAt (indexOf (removeAll v ?ws) u) v (removeAll v ?ws) = Some ws"
      "t = s\<lparr>unconstrained_stacking_order := ws\<rparr>"
      using t(1) by (auto simp: Let_def)
    have "distinct ws" using insertAt_distinct[OF ws(1)] assms(1) by (simp add: stkInv_def distinct_removeAll)
    then show ?thesis using assms(1) ws(2) by (simp add: stkInv_def graphOK_def)
  qed
  then show ?thesis using updateStackingOrder_inv[OF _ t(2)] by simp
qed

lemma block_inv: "stkInv s \<Longrightarrow> blockStackingUpdates E b s = Some s' \<Longrightarrow> stkInv s'"
  using unblock_inv by (cases b) (auto simp: blockStackingUpdates_def Let_def)

lemma stk_step_inv:
  assumes "stk_step s s'" "stkInv s"
  shows "stkInv s'"
  using assms(1)
proof (cases rule: stk_step.cases)
  case (stk_remove w)
  then show ?thesis using removeFromStack_graph(1)[of s w] assms(2)
    by (simp add: stkInv_def removeFromStack_def split_def Let_def distinct_removeAll)
next
  case (stk_replace deleted original)
  then show ?thesis using replaceInStack_graph[of s deleted original] assms(2) distinct_replaceFirst
    by (simp add: stkInv_def replaceInStack_def)
next
  case (stk_raiseOrLower E w)
  then show ?thesis using raiseWindow_inv[OF assms(2)] lowerWindow_inv[OF assms(2)] assms(2)
    by (auto simp: raiseOrLowerWindow_def split: option.splits if_splits)
next
  case (stk_restackActive E ac v)
  then show ?thesis using raiseWindow_inv[OF assms(2)] restack_inv[OF assms(2)]
    by (auto simp: restackWindowUnderActive_def split: option.splits if_splits)
next
  case (stk_restore E v)
  then show ?thesis using edit_inv[OF assms(2), of E "restoreOrder E v" s'] restoreOrder.keeps_distinct assms(2)
    by (auto simp: restoreSessionStackingOrder_def split: if_splits)
next
  case (stk_updateX E f tree um)
  have "stkInv (setUnconstrained (raiseUnmanaged f tree (int (length um))) s)"
    using assms(2) raiseUnmanaged_distinct setUnconstrained_inv by blast
  then show ?thesis using stk_updateX updateStackingOrder_inv by (auto simp: updateXStackingOrder_def Let_def split: if_splits)
next
  case (stk_add w)
  then show ?thesis using assms(2) by (simp add: stkInv_def addToStack_def graphOK_def)
next
  case (stk_constrain E b a)
  then show ?thesis using constrain_inv[OF assms(2)] by blast
next
  case (stk_unconstrain E b a)
  then show ?thesis using unconstrain_inv[OF assms(2)] by blast
next
  case (stk_update E p)
  then show ?thesis using updateStackingOrder_inv[OF assms(2)] by blast
next
  case (stk_block E b)
  then show ?thesis using block_inv[OF assms(2)] by blast
next
  case (stk_raise E w ng)
  then show ?thesis using raiseWindow_inv[OF assms(2)] by blast
next
  case (stk_lower E w ng)
  then show ?thesis using lowerWindow_inv[OF assms(2)] by blast
next
  case (stk_raiseApp E w)
  then show ?thesis using within_inv(1)[OF assms(2)] by blast
next
  case (stk_lowerApp E w)
  then show ?thesis using within_inv(2)[OF assms(2)] by blast
next
  case (stk_restack E v r force)
  then show ?thesis using restack_inv[OF assms(2)] by blast
qed

lemma stk_reachable_inv: "stk_reachable s \<Longrightarrow> stkInv s"
proof (induction rule: stk_reachable.induct)
  case (stk_start chain)
  show ?case by (simp add: stkInv_def stacking_init_def graphOK_def linksOK_def linked_def)
qed (use stk_step_inv in blast)

section \<open>A concrete workspace\<close>

definition demo_stack_env :: stack_env where
  "demo_stack_env = \<lparr>world = demo_env, cachedLayer = (\<lambda>_. UnknownLayer), groupMembers = (\<lambda>_. None),
     splitBarWindows = [], splitWindows = [], hasRootInfo = False, supportWindow = 0, screenEdgeWindows = [],
     manual_overlays = [], x11Clients = [], frameId = (\<lambda>w. w), inputId = (\<lambda>_. None), windowId = (\<lambda>w. w),
     hiddenPreview = (\<lambda>_. False), isSplitBar = (\<lambda>_. False), separateScreenFocus = False,
     sessionStackingOrder = (\<lambda>_. -1), allowFullClientRaising = (\<lambda>_. True), hasUserTimeSupport = (\<lambda>_. False)\<rparr>"

definition demo_stack :: stacking where
  "demo_stack = addToStack 3 (addToStack 2 (addToStack 1 (stacking_init fc_init)))"

lemma demo_stack_reachable: "stk_reachable demo_stack"
  unfolding demo_stack_def
  by (intro stk_next[OF _ stk_add] stk_start)

lemma demo_stack: "unconstrained_stacking_order demo_stack = [1, 2, 3]" "m_blockStackingUpdates demo_stack = 0"
  "m_constraints demo_stack = []" "stacking_order demo_stack = [1, 2, 3]"
  by (simp_all add: demo_stack_def addToStack_def stacking_init_def)

lemma demo_no_bars: "splitBarWindows demo_stack_env = []"
  by (simp add: demo_stack_env_def)

section \<open>Raising and lowering\<close>

lemma fold_toTop: "distinct ps \<Longrightarrow> fold toTop ps ws = filter (\<lambda>x. x \<notin> set ps) ws @ ps"
proof (induction ps arbitrary: ws)
  case (Cons p ps)
  have "filter (\<lambda>x. x \<notin> set ps) (removeAll p ws) = filter (\<lambda>x. x \<notin> set (p # ps)) ws"
    by (induction ws) auto
  then show ?case using Cons by (simp add: toTop_def)
qed simp

text \<open>The windows that \<open>raiseWindow\<close> takes along.\<close>

definition raisedWith :: "stack_env \<Rightarrow> bool \<Rightarrow> wid \<Rightarrow> wid list option" where
  "raisedWith E nogroup w = (if \<not> nogroup \<and> isTransient (windowAt (world E) w) then transientChain (world E) w else Some [])"

lemma raiseWindow_total:
  assumes "stkInv s" "splitBarWindows E = []" "raisedWith E nogroup w = Some ps"
  shows "\<exists>s'. raiseWindow E (Some w) nogroup s = Some s' \<and>
    unconstrained_stacking_order s' = toTop w (fold toTop ps (unconstrained_stacking_order s)) \<and>
    m_blockStackingUpdates s' = m_blockStackingUpdates s"
proof -
  let ?c = "xcall (CancelAutoRaise w) s"
  let ?s0 = "?c\<lparr>m_blockedPropagatingNewWindows := (if m_blockStackingUpdates ?c = 0 then False else m_blockedPropagatingNewWindows ?c),
             m_blockStackingUpdates := m_blockStackingUpdates ?c + 1\<rparr>"
  have "stkInv ?s0" using assms(1) by simp
  from raiseAll_total[OF this assms(2)] obtain t where t: "raiseAll E ps ?s0 = Some t" "stkInv t"
    "unconstrained_stacking_order t = fold toTop ps (unconstrained_stacking_order s)" by auto
  have blk: "m_blockStackingUpdates t = m_blockStackingUpdates ?s0"
  proof -
    have one: "m_blockStackingUpdates b = m_blockStackingUpdates a" if one: "raiseOne E p a = Some b" for p a b
      using one unblock_frame[of E _ b] by (auto simp: raiseOne_def withBlocker_eq bind_eq_Some_conv)
    have "raiseAll E qs a = Some b \<Longrightarrow> m_blockStackingUpdates b = m_blockStackingUpdates a" for qs a b
      by (induction qs arbitrary: a) (auto simp: bind_eq_Some_conv dest: one)
    then show ?thesis using t(1) by blast
  qed
  let ?u = "setUnconstrained (toTop w) t"
  have "stkInv ?u" using t(2) setUnconstrained_inv toTop.keeps_distinct by blast
  then obtain s' where s': "blockStackingUpdates E False ?u = Some s'"
    using unblock_total[of ?u E] assms(2) by (auto simp: stkInv_def)
  have body: "(if \<not> nogroup \<and> isTransient (windowAt (world E) w)
              then transientChain (world E) w \<bind> (\<lambda>ps. raiseAll E ps ?s0) else Some ?s0) = Some t"
    using assms(3) t(1) by (auto simp: raisedWith_def split: if_splits)
  have "raiseWindow E (Some w) nogroup s = Some s'"
    unfolding raiseWindow_def option.case withBlocker_eq body Option.bind.simps using s' by simp
  then show ?thesis using unblock_frame[OF s'] assms(2) t(3) blk by (intro exI[of _ s']) simp
qed

section \<open>Graded constraints in a workspace\<close>

lemma initial_bfsInv:
  assumes "graphOK s" "graded r (constraintAt s) (m_constraints s)" "distinct st"
    "\<forall>c \<in> set (m_constraints s). cbelow (constraintAt s c) \<in> set st \<and> cabove (constraintAt s c) \<in> set st"
  shows "bfsInv r (constraintAt s) (m_constraints s) (rootConstraints s) (rootConstraints s) st"
proof -
  let ?hp = "constraintAt s" and ?M = "m_constraints s"
  have ok: "linksOK ?hp ?M" "linked ?hp ?M" "distinct ?M" using assms(1) by (auto simp: graphOK_def)
  have root: "c \<in> set (rootConstraints s) \<longleftrightarrow> r (cbelow (?hp c)) = 0" if c: "c \<in> set ?M" for c
  proof
    assume "c \<in> set (rootConstraints s)"
    then have none: "cparents (?hp c) = []" by (simp add: rootConstraints_def)
    show "r (cbelow (?hp c)) = 0"
    proof (rule ccontr)
      assume "r (cbelow (?hp c)) \<noteq> 0"
      then obtain k where "r (cbelow (?hp c)) = Suc k" by (cases "r (cbelow (?hp c))") auto
      then obtain p where "p \<in> set ?M" "c \<in> set (cchildren (?hp p))"
        using graded_child[OF assms(2) ok(2) c] by blast
      then have "p \<in> set (cparents (?hp c))" using linksOK_D(4)[OF ok(1)] by blast
      then show False using none by simp
    qed
  next
    assume z: "r (cbelow (?hp c)) = 0"
    have "cparents (?hp c) = []"
    proof (rule ccontr)
      assume "cparents (?hp c) \<noteq> []"
      then obtain p where "p \<in> set (cparents (?hp c))" by (cases "cparents (?hp c)") auto
      then have "p \<in> set ?M" "cabove (?hp p) = cbelow (?hp c)" using linksOK_D(5)[OF ok(1) c] by auto
      then show False using assms(2) z by (auto simp: graded_def)
    qed
    then show "c \<in> set (rootConstraints s)" using c by (simp add: rootConstraints_def)
  qed
  have sub: "set (rootConstraints s) \<subseteq> set ?M" by (rule graphOK_root)
  have "\<exists>k A B. rootConstraints s = A @ B \<and> (\<forall>c \<in> set A. r (cbelow (?hp c)) = k) \<and> (\<forall>c \<in> set B. r (cbelow (?hp c)) = Suc k) \<and>
        (\<forall>c \<in> set ?M. r (cbelow (?hp c)) \<le> k \<longrightarrow> c \<in> set (rootConstraints s)) \<and>
        (\<forall>c \<in> set (rootConstraints s) - set (rootConstraints s). r (cbelow (?hp c)) \<le> k)"
    by (intro exI[of _ 0] exI[of _ "rootConstraints s"] exI[of _ "[]"]) (use root sub in auto)
  moreover have "distinct (rootConstraints s)" using ok(3) by (simp add: rootConstraints_def)
  ultimately show ?thesis unfolding bfsInv_def using sub assms(3,4) by simp
qed

lemma constraintPass_satisfies:
  assumes "graphOK s" "distinct (unconstrained_stacking_order s)" "splitBarWindows E = []"
    "graded r (constraintAt s) (m_constraints s)"
    "\<forall>c \<in> set (m_constraints s). cbelow (constraintAt s c) \<in> set (unconstrained_stacking_order s) \<and>
       cabove (constraintAt s c) \<in> set (unconstrained_stacking_order s)"
    "constraintPass E s = Some st" "c \<in> set (m_constraints s)"
  shows "before st (cbelow (constraintAt s c)) (cabove (constraintAt s c))"
proof -
  let ?st = "layered (layerNo E) (unconstrained_stacking_order s)"
  have m: "mset ?st = mset (unconstrained_stacking_order s)" using layerNo_range by (intro mset_layered) auto
  have d: "distinct ?st" using assms(2) mset_eq_imp_distinct_iff[OF m] by blast
  have set: "set ?st = set (unconstrained_stacking_order s)" using m by (metis set_mset_mset)
  have ok: "linksOK (constraintAt s) (m_constraints s)" "linked (constraintAt s) (m_constraints s)"
    using assms(1) by (auto simp: graphOK_def)
  have run: "processConstraints (constraintAt s) (rootConstraints s) (rootConstraints s) ?st = Some st"
    using assms(3,6) by (simp add: constraintPass_def)
  show ?thesis
    by (rule processConstraints_satisfies[OF assms(4) ok(2) linksOK_childrenOK[OF ok(1)] linksOK_closed[OF ok(1)]
          initial_bfsInv[OF assms(1,4) d] run assms(7)]) (use assms(5) set in simp)
qed

section \<open>Four windows and constraints of different depth\<close>

lemma computeLayer_demo: "computeLayer demo_stack_env w = NormalLayer"
  by (simp add: computeLayer_def layerForWindow_def windowLayer_def demo_stack_env_def belongsToLayer_def Let_def demo_window_def
      demo_env_def isPopupWindow_def previewingClientList_def isActiveFullScreen_def)

lemma layered_same:
  assumes "\<And>w. lay w = k" "0 \<le> k" "k < 12"
  shows "layered lay ws = ws"
  using layered_stable[OF assms(2,3), of lay ws] assms(1) by simp

definition demo_blocked :: stacking where
  "demo_blocked = (addToStack 2 (addToStack 4 (addToStack 3 (addToStack 1 (stacking_init fc_init)))))\<lparr>m_blockStackingUpdates := 1\<rparr>"

text \<open>3 is above 1 and above 2, 2 is above 1, and 4 is above 3.\<close>

definition demo_diamond :: stacking where
  "demo_diamond = demo_blocked\<lparr>m_constraints := [0, 1, 2, 3], nextConstraint := 4,
     constraintAt := (\<lambda>_. \<lparr>cbelow = 0, cabove = 0, cparents = [], cchildren = []\<rparr>)(
       1 := \<lparr>cbelow = 1, cabove = 2, cparents = [], cchildren = [2]\<rparr>,
       3 := \<lparr>cbelow = 3, cabove = 4, cparents = [0, 2], cchildren = []\<rparr>,
       0 := \<lparr>cbelow = 1, cabove = 3, cparents = [], cchildren = [3]\<rparr>,
       2 := \<lparr>cbelow = 2, cabove = 3, cparents = [1], cchildren = [3]\<rparr>)\<rparr>"

lemma demo_diamond_built:
  "(constrain demo_stack_env 1 3 demo_blocked \<bind> constrain demo_stack_env 1 2 \<bind> constrain demo_stack_env 2 3
    \<bind> constrain demo_stack_env 3 4) = Some demo_diamond"
  by (simp add: constrain_def updateStackingOrder_def demo_blocked_def demo_diamond_def addToStack_def stacking_init_def Let_def)
    (simp add: eval_nat_numeral)

lemma demo_blocked_reachable: "stk_reachable demo_blocked"
proof -
  let ?a = "addToStack 2 (addToStack 4 (addToStack 3 (addToStack 1 (stacking_init fc_init))))"
  have "blockStackingUpdates demo_stack_env True ?a = Some demo_blocked"
    by (simp add: blockStackingUpdates_def demo_blocked_def addToStack_def stacking_init_def)
  moreover have "stk_reachable ?a" by (intro stk_next[OF _ stk_add] stk_start)
  ultimately show ?thesis using stk_next stk_block by blast
qed

lemma demo_diamond_reachable: "stk_reachable demo_diamond"
proof -
  obtain a b c where "constrain demo_stack_env 1 3 demo_blocked = Some a" "constrain demo_stack_env 1 2 a = Some b"
    "constrain demo_stack_env 2 3 b = Some c" "constrain demo_stack_env 3 4 c = Some demo_diamond"
    using demo_diamond_built by (auto simp: bind_eq_Some_conv)
  then show ?thesis using demo_blocked_reachable by (meson stk_constrain stk_next)
qed

lemma demo_diamond_pass: "constraintPass demo_stack_env (demo_diamond\<lparr>m_blockStackingUpdates := 0\<rparr>) = Some [1, 4, 2, 3]"
proof -
  have "layered (layerNo demo_stack_env) [1, 3, 4, 2] = [1, 3, 4, 2]"
    by (rule layered_same[of _ "layerIndex NormalLayer"]) (simp_all add: computeLayer_demo)
  then show ?thesis
    by (simp add: constraintPass_def demo_no_bars rootConstraints_def demo_diamond_def demo_blocked_def addToStack_def
        stacking_init_def processConstraints.simps enqueueChildren_def applyConstraint_def list_insert_def Let_def)
qed

section \<open>Properties\<close>

text \<open>C2: However the stack, its windows and its constraints have been changed, no window is twice in the
  unconstrained order, no constraint is listed twice or relates a window to itself, and the links are consistent:
  \<open>e\<close> is a child of \<open>c\<close> exactly when \<open>c\<close> is a parent of \<open>e\<close>, linked constraints share the window between
  them, and no link points to a deleted constraint.\<close>

theorem stk_reachable_graph:
  assumes "stk_reachable s"
  shows "distinct (unconstrained_stacking_order s) \<and> distinct (m_constraints s) \<and>
    (\<forall>c \<in> set (m_constraints s). cbelow (constraintAt s c) \<noteq> cabove (constraintAt s c) \<and>
      (\<forall>e. e \<in> set (cchildren (constraintAt s c)) \<longleftrightarrow>
        e \<in> set (m_constraints s) \<and> c \<in> set (cparents (constraintAt s e))) \<and>
      (\<forall>p \<in> set (cparents (constraintAt s c)). p \<in> set (m_constraints s) \<and>
        cabove (constraintAt s p) = cbelow (constraintAt s c)))"
proof -
  have inv: "stkInv s" by (rule stk_reachable_inv[OF assms])
  have l: "linksOK (constraintAt s) (m_constraints s)" using inv by (simp add: stkInv_def graphOK_def)
  show ?thesis using inv linksOK_D[OF l] by (auto simp: stkInv_def graphOK_def)
qed

theorem stk_reachable_graph_witness: "distinct (unconstrained_stacking_order demo_stack)"
  using stk_reachable_graph[OF demo_stack_reachable] by simp

text \<open>C10: Outside the blockers and without split bars the update always returns (the traversal of the
  constraints ends), and the new order has exactly the windows of the unconstrained one.\<close>

theorem stk_update_permutes:
  assumes "stk_reachable s" "m_blockStackingUpdates s = 0" "splitBarWindows E = []"
  shows "\<exists>s'. updateStackingOrder E p s = Some s' \<and>
    mset (stacking_order s') = mset (unconstrained_stacking_order s) \<and>
    unconstrained_stacking_order s' = unconstrained_stacking_order s"
proof -
  have inv: "graphOK s" "distinct (unconstrained_stacking_order s)"
    using stk_reachable_inv[OF assms(1)] by (auto simp: stkInv_def)
  obtain s' where s': "updateStackingOrder E p s = Some s'" using updateStackingOrder_total[OF inv assms(3)] by blast
  obtain st where st: "constraintPass E s = Some st" "mset st = mset (withoutSplitBars E (unconstrained_stacking_order s))"
    using constraintPass_total[OF inv] by blast
  then have "stacking_order s' = st"
    using updateStackingOrder_order[OF s'] assms(2,3) by (simp add: constrained_eq)
  then show ?thesis using s' st(2) updateStackingOrder_frame[OF s'] assms(2,3) by auto
qed

theorem stk_update_permutes_witness:
  "\<exists>s'. updateStackingOrder demo_stack_env True demo_stack = Some s' \<and> mset (stacking_order s') = mset [1, 2, 3]"
  using stk_update_permutes[OF demo_stack_reachable demo_stack(2) demo_no_bars, of True] demo_stack(1) by auto





text \<open>C12: Without a grading the breadth-first pass can leave a constraint violated although the constraints
  have no cycle: a constraint that is reached early through one parent is not applied again when the window
  below it is moved up later through another one.\<close>

theorem stk_constraint_left_violated:
  "\<exists>s s' c. stk_reachable s \<and> (\<forall>k \<in> set (m_constraints s). cbelow (constraintAt s k) < cabove (constraintAt s k)) \<and>
    blockStackingUpdates demo_stack_env False s = Some s' \<and> m_blockStackingUpdates s' = 0 \<and> c \<in> set (m_constraints s') \<and>
    cbelow (constraintAt s' c) \<in> set (stacking_order s') \<and>
    0 \<le> indexOf (stacking_order s') (cabove (constraintAt s' c)) \<and>
    indexOf (stacking_order s') (cabove (constraintAt s' c)) < indexOf (stacking_order s') (cbelow (constraintAt s' c))"
proof -
  let ?s = "demo_diamond\<lparr>m_blockStackingUpdates := 0\<rparr>"
  have "m_blockStackingUpdates demo_diamond = 1" by (simp add: demo_diamond_def demo_blocked_def)
  then have u: "blockStackingUpdates demo_stack_env False demo_diamond =
      updateStackingOrder demo_stack_env (m_blockedPropagatingNewWindows demo_diamond) ?s"
    by (simp add: blockStackingUpdates_def Let_def)
  obtain s' where s': "blockStackingUpdates demo_stack_env False demo_diamond = Some s'"
    using u demo_diamond_pass demo_no_bars by (auto simp: updateStackingOrder_def constrained_eq Let_def)
  note upd = s'[unfolded u]
  have o: "stacking_order s' = [1, 4, 2, 3]"
    using updateStackingOrder_order[OF upd] demo_diamond_pass demo_no_bars by (simp add: constrained_eq)
  have fr: "m_constraints s' = m_constraints demo_diamond" "constraintAt s' = constraintAt demo_diamond"
    "m_blockStackingUpdates s' = 0"
    using updateStackingOrder_frame[OF upd] by (simp_all add: sameGraph_def)
  show ?thesis
    by (rule exI[of _ demo_diamond], rule exI[of _ s'], rule exI[of _ 3])
      (use demo_diamond_reachable s' in \<open>simp add: fr o, simp add: demo_diamond_def\<close>)
qed

theorem stk_constraint_left_violated_witness:
  "\<exists>s s' c. stk_reachable s \<and> blockStackingUpdates demo_stack_env False s = Some s' \<and> c \<in> set (m_constraints s') \<and>
    indexOf (stacking_order s') (cabove (constraintAt s' c)) < indexOf (stacking_order s') (cbelow (constraintAt s' c))"
  using stk_constraint_left_violated by blast

text \<open>C24: \<open>raiseWindow\<close> returns and leaves the other windows in their order, followed by the windows the raised
  one belongs to, nearest first, and the window itself on top.\<close>

theorem stk_raise_order:
  assumes "stk_reachable s" "splitBarWindows E = []" "raisedWith E nogroup w = Some ps" "distinct (ps @ [w])"
  shows "\<exists>s'. raiseWindow E (Some w) nogroup s = Some s' \<and>
    unconstrained_stacking_order s' = filter (\<lambda>x. x \<notin> set (ps @ [w])) (unconstrained_stacking_order s) @ ps @ [w] \<and>
    m_blockStackingUpdates s' = m_blockStackingUpdates s"
proof -
  obtain s' where s': "raiseWindow E (Some w) nogroup s = Some s'"
    "unconstrained_stacking_order s' = toTop w (fold toTop ps (unconstrained_stacking_order s))"
    "m_blockStackingUpdates s' = m_blockStackingUpdates s"
    using raiseWindow_total[OF stk_reachable_inv[OF assms(1)] assms(2,3)] by blast
  have "toTop w (fold toTop ps (unconstrained_stacking_order s)) = fold toTop (ps @ [w]) (unconstrained_stacking_order s)"
    by simp
  also have "\<dots> = filter (\<lambda>x. x \<notin> set (ps @ [w])) (unconstrained_stacking_order s) @ (ps @ [w])"
    by (rule fold_toTop[OF assms(4)])
  finally show ?thesis using s' by auto
qed

theorem stk_raise_order_witness:
  "\<exists>s'. raiseWindow demo_stack_env (Some 1) False demo_stack = Some s' \<and> unconstrained_stacking_order s' = [2, 3, 1]"
proof -
  have "raisedWith demo_stack_env False 1 = Some []"
    by (simp add: raisedWith_def demo_stack_env_def) (simp add: demo_window_def)
  from stk_raise_order[OF demo_stack_reachable demo_no_bars this] show ?thesis
    by (auto simp: demo_stack(1))
qed

text \<open>\<open>raiseWindowWithinApplication\<close> does not move a window that is already above all clients of its
  application; otherwise it ends up directly above the topmost of them, and no other window moves.\<close>

theorem stk_raise_within_application:
  assumes "stk_reachable s" "splitBarWindows E = []"
  shows "\<exists>s'. raiseWindowWithinApplication E (Some w) s = Some s' \<and>
    (unconstrained_stacking_order s' = unconstrained_stacking_order s \<or>
     (\<exists>us other vs. removeAll w (unconstrained_stacking_order s) = us @ other # vs \<and>
        unconstrained_stacking_order s' = us @ other # w # vs \<and>
        isClient (windowAt (world E) other) \<and> sameApp E other w \<and>
        (\<forall>x \<in> set vs. \<not> (isClient (windowAt (world E) x) \<and> sameApp E x w))))"
proof -
  have inv: "stkInv (xcall (CancelAutoRaise w) s)" using stk_reachable_inv[OF assms(1)] by simp
  let ?ws = "unconstrained_stacking_order s"
  let ?P = "\<lambda>other. clientWindow E other \<and> (other = w \<or> sameApp E other w)"
  obtain s' where s': "raiseWindowWithinApplication E (Some w) s = Some s'"
    "unconstrained_stacking_order s' = aboveApp E w ?ws"
    using edit_total[OF inv assms(2), of "aboveApp E w"] aboveApp.keeps_distinct
    by (auto simp: raiseWindowWithinApplication_def)
  show ?thesis
  proof (cases "findLast ?P ?ws")
    case None
    then show ?thesis using s' by (auto simp: aboveApp_def)
  next
    case (Some other)
    show ?thesis
    proof (cases "other = w")
      case True
      then show ?thesis using s' Some by (auto simp: aboveApp_def)
    next
      case False
      obtain ys zs where sp: "?ws = ys @ other # zs" "?P other" "\<forall>z \<in> set zs. \<not> ?P z"
        using findLast_split[OF Some] by blast
      have d: "distinct ?ws" using stk_reachable_inv[OF assms(1)] by (simp add: stkInv_def)
      have r: "removeAll w ?ws = removeAll w ys @ other # removeAll w zs" using False sp(1) by simp
      have i: "indexOf (removeAll w ?ws) other = int (length (removeAll w ys))"
      proof -
        have "other \<notin> set (removeAll w ys)" using d sp(1) by auto
        then show ?thesis using indexOf_append2[of other "removeAll w ys" "other # removeAll w zs"] by (simp add: r)
      qed
      have "aboveApp E w ?ws = removeAll w ys @ other # w # removeAll w zs"
        using Some False i r by (simp add: aboveApp_def Let_def list_insert_def nat_add_distrib)
      moreover have "\<forall>x \<in> set (removeAll w zs). \<not> (clientWindow E x \<and> sameApp E x w)" using sp(3) by auto
      ultimately show ?thesis using s' r sp(2) False
        by (intro exI[of _ s'] conjI disjI2 exI[of _ "removeAll w ys"] exI[of _ other] exI[of _ "removeAll w zs"]) simp_all
    qed
  qed
qed

theorem stk_raise_within_application_witness:
  "\<exists>s'. raiseWindowWithinApplication demo_stack_env (Some 1) demo_stack = Some s'"
  using stk_raise_within_application[OF demo_stack_reachable demo_no_bars, of 1] by blast

text \<open>Restacking a window under another one, forced or within an application, puts it directly below that
  window and moves no other.\<close>

theorem stk_restack_places:
  assumes "stk_reachable s" "splitBarWindows E = []" "w \<in> set (unconstrained_stacking_order s)" "w \<noteq> u"
    "force \<or> sameApp E u w" "restack E w u force s = Some s'"
  shows "\<exists>us vs. removeAll w (unconstrained_stacking_order s) = us @ u # vs \<and>
    unconstrained_stacking_order s' = us @ w # u # vs"
proof -
  let ?ws = "unconstrained_stacking_order s"
  have u: "u \<in> set ?ws" using assms(3,6) by (auto simp: restack_def bind_eq_Some_conv Let_def)
  have t: "restackTarget E w u force ?ws = Some u" using assms(5) by (auto simp: restackTarget_def)
  obtain us vs where sp: "removeAll w ?ws = us @ u # vs" "u \<notin> set us"
    using u assms(4) split_list_first[of u "removeAll w ?ws"] by auto
  have i: "indexOf (removeAll w ?ws) u = int (length us)" using sp by (simp add: indexOf_append2)
  have ins: "insertAt (indexOf (removeAll w ?ws) u) w (removeAll w ?ws) = Some (us @ w # u # vs)"
    using i sp(1) by (simp add: insertAt_def list_insert_def)
  obtain ch where "updateStackingOrder E False (s\<lparr>unconstrained_stacking_order := us @ w # u # vs, stackFocusChain := ch\<rparr>) = Some s'"
    using assms(3,6) u t ins by (auto simp: restack_def bind_eq_Some_conv Let_def)
  from updateStackingOrder_frame[OF this] show ?thesis using sp(1) assms(2) by auto
qed

theorem stk_restack_places_witness:
  "\<exists>s'. restack demo_stack_env 3 1 True demo_stack = Some s' \<and> unconstrained_stacking_order s' = [3, 1, 2]"
proof -
  let ?ws = "[3, 1, 2] :: wid list"
  have ch: "stackFocusChain demo_stack = fc_init" by (simp add: demo_stack_def addToStack_def stacking_init_def)
  obtain c where c: "moveAfterWindow demo_env 3 (Some (Suc 0)) fc_init = Some c"
    by (cases "moveAfterWindow demo_env 3 (Some (Suc 0)) fc_init")
      (auto simp: moveAfterWindow_def fc_init_def moveAfterWindowInChain_def Let_def split: option.splits if_splits)
  have w: "world demo_stack_env = demo_env" by (simp add: demo_stack_env_def)
  have r: "restack demo_stack_env 3 1 True demo_stack = updateStackingOrder demo_stack_env False
      (demo_stack\<lparr>unconstrained_stacking_order := ?ws, stackFocusChain := c\<rparr>)"
    by (simp add: restack_def restackTarget_def demo_stack ch c w insertAt_def list_insert_def Let_def)
  have ok: "graphOK (demo_stack\<lparr>unconstrained_stacking_order := ?ws, stackFocusChain := c\<rparr>)"
    using stk_reachable_inv[OF demo_stack_reachable] by (simp add: stkInv_def graphOK_def)
  obtain s' where s': "restack demo_stack_env 3 1 True demo_stack = Some s'"
    using r updateStackingOrder_total[OF ok _ demo_no_bars] by auto
  have "(3::wid) \<in> set (unconstrained_stacking_order demo_stack)" by (simp add: demo_stack)
  from stk_restack_places[OF demo_stack_reachable demo_no_bars this _ _ s']
  obtain us vs where "removeAll 3 [1, 2, 3] = us @ 1 # vs" "unconstrained_stacking_order s' = us @ 3 # 1 # vs"
    by (auto simp: demo_stack)
  moreover have "us = []" using calculation(1) by (cases us) (auto simp: Cons_eq_append_conv)
  ultimately show ?thesis using s' by auto
qed

end
