(* ===== verification/Gestures.thy ===== *)
theory Gestures
  imports Qt_Geometry "HOL-Library.Monad_Syntax"
begin

text \<open>
  The gesture recognizer (\<open>src/src/gestures.cpp\<close>). Gesture objects are named by numbers;
  \<open>swipeAt\<close> and \<open>pinchAt\<close> hold their attributes. Signals are appended to \<open>gsignals\<close> in the
  order they are emitted; slots connected to them do not call back into the recognizer in this
  model. A progress is \<open>None\<close> where the code divides 0 by 0 (not a number).
\<close>

section \<open>Gestures\<close>

datatype swipe_direction = SwipeDown | SwipeLeft | SwipeUp | SwipeRight
datatype pinch_direction = Expanding | Contracting
datatype axis = HorizontalAxis | VerticalAxis | NoAxis

record swipe_gesture =
  sMinimumFingerCountRelevant :: bool
  sMinimumFingerCount :: nat
  sMaximumFingerCountRelevant :: bool
  sMaximumFingerCount :: nat
  sDirection :: swipe_direction
  sMinimumXRelevant :: bool
  sMinimumX :: int
  sMinimumYRelevant :: bool
  sMinimumY :: int
  sMaximumXRelevant :: bool
  sMaximumX :: int
  sMaximumYRelevant :: bool
  sMaximumY :: int
  sMinimumDeltaRelevant :: bool
  sMinimumDelta :: qpointf

record pinch_gesture =
  pMinimumFingerCountRelevant :: bool
  pMinimumFingerCount :: nat
  pMaximumFingerCountRelevant :: bool
  pMaximumFingerCount :: nat
  pDirection :: pinch_direction
  pMinimumScaleDeltaRelevant :: bool
  pMinimumScaleDelta :: qreal

definition setMinimumFingerCount :: "nat \<Rightarrow> swipe_gesture \<Rightarrow> swipe_gesture" where
  "setMinimumFingerCount n g = g\<lparr>sMinimumFingerCountRelevant := True, sMinimumFingerCount := n\<rparr>"

definition setMaximumFingerCount :: "nat \<Rightarrow> swipe_gesture \<Rightarrow> swipe_gesture" where
  "setMaximumFingerCount n g = g\<lparr>sMaximumFingerCountRelevant := True, sMaximumFingerCount := n\<rparr>"

definition setDirection :: "swipe_direction \<Rightarrow> swipe_gesture \<Rightarrow> swipe_gesture" where
  "setDirection d g = g\<lparr>sDirection := d\<rparr>"

definition setMinimumX :: "int \<Rightarrow> swipe_gesture \<Rightarrow> swipe_gesture" where
  "setMinimumX x g = g\<lparr>sMinimumXRelevant := True, sMinimumX := x\<rparr>"

definition setMinimumY :: "int \<Rightarrow> swipe_gesture \<Rightarrow> swipe_gesture" where
  "setMinimumY y g = g\<lparr>sMinimumYRelevant := True, sMinimumY := y\<rparr>"

definition setMaximumX :: "int \<Rightarrow> swipe_gesture \<Rightarrow> swipe_gesture" where
  "setMaximumX x g = g\<lparr>sMaximumXRelevant := True, sMaximumX := x\<rparr>"

definition setMaximumY :: "int \<Rightarrow> swipe_gesture \<Rightarrow> swipe_gesture" where
  "setMaximumY y g = g\<lparr>sMaximumYRelevant := True, sMaximumY := y\<rparr>"

definition setMinimumDelta :: "qpointf \<Rightarrow> swipe_gesture \<Rightarrow> swipe_gesture" where
  "setMinimumDelta d g = g\<lparr>sMinimumDeltaRelevant := True, sMinimumDelta := d\<rparr>"

definition setStartGeometry :: "qrect \<Rightarrow> swipe_gesture \<Rightarrow> swipe_gesture option" where
  "setStartGeometry geo g = do {
     let g = setMaximumY (irectY geo + irectH geo) (setMaximumX (irectX geo + irectW geo)
               (setMinimumY (irectY geo) (setMinimumX (irectX geo) g)));
     assertThat (sMaximumX g \<ge> sMinimumX g);
     assertThat (sMaximumY g \<ge> sMinimumY g);
     Some g }"

definition setMinimumFingerCountP :: "nat \<Rightarrow> pinch_gesture \<Rightarrow> pinch_gesture" where
  "setMinimumFingerCountP n g = g\<lparr>pMinimumFingerCountRelevant := True, pMinimumFingerCount := n\<rparr>"

definition setMaximumFingerCountP :: "nat \<Rightarrow> pinch_gesture \<Rightarrow> pinch_gesture" where
  "setMaximumFingerCountP n g = g\<lparr>pMaximumFingerCountRelevant := True, pMaximumFingerCount := n\<rparr>"

definition setDirectionP :: "pinch_direction \<Rightarrow> pinch_gesture \<Rightarrow> pinch_gesture" where
  "setDirectionP d g = g\<lparr>pDirection := d\<rparr>"

definition setMinimumScaleDelta :: "qreal \<Rightarrow> pinch_gesture \<Rightarrow> pinch_gesture" where
  "setMinimumScaleDelta d g = g\<lparr>pMinimumScaleDeltaRelevant := True, pMinimumScaleDelta := d\<rparr>"

section \<open>Progress\<close>

text \<open>\<open>std::min(|a| / |b|, 1.0)\<close> on \<open>double\<close>: a quotient by zero is infinite, or not a number.\<close>

definition ratioProgress :: "qreal \<Rightarrow> qreal \<Rightarrow> qreal option" where
  "ratioProgress a b = (if b = 0 then (if a = 0 then None else Some 1) else Some (min (\<bar>a\<bar> / \<bar>b\<bar>) 1))"

definition deltaToProgress :: "swipe_gesture \<Rightarrow> qpointf \<Rightarrow> qreal option" where
  "deltaToProgress g delta =
     (if \<not> sMinimumDeltaRelevant g \<or> (pointX (sMinimumDelta g) = 0 \<and> pointY (sMinimumDelta g) = 0) then Some 1
      else if sDirection g = SwipeUp \<or> sDirection g = SwipeDown
      then ratioProgress (pointY delta) (pointY (sMinimumDelta g))
      else ratioProgress (pointX delta) (pointX (sMinimumDelta g)))"

definition minimumDeltaReached :: "swipe_gesture \<Rightarrow> qpointf \<Rightarrow> bool" where
  "minimumDeltaReached g delta = (case deltaToProgress g delta of None \<Rightarrow> False | Some p \<Rightarrow> p \<ge> 1)"

definition scaleDeltaToProgress :: "pinch_gesture \<Rightarrow> qreal \<Rightarrow> qreal option" where
  "scaleDeltaToProgress g scale =
     (if pMinimumScaleDelta g = 0 then (if scale = 1 then None else Some 1)
      else Some (max 0 (min 1 (\<bar>scale - 1\<bar> / pMinimumScaleDelta g))))"

definition minimumScaleDeltaReached :: "pinch_gesture \<Rightarrow> qreal \<Rightarrow> bool" where
  "minimumScaleDeltaReached g scale = (case scaleDeltaToProgress g scale of None \<Rightarrow> False | Some p \<Rightarrow> p \<ge> 1)"

section \<open>The recognizer\<close>

datatype gref = Swipe nat | Pinch nat

datatype gsignal =
    Started gref
  | Triggered gref
  | Cancelled gref
  | Progress gref "qreal option"
  | DeltaProgress gref qpointf

record recognizer =
  swipeAt :: "nat \<Rightarrow> swipe_gesture"
  pinchAt :: "nat \<Rightarrow> pinch_gesture"
  m_swipeGestures :: "nat list"
  m_pinchGestures :: "nat list"
  m_activeSwipeGestures :: "nat list"
  m_activePinchGestures :: "nat list"
  m_destroyConnections :: "gref list"
  m_currentDelta :: qpointf
  m_currentScale :: qreal
  m_currentFingerCount :: nat
  m_currentSwipeAxis :: axis
  gsignals :: "gsignal list"

definition zeroPoint :: qpointf where "zeroPoint = \<lparr>pointX = 0, pointY = 0\<rparr>"

definition gsend :: "gsignal list \<Rightarrow> recognizer \<Rightarrow> recognizer" where
  "gsend es s = s\<lparr>gsignals := gsignals s @ es\<rparr>"

definition registerSwipeGesture :: "nat \<Rightarrow> recognizer \<Rightarrow> recognizer option" where
  "registerSwipeGesture g s = do {
     assertThat (g \<notin> set (m_swipeGestures s));
     Some (s\<lparr>m_swipeGestures := m_swipeGestures s @ [g],
       m_destroyConnections := List.insert (Swipe g) (m_destroyConnections s)\<rparr>) }"

definition registerPinchGesture :: "nat \<Rightarrow> recognizer \<Rightarrow> recognizer option" where
  "registerPinchGesture g s = do {
     assertThat (g \<notin> set (m_pinchGestures s));
     Some (s\<lparr>m_pinchGestures := m_pinchGestures s @ [g],
       m_destroyConnections := List.insert (Pinch g) (m_destroyConnections s)\<rparr>) }"

text \<open>Also what runs when a registered gesture is destroyed.\<close>

definition unregisterSwipeGesture :: "nat \<Rightarrow> recognizer \<Rightarrow> recognizer" where
  "unregisterSwipeGesture g s =
     (let s' = s\<lparr>m_swipeGestures := removeAll g (m_swipeGestures s),
                 m_activeSwipeGestures := remove1 g (m_activeSwipeGestures s),
                 m_destroyConnections := removeAll (Swipe g) (m_destroyConnections s)\<rparr>
      in if g \<in> set (m_activeSwipeGestures s) then gsend [Cancelled (Swipe g)] s' else s')"

definition unregisterPinchGesture :: "nat \<Rightarrow> recognizer \<Rightarrow> recognizer" where
  "unregisterPinchGesture g s =
     (let s' = s\<lparr>m_pinchGestures := removeAll g (m_pinchGestures s),
                 m_activePinchGestures := remove1 g (m_activePinchGestures s),
                 m_destroyConnections := removeAll (Pinch g) (m_destroyConnections s)\<rparr>
      in if g \<in> set (m_activePinchGestures s) then gsend [Cancelled (Pinch g)] s' else s')"

section \<open>Swipes\<close>

definition fingersFit :: "bool \<Rightarrow> nat \<Rightarrow> bool \<Rightarrow> nat \<Rightarrow> nat \<Rightarrow> bool" where
  "fingersFit minRelevant minCount maxRelevant maxCount n \<longleftrightarrow>
     \<not> (minRelevant \<and> minCount > n) \<and> \<not> (maxRelevant \<and> maxCount < n)"

definition startsInside :: "swipe_gesture \<Rightarrow> qpointf \<Rightarrow> bool" where
  "startsInside g p \<longleftrightarrow>
     \<not> (sMinimumXRelevant g \<and> of_int (sMinimumX g) > pointX p) \<and>
     \<not> (sMaximumXRelevant g \<and> of_int (sMaximumX g) < pointX p) \<and>
     \<not> (sMinimumYRelevant g \<and> of_int (sMinimumY g) > pointY p) \<and>
     \<not> (sMaximumYRelevant g \<and> of_int (sMaximumY g) < pointY p)"

definition vertical :: "swipe_direction \<Rightarrow> bool" where
  "vertical d \<longleftrightarrow> d = SwipeUp \<or> d = SwipeDown"

definition swipeFits :: "nat \<Rightarrow> qpointf \<Rightarrow> bool \<Rightarrow> axis \<Rightarrow> swipe_gesture \<Rightarrow> bool" where
  "swipeFits n startPos relevant ax g \<longleftrightarrow>
     fingersFit (sMinimumFingerCountRelevant g) (sMinimumFingerCount g)
       (sMaximumFingerCountRelevant g) (sMaximumFingerCount g) n \<and>
     (relevant \<longrightarrow> startsInside g startPos) \<and>
     \<not> (if vertical (sDirection g) then ax = HorizontalAxis else ax = VerticalAxis)"

definition startSwipe :: "nat \<Rightarrow> qpointf \<Rightarrow> bool \<Rightarrow> recognizer \<Rightarrow> nat \<times> recognizer" where
  "startSwipe fingerCount startPos relevant s =
     (let s = s\<lparr>m_currentFingerCount := fingerCount\<rparr>
      in if m_activeSwipeGestures s \<noteq> [] \<or> m_activePinchGestures s \<noteq> [] then (0, s)
      else (let gs = filter (\<lambda>g. swipeFits fingerCount startPos relevant (m_currentSwipeAxis s) (swipeAt s g)) (m_swipeGestures s)
        in (length gs, gsend (map (\<lambda>g. Started (Swipe g)) gs)
             (s\<lparr>m_activeSwipeGestures := m_activeSwipeGestures s @ gs\<rparr>))))"

definition startSwipeGesture :: "nat \<Rightarrow> recognizer \<Rightarrow> nat \<times> recognizer" where
  "startSwipeGesture fingerCount s = startSwipe fingerCount zeroPoint False s"

definition startSwipeGestureAt :: "qpointf \<Rightarrow> recognizer \<Rightarrow> nat \<times> recognizer" where
  "startSwipeGestureAt startPos s = startSwipe 1 startPos True s"

definition pickAxis :: "qpointf \<Rightarrow> axis" where
  "pickAxis d = (if \<bar>pointX d\<bar> \<ge> \<bar>pointY d\<bar> then HorizontalAxis else VerticalAxis)"

definition swipeDirection :: "axis \<Rightarrow> qpointf \<Rightarrow> swipe_direction" where
  "swipeDirection ax d = (if ax = VerticalAxis
     then (if pointY d < 0 then SwipeUp else SwipeDown)
     else (if pointX d < 0 then SwipeLeft else SwipeRight))"

text \<open>A gesture with all four borders set was started from the border of a touch screen.\<close>

definition fromBorder :: "swipe_gesture \<Rightarrow> bool" where
  "fromBorder g \<longleftrightarrow> sMinimumXRelevant g \<and> sMaximumXRelevant g \<and> sMinimumYRelevant g \<and> sMaximumYRelevant g"

definition eliminateSwipes :: "swipe_direction \<Rightarrow> recognizer \<Rightarrow> recognizer" where
  "eliminateSwipes dir s =
     (let s = (if m_activeSwipeGestures s = [] then snd (startSwipeGesture (m_currentFingerCount s) s) else s);
          wrong = (\<lambda>g. sDirection (swipeAt s g) \<noteq> dir \<and> \<not> fromBorder (swipeAt s g))
      in gsend (map (\<lambda>g. Cancelled (Swipe g)) (filter wrong (m_activeSwipeGestures s)))
           (s\<lparr>m_activeSwipeGestures := filter (\<lambda>g. \<not> wrong g) (m_activeSwipeGestures s)\<rparr>))"

definition sendSwipeProgress :: "recognizer \<Rightarrow> recognizer" where
  "sendSwipeProgress s = gsend (concat (map (\<lambda>g.
       [Progress (Swipe g) (deltaToProgress (swipeAt s g) (m_currentDelta s)), DeltaProgress (Swipe g) (m_currentDelta s)])
     (m_activeSwipeGestures s))) s"

definition updateSwipeGesture :: "qpointf \<Rightarrow> recognizer \<Rightarrow> recognizer" where
  "updateSwipeGesture delta s =
     (let d = \<lparr>pointX = pointX (m_currentDelta s) + pointX delta, pointY = pointY (m_currentDelta s) + pointY delta\<rparr>;
          s = s\<lparr>m_currentDelta := d\<rparr>;
          swipeAxis = (if m_currentSwipeAxis s = NoAxis then pickAxis d else m_currentSwipeAxis s);
          s = (if m_currentSwipeAxis s = NoAxis \<and> (\<bar>pointX d\<bar> \<ge> 5 \<or> \<bar>pointY d\<bar> \<ge> 5)
               then s\<lparr>m_currentSwipeAxis := swipeAxis\<rparr> else s);
          dir = swipeDirection swipeAxis d
      in sendSwipeProgress (eliminateSwipes dir (eliminateSwipes dir s)))"

definition cancelActiveGestures :: "recognizer \<Rightarrow> recognizer" where
  "cancelActiveGestures s =
     (gsend (map (\<lambda>g. Cancelled (Swipe g)) (m_activeSwipeGestures s) @ map (\<lambda>g. Cancelled (Pinch g)) (m_activePinchGestures s)) s)
       \<lparr>m_activeSwipeGestures := [], m_activePinchGestures := [], m_currentDelta := zeroPoint,
        m_currentScale := 0, m_currentSwipeAxis := NoAxis\<rparr>"

definition cancelSwipeGesture :: "recognizer \<Rightarrow> recognizer" where
  "cancelSwipeGesture s = (cancelActiveGestures s)
     \<lparr>m_currentDelta := zeroPoint, m_currentFingerCount := 0, m_currentSwipeAxis := NoAxis\<rparr>"

definition endSwipeGesture :: "recognizer \<Rightarrow> recognizer" where
  "endSwipeGesture s =
     (gsend (map (\<lambda>g. if minimumDeltaReached (swipeAt s g) (m_currentDelta s) then Triggered (Swipe g) else Cancelled (Swipe g))
        (m_activeSwipeGestures s)) s)
       \<lparr>m_activeSwipeGestures := [], m_currentDelta := zeroPoint, m_currentFingerCount := 0, m_currentSwipeAxis := NoAxis\<rparr>"

section \<open>Pinches\<close>

definition pinchFits :: "nat \<Rightarrow> pinch_gesture \<Rightarrow> bool" where
  "pinchFits n g \<longleftrightarrow> fingersFit (pMinimumFingerCountRelevant g) (pMinimumFingerCount g)
     (pMaximumFingerCountRelevant g) (pMaximumFingerCount g) n"

definition startPinchGesture :: "nat \<Rightarrow> recognizer \<Rightarrow> nat \<times> recognizer" where
  "startPinchGesture fingerCount s =
     (let s = s\<lparr>m_currentFingerCount := fingerCount\<rparr>
      in if m_activeSwipeGestures s \<noteq> [] \<or> m_activePinchGestures s \<noteq> [] then (0, s)
      else (let gs = filter (\<lambda>g. pinchFits fingerCount (pinchAt s g)) (m_pinchGestures s)
        in (length gs, gsend (map (\<lambda>g. Started (Pinch g)) gs)
             (s\<lparr>m_activePinchGestures := m_activePinchGestures s @ gs\<rparr>))))"

definition eliminatePinches :: "pinch_direction \<Rightarrow> recognizer \<Rightarrow> recognizer" where
  "eliminatePinches dir s =
     (let s = (if m_activePinchGestures s = [] then snd (startPinchGesture (m_currentFingerCount s) s) else s);
          wrong = (\<lambda>g. pDirection (pinchAt s g) \<noteq> dir)
      in gsend (map (\<lambda>g. Cancelled (Pinch g)) (filter wrong (m_activePinchGestures s)))
           (s\<lparr>m_activePinchGestures := filter (\<lambda>g. \<not> wrong g) (m_activePinchGestures s)\<rparr>))"

definition sendPinchProgress :: "recognizer \<Rightarrow> recognizer" where
  "sendPinchProgress s = gsend (map (\<lambda>g. Progress (Pinch g) (scaleDeltaToProgress (pinchAt s g) (m_currentScale s)))
     (m_activePinchGestures s)) s"

definition updatePinchGesture :: "qreal \<Rightarrow> recognizer \<Rightarrow> recognizer" where
  "updatePinchGesture scale s =
     (let s = s\<lparr>m_currentScale := scale\<rparr>;
          dir = (if scale < 1 then Contracting else Expanding)
      in sendPinchProgress (eliminatePinches dir (eliminatePinches dir s)))"

definition cancelPinchGesture :: "recognizer \<Rightarrow> recognizer" where
  "cancelPinchGesture s = (cancelActiveGestures s)
     \<lparr>m_currentScale := 1, m_currentFingerCount := 0, m_currentSwipeAxis := NoAxis\<rparr>"

definition endPinchGesture :: "recognizer \<Rightarrow> recognizer" where
  "endPinchGesture s =
     (gsend (map (\<lambda>g. if minimumScaleDeltaReached (pinchAt s g) (m_currentScale s) then Triggered (Pinch g) else Cancelled (Pinch g))
        (m_activePinchGestures s)) s)
       \<lparr>m_activeSwipeGestures := [], m_activePinchGestures := [], m_currentScale := 1,
        m_currentFingerCount := 0, m_currentSwipeAxis := NoAxis\<rparr>"

end
