(* ===== verification/Gesture_Lifecycle.thy ===== *)
theory Gesture_Lifecycle
  imports Gestures
begin

text \<open>
  The contract between the recognizer and the slots connected to a gesture: \<open>started\<close>, then any
  number of progress signals, then exactly one of \<open>triggered\<close> and \<open>cancelled\<close>. The contract is an
  automaton per gesture (\<open>lifecycle\<close>); every operation of the recognizer appends signals that the
  automaton accepts, and leaves exactly the gestures active that it says are.
\<close>

section \<open>The automaton\<close>

fun lifeStep :: "gref \<Rightarrow> bool \<Rightarrow> gsignal \<Rightarrow> bool option" where
  "lifeStep g a (Started h) = (if h = g then (if a then None else Some True) else Some a)"
| "lifeStep g a (Triggered h) = (if h = g then (if a then Some False else None) else Some a)"
| "lifeStep g a (Cancelled h) = (if h = g then (if a then Some False else None) else Some a)"
| "lifeStep g a (Progress h p) = (if h = g \<and> \<not> a then None else Some a)"
| "lifeStep g a (DeltaProgress h p) = (if h = g \<and> \<not> a then None else Some a)"

fun lifecycle :: "gref \<Rightarrow> bool \<Rightarrow> gsignal list \<Rightarrow> bool option" where
  "lifecycle g a [] = Some a"
| "lifecycle g a (e # es) = lifeStep g a e \<bind> (\<lambda>b. lifecycle g b es)"

lemma lifecycle_append: "lifecycle g a (xs @ ys) = lifecycle g a xs \<bind> (\<lambda>b. lifecycle g b ys)"
proof (induction xs arbitrary: a)
  case (Cons e xs)
  then show ?case by (cases "lifeStep g a e") simp_all
qed simp

definition follows :: "gref set \<Rightarrow> gsignal list \<Rightarrow> gref set \<Rightarrow> bool" where
  "follows A es B \<longleftrightarrow> (\<forall>g. lifecycle g (g \<in> A) es = Some (g \<in> B))"

lemma follows_Nil [simp]: "follows A [] A"
  by (simp add: follows_def)

lemma follows_append: "follows A xs B \<Longrightarrow> follows B ys C \<Longrightarrow> follows A (xs @ ys) C"
  by (simp add: follows_def lifecycle_append)

lemma follows_started: "distinct gs \<Longrightarrow> set gs \<inter> A = {} \<Longrightarrow> follows A (map Started gs) (A \<union> set gs)"
proof (induction gs arbitrary: A)
  case (Cons h gs)
  have "follows A [Started h] (insert h A)" using Cons.prems by (auto simp: follows_def)
  moreover have "follows (insert h A) (map Started gs) (insert h A \<union> set gs)"
    by (rule Cons.IH) (use Cons.prems in auto)
  ultimately show ?case using follows_append[of A "[Started h]"] by simp
qed simp

definition ends :: "(gref \<Rightarrow> gsignal) \<Rightarrow> bool" where
  "ends f \<longleftrightarrow> (\<forall>g. f g = Triggered g \<or> f g = Cancelled g)"

lemma ends_simps [simp]: "ends Cancelled" "ends (\<lambda>g. if P g then Triggered g else Cancelled g)"
  by (simp_all add: ends_def)

lemma follows_ended: "ends f \<Longrightarrow> distinct gs \<Longrightarrow> set gs \<subseteq> A \<Longrightarrow> follows A (map f gs) (A - set gs)"
proof (induction gs arbitrary: A)
  case (Cons h gs)
  have "f h = Triggered h \<or> f h = Cancelled h" using Cons.prems(1) by (simp add: ends_def)
  then have "follows A [f h] (A - {h})" using Cons.prems(3) by (auto simp: follows_def)
  moreover have "follows (A - {h}) (map f gs) (A - {h} - set gs)"
    by (rule Cons.IH) (use Cons.prems in auto)
  ultimately have "follows A ([f h] @ map f gs) (A - {h} - set gs)" by (rule follows_append)
  moreover have "A - {h} - set gs = A - set (h # gs)" by auto
  ultimately show ?case by simp
qed simp

lemma follows_progress:
  "\<forall>e \<in> set es. \<exists>g \<in> A. (\<exists>p. e = Progress g p) \<or> (\<exists>p. e = DeltaProgress g p) \<Longrightarrow> follows A es A"
proof (induction es)
  case (Cons e es)
  then have "follows A [e] A" by (auto simp: follows_def)
  moreover have "follows A es A" using Cons by simp
  ultimately show ?case using follows_append[of A "[e]" A es A] by simp
qed simp

section \<open>The recognizer follows the contract\<close>

definition activeRefs :: "recognizer \<Rightarrow> gref set" where
  "activeRefs s = Swipe ` set (m_activeSwipeGestures s) \<union> Pinch ` set (m_activePinchGestures s)"

definition recInv :: "recognizer \<Rightarrow> bool" where
  "recInv s \<longleftrightarrow> distinct (m_swipeGestures s) \<and> distinct (m_pinchGestures s) \<and>
     distinct (m_activeSwipeGestures s) \<and> distinct (m_activePinchGestures s) \<and>
     set (m_activeSwipeGestures s) \<subseteq> set (m_swipeGestures s) \<and>
     set (m_activePinchGestures s) \<subseteq> set (m_pinchGestures s) \<and>
     (m_activeSwipeGestures s = [] \<or> m_activePinchGestures s = []) \<and>
     distinct (m_destroyConnections s) \<and>
     set (m_destroyConnections s) = Swipe ` set (m_swipeGestures s) \<union> Pinch ` set (m_pinchGestures s)"

text \<open>What an operation appends follows the contract and leaves exactly the active gestures.\<close>

definition emits :: "recognizer \<Rightarrow> recognizer \<Rightarrow> bool" where
  "emits s s' \<longleftrightarrow> (\<exists>es. gsignals s' = gsignals s @ es \<and> follows (activeRefs s) es (activeRefs s'))"

definition sound :: "recognizer \<Rightarrow> recognizer \<Rightarrow> bool" where
  "sound s s' \<longleftrightarrow> emits s s' \<and> recInv s'"

lemma emitsI: "gsignals s' = gsignals s @ es \<Longrightarrow> follows (activeRefs s) es (activeRefs s') \<Longrightarrow> emits s s'"
  by (auto simp: emits_def)

lemma emits_trans: "emits a b \<Longrightarrow> emits b c \<Longrightarrow> emits a c"
  using follows_append by (fastforce simp: emits_def)

lemma sound_trans: "sound a b \<Longrightarrow> sound b c \<Longrightarrow> sound a c"
  using emits_trans by (auto simp: sound_def)

lemma gsend_fields [simp]:
  "swipeAt (gsend es s) = swipeAt s" "pinchAt (gsend es s) = pinchAt s"
  "m_swipeGestures (gsend es s) = m_swipeGestures s" "m_pinchGestures (gsend es s) = m_pinchGestures s"
  "m_activeSwipeGestures (gsend es s) = m_activeSwipeGestures s" "m_activePinchGestures (gsend es s) = m_activePinchGestures s"
  "m_destroyConnections (gsend es s) = m_destroyConnections s" "m_currentDelta (gsend es s) = m_currentDelta s"
  "m_currentScale (gsend es s) = m_currentScale s" "m_currentFingerCount (gsend es s) = m_currentFingerCount s"
  "m_currentSwipeAxis (gsend es s) = m_currentSwipeAxis s" "gsignals (gsend es s) = gsignals s @ es"
  "activeRefs (gsend es s) = activeRefs s" "recInv (gsend es s) \<longleftrightarrow> recInv s"
  by (simp_all add: gsend_def activeRefs_def recInv_def)

lemma map_Swipe: "map (\<lambda>g. f (Swipe g)) gs = map f (map Swipe gs)"
  by simp

lemma map_Pinch: "map (\<lambda>g. f (Pinch g)) gs = map f (map Pinch gs)"
  by simp

text \<open>Changes that touch neither the lists nor the signals.\<close>

definition sameLists :: "recognizer \<Rightarrow> recognizer \<Rightarrow> bool" where
  "sameLists s t \<longleftrightarrow> m_swipeGestures t = m_swipeGestures s \<and> m_pinchGestures t = m_pinchGestures s \<and>
     m_activeSwipeGestures t = m_activeSwipeGestures s \<and> m_activePinchGestures t = m_activePinchGestures s \<and>
     m_destroyConnections t = m_destroyConnections s \<and> gsignals t = gsignals s"

lemma sound_sameLists: "recInv s \<Longrightarrow> sameLists s t \<Longrightarrow> sound s t"
  by (auto simp: sound_def emits_def sameLists_def activeRefs_def recInv_def)

lemma sound_refl: "recInv s \<Longrightarrow> sound s s"
  by (auto simp: sound_def emits_def)

section \<open>Registering\<close>

lemma registerSwipe_sound: "recInv s \<Longrightarrow> registerSwipeGesture g s = Some s' \<Longrightarrow> sound s s'"
  by (auto simp: registerSwipeGesture_def bind_eq_Some_conv sound_def emits_def activeRefs_def recInv_def intro!: exI[of _ "[]"])

lemma registerPinch_sound: "recInv s \<Longrightarrow> registerPinchGesture g s = Some s' \<Longrightarrow> sound s s'"
  by (auto simp: registerPinchGesture_def bind_eq_Some_conv sound_def emits_def activeRefs_def recInv_def intro!: exI[of _ "[]"])

lemma unregisterSwipe_sound:
  assumes "recInv s"
  shows "sound s (unregisterSwipeGesture g s)"
proof -
  let ?t = "unregisterSwipeGesture g s"
  have a: "set (m_activeSwipeGestures ?t) = set (m_activeSwipeGestures s) - {g}" "m_activePinchGestures ?t = m_activePinchGestures s"
    using assms by (auto simp: unregisterSwipeGesture_def recInv_def Let_def distinct_removeAll)
  have refs: "activeRefs ?t = activeRefs s - {Swipe g}" using a by (auto simp: activeRefs_def)
  have "emits s ?t"
  proof (cases "g \<in> set (m_activeSwipeGestures s)")
    case True
    have "follows (activeRefs s) (map Cancelled [Swipe g]) (activeRefs s - set [Swipe g])"
      by (rule follows_ended) (use True in \<open>auto simp: activeRefs_def\<close>)
    then show ?thesis using True refs
      by (intro emitsI[of _ _ "[Cancelled (Swipe g)]"]) (auto simp: unregisterSwipeGesture_def Let_def)
  next
    case False
    then have "activeRefs ?t = activeRefs s" using refs by (auto simp: activeRefs_def)
    then show ?thesis using False by (intro emitsI[of _ _ "[]"]) (auto simp: unregisterSwipeGesture_def Let_def)
  qed
  moreover have "recInv ?t" using assms by (auto simp: unregisterSwipeGesture_def recInv_def Let_def distinct_removeAll)
  ultimately show ?thesis by (simp add: sound_def)
qed

lemma unregisterPinch_sound:
  assumes "recInv s"
  shows "sound s (unregisterPinchGesture g s)"
proof -
  let ?t = "unregisterPinchGesture g s"
  have a: "set (m_activePinchGestures ?t) = set (m_activePinchGestures s) - {g}" "m_activeSwipeGestures ?t = m_activeSwipeGestures s"
    using assms by (auto simp: unregisterPinchGesture_def recInv_def Let_def distinct_removeAll)
  have refs: "activeRefs ?t = activeRefs s - {Pinch g}" using a by (auto simp: activeRefs_def)
  have "emits s ?t"
  proof (cases "g \<in> set (m_activePinchGestures s)")
    case True
    have "follows (activeRefs s) (map Cancelled [Pinch g]) (activeRefs s - set [Pinch g])"
      by (rule follows_ended) (use True in \<open>auto simp: activeRefs_def\<close>)
    then show ?thesis using True refs
      by (intro emitsI[of _ _ "[Cancelled (Pinch g)]"]) (auto simp: unregisterPinchGesture_def Let_def)
  next
    case False
    then have "activeRefs ?t = activeRefs s" using refs by (auto simp: activeRefs_def)
    then show ?thesis using False by (intro emitsI[of _ _ "[]"]) (auto simp: unregisterPinchGesture_def Let_def)
  qed
  moreover have "recInv ?t" using assms by (auto simp: unregisterPinchGesture_def recInv_def Let_def distinct_removeAll)
  ultimately show ?thesis by (simp add: sound_def)
qed

section \<open>Starting\<close>

lemma startSwipe_sound:
  assumes "recInv s"
  shows "sound s (snd (startSwipe n p r s))"
proof (cases "m_activeSwipeGestures s \<noteq> [] \<or> m_activePinchGestures s \<noteq> []")
  case True
  then show ?thesis using assms by (intro sound_sameLists) (auto simp: startSwipe_def sameLists_def)
next
  case False
  let ?gs = "filter (\<lambda>g. swipeFits n p r (m_currentSwipeAxis s) (swipeAt s g)) (m_swipeGestures s)"
  have d: "distinct ?gs" using assms by (simp add: recInv_def)
  have none: "activeRefs s = {}" using False by (simp add: activeRefs_def)
  have "follows {} (map Started (map Swipe ?gs)) ({} \<union> set (map Swipe ?gs))"
    by (rule follows_started) (use d in \<open>auto simp: distinct_map inj_on_def\<close>)
  then have "emits s (snd (startSwipe n p r s))" using False none
    by (intro emitsI[of _ _ "map (\<lambda>g. Started (Swipe g)) ?gs"]) (simp_all add: startSwipe_def activeRefs_def comp_def Let_def)
  then show ?thesis using assms False d by (auto simp: sound_def startSwipe_def recInv_def Let_def)
qed

lemma startPinch_sound:
  assumes "recInv s"
  shows "sound s (snd (startPinchGesture n s))"
proof (cases "m_activeSwipeGestures s \<noteq> [] \<or> m_activePinchGestures s \<noteq> []")
  case True
  then show ?thesis using assms by (intro sound_sameLists) (auto simp: startPinchGesture_def sameLists_def)
next
  case False
  let ?gs = "filter (\<lambda>g. pinchFits n (pinchAt s g)) (m_pinchGestures s)"
  have d: "distinct ?gs" using assms by (simp add: recInv_def)
  have none: "activeRefs s = {}" using False by (simp add: activeRefs_def)
  have "follows {} (map Started (map Pinch ?gs)) ({} \<union> set (map Pinch ?gs))"
    by (rule follows_started) (use d in \<open>auto simp: distinct_map inj_on_def\<close>)
  then have "emits s (snd (startPinchGesture n s))" using False none
    by (intro emitsI[of _ _ "map (\<lambda>g. Started (Pinch g)) ?gs"]) (simp_all add: startPinchGesture_def activeRefs_def comp_def Let_def)
  then show ?thesis using assms False d by (auto simp: sound_def startPinchGesture_def recInv_def Let_def)
qed

section \<open>Ending some of the active gestures\<close>

definition sameRegistry :: "recognizer \<Rightarrow> recognizer \<Rightarrow> bool" where
  "sameRegistry s t \<longleftrightarrow> m_swipeGestures t = m_swipeGestures s \<and> m_pinchGestures t = m_pinchGestures s \<and>
     m_destroyConnections t = m_destroyConnections s"

lemma endSwipes_sound:
  assumes "recInv s" "sameRegistry s t" "ends f"
    "m_activeSwipeGestures t = filter (\<lambda>g. \<not> P g) (m_activeSwipeGestures s)"
    "m_activePinchGestures t = m_activePinchGestures s"
    "gsignals t = gsignals s @ map (\<lambda>g. f (Swipe g)) (filter P (m_activeSwipeGestures s))"
  shows "sound s t"
proof -
  let ?gs = "map Swipe (filter P (m_activeSwipeGestures s))"
  have "distinct ?gs" "set ?gs \<subseteq> activeRefs s"
    using assms(1) by (auto simp: recInv_def distinct_map inj_on_def activeRefs_def)
  from follows_ended[OF assms(3) this] have "follows (activeRefs s) (map f ?gs) (activeRefs s - set ?gs)" .
  moreover have "activeRefs s - set ?gs = activeRefs t" using assms(4,5) by (auto simp: activeRefs_def)
  ultimately have "emits s t" using assms(6) by (intro emitsI[of _ _ "map f ?gs"]) (simp_all add: comp_def)
  moreover have "recInv t" using assms(1,2,4,5) by (auto simp: recInv_def sameRegistry_def)
  ultimately show ?thesis by (simp add: sound_def)
qed

lemma endPinches_sound:
  assumes "recInv s" "sameRegistry s t" "ends f"
    "m_activePinchGestures t = filter (\<lambda>g. \<not> P g) (m_activePinchGestures s)"
    "m_activeSwipeGestures t = m_activeSwipeGestures s"
    "gsignals t = gsignals s @ map (\<lambda>g. f (Pinch g)) (filter P (m_activePinchGestures s))"
  shows "sound s t"
proof -
  let ?gs = "map Pinch (filter P (m_activePinchGestures s))"
  have "distinct ?gs" "set ?gs \<subseteq> activeRefs s"
    using assms(1) by (auto simp: recInv_def distinct_map inj_on_def activeRefs_def)
  from follows_ended[OF assms(3) this] have "follows (activeRefs s) (map f ?gs) (activeRefs s - set ?gs)" .
  moreover have "activeRefs s - set ?gs = activeRefs t" using assms(4,5) by (auto simp: activeRefs_def)
  ultimately have "emits s t" using assms(6) by (intro emitsI[of _ _ "map f ?gs"]) (simp_all add: comp_def)
  moreover have "recInv t" using assms(1,2,4,5) by (auto simp: recInv_def sameRegistry_def)
  ultimately show ?thesis by (simp add: sound_def)
qed

lemma progress_sound:
  assumes "recInv s" "\<forall>e \<in> set es. \<exists>g \<in> activeRefs s. (\<exists>p. e = Progress g p) \<or> (\<exists>p. e = DeltaProgress g p)"
  shows "sound s (gsend es s)"
  using assms follows_progress[OF assms(2)] by (auto simp: sound_def emits_def)

section \<open>Updating\<close>

lemma eliminateSwipes_sound:
  assumes "recInv s"
  shows "sound s (eliminateSwipes dir s)"
proof -
  define s1 where "s1 = (if m_activeSwipeGestures s = [] then snd (startSwipeGesture (m_currentFingerCount s) s) else s)"
  define wrong where "wrong = (\<lambda>g. sDirection (swipeAt s1 g) \<noteq> dir \<and> \<not> fromBorder (swipeAt s1 g))"
  have s1: "sound s s1" using assms startSwipe_sound sound_refl by (simp add: s1_def startSwipeGesture_def)
  have "eliminateSwipes dir s = gsend (map (\<lambda>g. Cancelled (Swipe g)) (filter wrong (m_activeSwipeGestures s1)))
           (s1\<lparr>m_activeSwipeGestures := filter (\<lambda>g. \<not> wrong g) (m_activeSwipeGestures s1)\<rparr>)"
    by (simp only: eliminateSwipes_def Let_def s1_def wrong_def)
  then have "sound s1 (eliminateSwipes dir s)" using s1
    by (intro endSwipes_sound[of _ _ Cancelled wrong]) (auto simp: sound_def sameRegistry_def)
  then show ?thesis using s1 sound_trans by blast
qed

lemma eliminatePinches_sound:
  assumes "recInv s"
  shows "sound s (eliminatePinches dir s)"
proof -
  define s1 where "s1 = (if m_activePinchGestures s = [] then snd (startPinchGesture (m_currentFingerCount s) s) else s)"
  define wrong where "wrong = (\<lambda>g. pDirection (pinchAt s1 g) \<noteq> dir)"
  have s1: "sound s s1" using assms startPinch_sound sound_refl by (simp add: s1_def)
  have "eliminatePinches dir s = gsend (map (\<lambda>g. Cancelled (Pinch g)) (filter wrong (m_activePinchGestures s1)))
           (s1\<lparr>m_activePinchGestures := filter (\<lambda>g. \<not> wrong g) (m_activePinchGestures s1)\<rparr>)"
    by (simp only: eliminatePinches_def Let_def s1_def wrong_def)
  then have "sound s1 (eliminatePinches dir s)" using s1
    by (intro endPinches_sound[of _ _ Cancelled wrong]) (auto simp: sound_def sameRegistry_def)
  then show ?thesis using s1 sound_trans by blast
qed

lemma sendSwipeProgress_sound: "recInv s \<Longrightarrow> sound s (sendSwipeProgress s)"
  unfolding sendSwipeProgress_def by (rule progress_sound) (auto simp: activeRefs_def)

lemma sendPinchProgress_sound: "recInv s \<Longrightarrow> sound s (sendPinchProgress s)"
  unfolding sendPinchProgress_def by (rule progress_sound) (auto simp: activeRefs_def)

lemma sound_inv: "sound s t \<Longrightarrow> recInv t"
  by (simp add: sound_def)

lemma updateSwipe_sound:
  assumes "recInv s"
  shows "sound s (updateSwipeGesture delta s)"
proof -
  have "\<exists>t dir. sameLists s t \<and> updateSwipeGesture delta s = sendSwipeProgress (eliminateSwipes dir (eliminateSwipes dir t))"
    unfolding updateSwipeGesture_def Let_def by (rule exI, rule exI, rule conjI[OF _ refl]) (simp add: sameLists_def)
  then obtain t dir where t: "sameLists s t"
    "updateSwipeGesture delta s = sendSwipeProgress (eliminateSwipes dir (eliminateSwipes dir t))" by blast
  have "sound s t" by (rule sound_sameLists[OF assms t(1)])
  moreover have "recInv t" using calculation by (rule sound_inv)
  ultimately show ?thesis unfolding t(2)
    by (meson eliminateSwipes_sound sendSwipeProgress_sound sound_trans sound_inv)
qed

lemma updatePinch_sound:
  assumes "recInv s"
  shows "sound s (updatePinchGesture scale s)"
proof -
  let ?t = "s\<lparr>m_currentScale := scale\<rparr>"
  have "sound s ?t" by (rule sound_sameLists[OF assms]) (simp add: sameLists_def)
  then show ?thesis unfolding updatePinchGesture_def Let_def
    by (meson eliminatePinches_sound sendPinchProgress_sound sound_trans sound_inv)
qed

section \<open>Cancelling and ending\<close>

lemma cancelActive_sound:
  assumes "recInv s"
  shows "sound s (cancelActiveGestures s)"
proof -
  let ?a = "(gsend (map (\<lambda>g. Cancelled (Swipe g)) (m_activeSwipeGestures s)) s)\<lparr>m_activeSwipeGestures := []\<rparr>"
  have a: "sound s ?a"
    by (rule endSwipes_sound[OF assms, of _ Cancelled "\<lambda>_. True"]) (simp_all add: sameRegistry_def)
  have "sound ?a (cancelActiveGestures s)"
    by (rule endPinches_sound[OF sound_inv[OF a], of _ Cancelled "\<lambda>_. True"])
      (simp_all add: sameRegistry_def cancelActiveGestures_def)
  then show ?thesis using a sound_trans by blast
qed

lemma cancelSwipe_sound: "recInv s \<Longrightarrow> sound s (cancelSwipeGesture s)"
  using sound_trans[OF cancelActive_sound sound_sameLists[OF sound_inv[OF cancelActive_sound]]]
  by (simp add: cancelSwipeGesture_def sameLists_def)

lemma cancelPinch_sound: "recInv s \<Longrightarrow> sound s (cancelPinchGesture s)"
  using sound_trans[OF cancelActive_sound sound_sameLists[OF sound_inv[OF cancelActive_sound]]]
  by (simp add: cancelPinchGesture_def sameLists_def)

lemma endSwipe_sound:
  assumes "recInv s"
  shows "sound s (endSwipeGesture s)"
proof -
  let ?gs = "m_activeSwipeGestures s"
  let ?hit = "\<lambda>g. minimumDeltaReached (swipeAt s g) (m_currentDelta s)"
  let ?f = "\<lambda>r. if (\<exists>g. r = Swipe g \<and> ?hit g) then Triggered r else Cancelled r"
  have "(\<lambda>g. if ?hit g then Triggered (Swipe g) else Cancelled (Swipe g)) = (\<lambda>g. ?f (Swipe g))" by auto
  then show ?thesis
    by (intro endSwipes_sound[OF assms, of _ ?f "\<lambda>_. True"]) (simp_all add: sameRegistry_def endSwipeGesture_def)
qed

lemma endPinch_sound:
  assumes "recInv s" "m_activePinchGestures s \<noteq> [] \<or> m_activeSwipeGestures s = []"
  shows "sound s (endPinchGesture s)"
proof -
  let ?hit = "\<lambda>g. minimumScaleDeltaReached (pinchAt s g) (m_currentScale s)"
  let ?f = "\<lambda>r. if (\<exists>g. r = Pinch g \<and> ?hit g) then Triggered r else Cancelled r"
  have "(\<lambda>g. if ?hit g then Triggered (Pinch g) else Cancelled (Pinch g)) = (\<lambda>g. ?f (Pinch g))" by auto
  moreover have "m_activeSwipeGestures s = []" using assms by (auto simp: recInv_def)
  ultimately show ?thesis
    by (intro endPinches_sound[OF assms(1), of _ ?f "\<lambda>_. True"]) (simp_all add: sameRegistry_def endPinchGesture_def)
qed

end
