(* ===== verification/Gesture_Properties.thy ===== *)
theory Gesture_Properties
  imports Gesture_Lifecycle
begin

text \<open>
  The reachable states of the gesture recognizer and its properties. Every public operation is a
  step; the attributes of the gestures may change between any two. Ending a pinch is a step only
  while no swipe is active: \<open>gst_end_pinch_drops_swipes\<close> shows what happens otherwise.
\<close>

section \<open>Reachable recognizers\<close>

inductive rec_step :: "recognizer \<Rightarrow> recognizer \<Rightarrow> bool" where
  rec_registerSwipe: "registerSwipeGesture g s = Some s' \<Longrightarrow> rec_step s s'"
| rec_registerPinch: "registerPinchGesture g s = Some s' \<Longrightarrow> rec_step s s'"
| rec_unregisterSwipe: "rec_step s (unregisterSwipeGesture g s)"
| rec_unregisterPinch: "rec_step s (unregisterPinchGesture g s)"
| rec_swipeAttributes: "rec_step s (s\<lparr>swipeAt := f\<rparr>)"
| rec_pinchAttributes: "rec_step s (s\<lparr>pinchAt := h\<rparr>)"
| rec_startSwipe: "rec_step s (snd (startSwipeGesture n s))"
| rec_startSwipeAt: "rec_step s (snd (startSwipeGestureAt p s))"
| rec_updateSwipe: "rec_step s (updateSwipeGesture d s)"
| rec_cancelSwipe: "rec_step s (cancelSwipeGesture s)"
| rec_endSwipe: "rec_step s (endSwipeGesture s)"
| rec_startPinch: "rec_step s (snd (startPinchGesture n s))"
| rec_updatePinch: "rec_step s (updatePinchGesture x s)"
| rec_cancelPinch: "rec_step s (cancelPinchGesture s)"
| rec_endPinch: "m_activeSwipeGestures s = [] \<Longrightarrow> rec_step s (endPinchGesture s)"

definition rec_init :: "(nat \<Rightarrow> swipe_gesture) \<Rightarrow> (nat \<Rightarrow> pinch_gesture) \<Rightarrow> recognizer" where
  "rec_init sw pn = \<lparr>swipeAt = sw, pinchAt = pn, m_swipeGestures = [], m_pinchGestures = [],
     m_activeSwipeGestures = [], m_activePinchGestures = [], m_destroyConnections = [], m_currentDelta = zeroPoint,
     m_currentScale = 1, m_currentFingerCount = 0, m_currentSwipeAxis = NoAxis, gsignals = []\<rparr>"

inductive rec_reachable :: "recognizer \<Rightarrow> bool" where
  rec_start: "rec_reachable (rec_init sw pn)"
| rec_next: "rec_reachable s \<Longrightarrow> rec_step s s' \<Longrightarrow> rec_reachable s'"

lemma rec_step_sound: "rec_step s s' \<Longrightarrow> recInv s \<Longrightarrow> sound s s'"
proof (induction rule: rec_step.induct)
  case (rec_swipeAttributes s f) then show ?case by (intro sound_sameLists) (auto simp: sameLists_def)
next
  case (rec_pinchAttributes s h) then show ?case by (intro sound_sameLists) (auto simp: sameLists_def)
qed (auto intro: registerSwipe_sound registerPinch_sound unregisterSwipe_sound unregisterPinch_sound
    updateSwipe_sound cancelSwipe_sound endSwipe_sound startPinch_sound updatePinch_sound cancelPinch_sound endPinch_sound
    simp: startSwipeGesture_def startSwipeGestureAt_def startSwipe_sound)

lemma rec_reachable_sound: "rec_reachable s \<Longrightarrow> recInv s \<and> follows {} (gsignals s) (activeRefs s)"
proof (induction rule: rec_reachable.induct)
  case (rec_start sw pn)
  then show ?case by (simp add: rec_init_def recInv_def activeRefs_def)
next
  case (rec_next s s')
  then have "sound s s'" using rec_step_sound by blast
  then show ?case using rec_next.IH follows_append by (auto simp: sound_def emits_def)
qed

section \<open>Accumulated movement\<close>

lemma eliminateSwipes_frame [simp]:
  "m_currentDelta (eliminateSwipes dir s) = m_currentDelta s" "swipeAt (eliminateSwipes dir s) = swipeAt s"
  "m_currentSwipeAxis (eliminateSwipes dir s) = m_currentSwipeAxis s"
  by (simp_all add: eliminateSwipes_def startSwipeGesture_def startSwipe_def Let_def)

lemma sendSwipeProgress_frame [simp]:
  "m_currentDelta (sendSwipeProgress s) = m_currentDelta s" "swipeAt (sendSwipeProgress s) = swipeAt s"
  "m_currentSwipeAxis (sendSwipeProgress s) = m_currentSwipeAxis s"
  "m_activeSwipeGestures (sendSwipeProgress s) = m_activeSwipeGestures s"
  by (simp_all add: sendSwipeProgress_def)

definition padd :: "qpointf \<Rightarrow> qpointf \<Rightarrow> qpointf" where
  "padd a b = \<lparr>pointX = pointX a + pointX b, pointY = pointY a + pointY b\<rparr>"

lemma updateSwipe_frame [simp]:
  "m_currentDelta (updateSwipeGesture d s) = padd (m_currentDelta s) d" "swipeAt (updateSwipeGesture d s) = swipeAt s"
  by (simp_all add: updateSwipeGesture_def Let_def padd_def)

lemma padd_assoc: "padd (padd a b) c = padd a (padd b c)"
  by (simp add: padd_def)

lemma padd_zero [simp]: "padd zeroPoint a = a"
  by (simp add: padd_def zeroPoint_def)

lemma fold_updateSwipe_frame:
  "m_currentDelta (fold updateSwipeGesture ds s) = padd (m_currentDelta s) (foldr padd ds zeroPoint)"
  "swipeAt (fold updateSwipeGesture ds s) = swipeAt s"
proof (induction ds arbitrary: s)
  case (Cons d ds)
  { case 1 then show ?case by (simp add: Cons padd_assoc) }
  { case 2 then show ?case by (simp add: Cons) }
qed (simp_all add: padd_def zeroPoint_def)

text \<open>The component of a movement along the axis of a gesture.\<close>

definition along :: "swipe_direction \<Rightarrow> qpointf \<Rightarrow> qreal" where
  "along d p = (if vertical d then pointY p else pointX p)"

lemma deltaToProgress_along:
  assumes "sMinimumDeltaRelevant g" "along (sDirection g) (sMinimumDelta g) \<noteq> 0"
  shows "deltaToProgress g d = Some (min (\<bar>along (sDirection g) d\<bar> / \<bar>along (sDirection g) (sMinimumDelta g)\<bar>) 1)"
  using assms by (cases "sDirection g") (auto simp: deltaToProgress_def ratioProgress_def along_def vertical_def)

lemma ratioProgress_bounds: "case ratioProgress a b of Some p \<Rightarrow> 0 \<le> p \<and> p \<le> 1 | None \<Rightarrow> b = 0 \<and> a = 0"
  by (simp add: ratioProgress_def)

lemma deltaToProgress_ratio:
  "deltaToProgress g d = Some 1 \<or>
   deltaToProgress g d = ratioProgress (along (sDirection g) d) (along (sDirection g) (sMinimumDelta g))"
  by (cases "sDirection g") (simp_all add: deltaToProgress_def along_def vertical_def)

lemma deltaToProgress_bounds:
  "case deltaToProgress g d of Some p \<Rightarrow> 0 \<le> p \<and> p \<le> 1
    | None \<Rightarrow> along (sDirection g) (sMinimumDelta g) = 0 \<and> along (sDirection g) d = 0"
  using deltaToProgress_ratio[of g d] ratioProgress_bounds by auto

lemma scaleDeltaToProgress_bounds:
  "case scaleDeltaToProgress h x of Some p \<Rightarrow> 0 \<le> p \<and> p \<le> 1 | None \<Rightarrow> pMinimumScaleDelta h = 0 \<and> x = 1"
  by (simp add: scaleDeltaToProgress_def)

lemma eliminateSwipes_direction:
  "g \<in> set (m_activeSwipeGestures (eliminateSwipes dir s)) \<Longrightarrow>
   sDirection (swipeAt s g) = dir \<or> fromBorder (swipeAt s g)"
  by (auto simp: eliminateSwipes_def startSwipeGesture_def startSwipe_def Let_def split: if_splits)

lemma eliminateSwipes_keep:
  "m_activeSwipeGestures s \<noteq> [] \<Longrightarrow> \<forall>g \<in> set (m_activeSwipeGestures s). sDirection (swipeAt s g) = dir \<Longrightarrow>
   m_activeSwipeGestures (eliminateSwipes dir s) = m_activeSwipeGestures s"
  by (simp add: eliminateSwipes_def filter_id_conv)

lemma updateSwipe_keep:
  assumes "m_activeSwipeGestures s \<noteq> []" "e = padd (m_currentDelta s) d"
    "ax = (if m_currentSwipeAxis s = NoAxis then pickAxis e else m_currentSwipeAxis s)"
    "\<forall>g \<in> set (m_activeSwipeGestures s). sDirection (swipeAt s g) = swipeDirection ax e"
  shows "m_activeSwipeGestures (updateSwipeGesture d s) = m_activeSwipeGestures s"
    "m_currentSwipeAxis (updateSwipeGesture d s) =
       (if m_currentSwipeAxis s = NoAxis \<and> (\<bar>pointX e\<bar> \<ge> 5 \<or> \<bar>pointY e\<bar> \<ge> 5) then ax else m_currentSwipeAxis s)"
  using assms by (auto simp: updateSwipeGesture_def Let_def eliminateSwipes_keep padd_def)

lemma swipeDirection_axis: "ax \<noteq> NoAxis \<Longrightarrow> vertical (swipeDirection ax d) \<longleftrightarrow> ax = VerticalAxis"
  by (simp add: swipeDirection_def vertical_def)

section \<open>A recognizer with one swipe to the right and one pinch\<close>

definition demo_swipe :: swipe_gesture where
  "demo_swipe = \<lparr>sMinimumFingerCountRelevant = True, sMinimumFingerCount = 3, sMaximumFingerCountRelevant = True,
     sMaximumFingerCount = 3, sDirection = SwipeRight, sMinimumXRelevant = False, sMinimumX = 0, sMinimumYRelevant = False,
     sMinimumY = 0, sMaximumXRelevant = False, sMaximumX = 0, sMaximumYRelevant = False, sMaximumY = 0,
     sMinimumDeltaRelevant = True, sMinimumDelta = \<lparr>pointX = 100, pointY = 0\<rparr>\<rparr>"

definition demo_pinch :: pinch_gesture where
  "demo_pinch = \<lparr>pMinimumFingerCountRelevant = True, pMinimumFingerCount = 2, pMaximumFingerCountRelevant = False,
     pMaximumFingerCount = 0, pDirection = Contracting, pMinimumScaleDeltaRelevant = False, pMinimumScaleDelta = 1 / 5\<rparr>"

definition demo_recognizer :: recognizer where
  "demo_recognizer = (rec_init (\<lambda>_. demo_swipe) (\<lambda>_. demo_pinch))
     \<lparr>m_swipeGestures := [1], m_pinchGestures := [2], m_destroyConnections := [Pinch 2, Swipe 1]\<rparr>"

lemma demo_recognizer_reachable: "rec_reachable demo_recognizer"
proof -
  let ?i = "rec_init (\<lambda>_. demo_swipe) (\<lambda>_. demo_pinch)"
  have "registerSwipeGesture 1 ?i \<bind> registerPinchGesture 2 = Some demo_recognizer"
    by (simp add: registerSwipeGesture_def registerPinchGesture_def demo_recognizer_def rec_init_def List.insert_def)
  then obtain t where "registerSwipeGesture 1 ?i = Some t" "registerPinchGesture 2 t = Some demo_recognizer"
    by (auto simp: bind_eq_Some_conv)
  then show ?thesis using rec_next[OF rec_start rec_registerSwipe] rec_next[OF _ rec_registerPinch] by blast
qed

lemmas demo_gestures = demo_recognizer_def rec_init_def demo_swipe_def demo_pinch_def

definition demo_swiping :: recognizer where
  "demo_swiping = snd (startSwipeGesture 3 demo_recognizer)"

lemma demo_swiping_active: "m_activeSwipeGestures demo_swiping = [1]" "swipeAt demo_swiping = (\<lambda>_. demo_swipe)"
  "m_currentDelta demo_swiping = zeroPoint" "m_currentSwipeAxis demo_swiping = NoAxis"
  by (simp_all add: demo_swiping_def startSwipeGesture_def startSwipe_def Let_def gsend_def swipeFits_def fingersFit_def
      demo_gestures vertical_def)

lemma demo_swiping_reachable: "rec_reachable demo_swiping"
  unfolding demo_swiping_def by (rule rec_next[OF demo_recognizer_reachable rec_startSwipe])

text \<open>A pinch that begins and ends at once.\<close>

lemma pinch_at_once:
  assumes "m_activeSwipeGestures s = []" "m_activePinchGestures s = []" "m_pinchGestures s = [2]" "pinchAt s = (\<lambda>_. demo_pinch)"
  shows "m_activePinchGestures (snd (startPinchGesture 2 s)) = [2]"
    "last (gsignals (endPinchGesture (snd (startPinchGesture 2 s)))) =
     (if minimumScaleDeltaReached demo_pinch (m_currentScale s) then Triggered (Pinch 2) else Cancelled (Pinch 2))"
  using assms by (simp_all add: startPinchGesture_def endPinchGesture_def pinchFits_def fingersFit_def demo_pinch_def)

lemma demo_cancelled:
  "m_activeSwipeGestures (cancelSwipeGesture demo_swiping) = []" "m_activePinchGestures (cancelSwipeGesture demo_swiping) = []"
  "m_pinchGestures (cancelSwipeGesture demo_swiping) = [2]" "pinchAt (cancelSwipeGesture demo_swiping) = (\<lambda>_. demo_pinch)"
  "m_currentScale (cancelSwipeGesture demo_swiping) = 0"
  by (simp_all add: cancelSwipeGesture_def cancelActiveGestures_def demo_swiping_def startSwipeGesture_def startSwipe_def
      Let_def demo_recognizer_def rec_init_def)

lemma demo_at_rest:
  "m_activeSwipeGestures demo_recognizer = []" "m_activePinchGestures demo_recognizer = []"
  "m_pinchGestures demo_recognizer = [2]" "pinchAt demo_recognizer = (\<lambda>_. demo_pinch)" "m_currentScale demo_recognizer = 1"
  by (simp_all add: demo_recognizer_def rec_init_def)

lemma demo_pinch_reached: "minimumScaleDeltaReached demo_pinch 0" "\<not> minimumScaleDeltaReached demo_pinch 1"
  by (simp_all add: minimumScaleDeltaReached_def scaleDeltaToProgress_def demo_pinch_def)

section \<open>Properties\<close>



text \<open>Only registered gestures are active, none twice, never swipes and pinches at once, and the connections
  to the gestures' destruction are exactly those of the registered gestures.\<close>

theorem gst_reachable_wellformed:
  assumes "rec_reachable s"
  shows "distinct (m_activeSwipeGestures s) \<and> set (m_activeSwipeGestures s) \<subseteq> set (m_swipeGestures s) \<and>
    distinct (m_activePinchGestures s) \<and> set (m_activePinchGestures s) \<subseteq> set (m_pinchGestures s) \<and>
    (m_activeSwipeGestures s = [] \<or> m_activePinchGestures s = []) \<and>
    set (m_destroyConnections s) = Swipe ` set (m_swipeGestures s) \<union> Pinch ` set (m_pinchGestures s)"
  using rec_reachable_sound[OF assms] by (simp add: recInv_def)

theorem gst_reachable_wellformed_witness:
  "distinct (m_activeSwipeGestures demo_swiping) \<and> m_activePinchGestures demo_swiping = []"
  using gst_reachable_wellformed[OF demo_swiping_reachable] by (simp add: demo_swiping_active)

text \<open>Once the axis is locked it stays, whatever the movement, and after every update the active swipes point
  the way the fingers have moved along that axis in total, or were started from a border of the screen.\<close>

theorem gst_axis_locked:
  assumes "m_currentSwipeAxis s = ax" "ax \<noteq> NoAxis"
  shows "m_currentSwipeAxis (updateSwipeGesture d s) = ax \<and>
    (\<forall>g \<in> set (m_activeSwipeGestures (updateSwipeGesture d s)).
       fromBorder (swipeAt s g) \<or>
       (vertical (sDirection (swipeAt s g)) \<longleftrightarrow> ax = VerticalAxis) \<and>
       sDirection (swipeAt s g) = swipeDirection ax (padd (m_currentDelta s) d))"
  using assms by (auto simp: updateSwipeGesture_def Let_def padd_def swipeDirection_axis dest!: eliminateSwipes_direction)

theorem gst_axis_locked_witness:
  "m_currentSwipeAxis (updateSwipeGesture \<lparr>pointX = 0, pointY = 60\<rparr>
     (updateSwipeGesture \<lparr>pointX = 8, pointY = 1\<rparr> demo_swiping)) = HorizontalAxis"
  using gst_axis_locked[of "updateSwipeGesture \<lparr>pointX = 8, pointY = 1\<rparr> demo_swiping" HorizontalAxis]
  by (simp add: updateSwipeGesture_def Let_def demo_swiping_active pickAxis_def zeroPoint_def)

text \<open>A swipe that is still active when the fingers are lifted is triggered exactly when the movements since its
  start add up, along its axis, to at least its minimum distance, and is cancelled otherwise.\<close>

theorem gst_end_threshold:
  assumes "m_currentDelta s = zeroPoint" "t = fold updateSwipeGesture ds s" "g \<in> set (m_activeSwipeGestures t)"
    "sMinimumDeltaRelevant (swipeAt s g)" "along (sDirection (swipeAt s g)) (sMinimumDelta (swipeAt s g)) \<noteq> 0"
  shows "(if \<bar>along (sDirection (swipeAt s g)) (sMinimumDelta (swipeAt s g))\<bar> \<le>
             \<bar>along (sDirection (swipeAt s g)) (foldr padd ds zeroPoint)\<bar>
          then Triggered (Swipe g) else Cancelled (Swipe g))
    \<in> set (drop (length (gsignals t)) (gsignals (endSwipeGesture t)))"
proof -
  have d: "m_currentDelta t = foldr padd ds zeroPoint" and a: "swipeAt t = swipeAt s"
    using assms(1,2) fold_updateSwipe_frame by simp_all
  have pos: "0 < \<bar>along (sDirection (swipeAt s g)) (sMinimumDelta (swipeAt s g))\<bar>" using assms(5) by simp
  have "minimumDeltaReached (swipeAt t g) (m_currentDelta t) \<longleftrightarrow>
      \<bar>along (sDirection (swipeAt s g)) (sMinimumDelta (swipeAt s g))\<bar> \<le>
      \<bar>along (sDirection (swipeAt s g)) (foldr padd ds zeroPoint)\<bar>"
    using pos unfolding minimumDeltaReached_def a d deltaToProgress_along[OF assms(4,5)] by (simp add: le_divide_eq)
  then show ?thesis using assms(3) by (simp add: endSwipeGesture_def)
qed

theorem gst_end_threshold_witness:
  "Triggered (Swipe 1) \<in> set (gsignals (endSwipeGesture
     (fold updateSwipeGesture [\<lparr>pointX = 70, pointY = 2\<rparr>, \<lparr>pointX = 30, pointY = 1\<rparr>] demo_swiping)))"
proof -
  let ?ds = "[\<lparr>pointX = 70, pointY = 2\<rparr>, \<lparr>pointX = 30, pointY = 1\<rparr>] :: qpointf list"
  let ?t = "updateSwipeGesture \<lparr>pointX = 70, pointY = 2\<rparr> demo_swiping"
  have t: "m_activeSwipeGestures ?t = [1]" "m_currentSwipeAxis ?t = HorizontalAxis"
    using updateSwipe_keep[OF _ refl refl, of demo_swiping "\<lparr>pointX = 70, pointY = 2\<rparr>"]
    by (simp_all add: demo_swiping_active zeroPoint_def padd_def pickAxis_def swipeDirection_def demo_swipe_def)
  have "m_activeSwipeGestures (updateSwipeGesture \<lparr>pointX = 30, pointY = 1\<rparr> ?t) = [1]"
    using updateSwipe_keep(1)[OF _ refl refl, of ?t "\<lparr>pointX = 30, pointY = 1\<rparr>"]
    by (simp add: t demo_swiping_active zeroPoint_def padd_def swipeDirection_def demo_swipe_def)
  then have "1 \<in> set (m_activeSwipeGestures (fold updateSwipeGesture ?ds demo_swiping))" by simp
  from gst_end_threshold[OF demo_swiping_active(3) refl this]
  have "Triggered (Swipe 1) \<in> set (drop (length (gsignals (fold updateSwipeGesture ?ds demo_swiping)))
      (gsignals (endSwipeGesture (fold updateSwipeGesture ?ds demo_swiping))))"
    by (simp add: demo_swiping_active demo_swipe_def along_def vertical_def padd_def zeroPoint_def)
  then show ?thesis using set_drop_subset by fastforce
qed

text \<open>A progress is between 0 and 1 whenever it is a number; it is not a number only when the gesture's minimum is
  zero in the measured direction and there is no movement in it.\<close>

theorem gst_progress_bounds:
  "(case deltaToProgress g d of
      Some p \<Rightarrow> 0 \<le> p \<and> p \<le> 1
    | None \<Rightarrow> along (sDirection g) (sMinimumDelta g) = 0 \<and> along (sDirection g) d = 0) \<and>
   (case scaleDeltaToProgress h x of
      Some p \<Rightarrow> 0 \<le> p \<and> p \<le> 1
    | None \<Rightarrow> pMinimumScaleDelta h = 0 \<and> x = 1)"
  using deltaToProgress_bounds scaleDeltaToProgress_bounds by blast

text \<open>A pinch that begins and ends without any movement is triggered, instead of cancelled, when a swipe was
  cancelled before it: cancelling leaves the scale at 0.\<close>

theorem gst_stale_scale:
  "\<exists>s. rec_reachable s \<and> m_activePinchGestures s = [] \<and>
    m_activePinchGestures (snd (startPinchGesture 2 s)) = [2] \<and>
    last (gsignals (endPinchGesture (snd (startPinchGesture 2 s)))) = Triggered (Pinch 2) \<and>
    last (gsignals (endPinchGesture (snd (startPinchGesture 2 demo_recognizer)))) = Cancelled (Pinch 2)"
  by (rule exI[of _ "cancelSwipeGesture demo_swiping"], intro conjI rec_next[OF demo_swiping_reachable rec_cancelSwipe])
    (simp_all add: demo_cancelled demo_at_rest pinch_at_once demo_pinch_reached)

text \<open>Ending a pinch while a swipe is active drops the swipe without \<open>cancelled\<close>: the next time it starts its
  slots see a second \<open>started\<close>.\<close>

theorem gst_end_pinch_drops_swipes:
  "rec_reachable demo_swiping \<and> m_activeSwipeGestures (endPinchGesture demo_swiping) = [] \<and>
   lifecycle (Swipe 1) False (gsignals (endPinchGesture demo_swiping)) = Some True \<and>
   lifecycle (Swipe 1) False (gsignals (snd (startSwipeGesture 3 (endPinchGesture demo_swiping)))) = None"
  using demo_swiping_reachable
  by (simp add: demo_swiping_def startSwipeGesture_def startSwipe_def Let_def gsend_def swipeFits_def fingersFit_def
      demo_gestures vertical_def endPinchGesture_def)

end
