(* ===== verification/Window_Rules.thy ===== *)
theory Window_Rules
  imports Qt_Geometry Window_Model "HOL-Library.Monad_Syntax"
begin

text \<open>
  Window rules (\<open>src/src/rules.cpp\<close>). A rule has 40 settings; each has a value \<open>var\<close> and a policy
  \<open>var##rule\<close>, which the code handles with macros that treat every setting alike. Here a setting is a
  \<open>rkey\<close>, and \<open>r_value\<close> and \<open>r_policy\<close> hold what the code keeps in the two members. Rule objects are
  shared by pointer between the rule book and the windows, and deleted by hand: they live in a heap in
  which a deleted object is \<open>None\<close>. Regular expressions, case folding, window type masks and the
  lookup of colour schemes are the library's and come from the record \<open>rule_env\<close>.
\<close>

section \<open>Rules\<close>

datatype rkey = RPlacement | RPosition | RSize | RMinSize | RMaxSize | ROpacityActive | ROpacityInactive
  | RIgnoreGeometry | RDesktops | RScreen | RActivity | RType | RMaximizeVert | RMaximizeHoriz | RMinimize
  | RShade | RSkipTaskbar | RSkipPager | RSkipSwitcher | RAbove | RBelow | RFullscreen | RHideWindowMenu
  | RNoBorder | RDecoColor | RBlockCompositing | RFspLevel | RFppLevel | RAcceptFocus | RCloseable
  | RAutogroup | RAutogroupFg | RAutogroupId | RStrictGeometry | RShortcut | RDisableGlobalShortcuts
  | RDesktopFile | RDisableCorner | RDisableSplitPreview | REnableWindowShadow

definition allKeys :: "rkey list" where
  "allKeys = [RPlacement, RPosition, RSize, RMinSize, RMaxSize, ROpacityActive, ROpacityInactive,
     RIgnoreGeometry, RDesktops, RScreen, RActivity, RType, RMaximizeVert, RMaximizeHoriz, RMinimize,
     RShade, RSkipTaskbar, RSkipPager, RSkipSwitcher, RAbove, RBelow, RFullscreen, RHideWindowMenu,
     RNoBorder, RDecoColor, RBlockCompositing, RFspLevel, RFppLevel, RAcceptFocus, RCloseable,
     RAutogroup, RAutogroupFg, RAutogroupId, RStrictGeometry, RShortcut, RDisableGlobalShortcuts,
     RDesktopFile, RDisableCorner, RDisableSplitPreview, REnableWindowShadow]"

text \<open>The settings whose policy is a \<open>ForceRule\<close>; the others have a \<open>SetRule\<close>.\<close>

definition forceKeys :: "rkey list" where
  "forceKeys = [RPlacement, RMinSize, RMaxSize, ROpacityActive, ROpacityInactive, RType, RDecoColor,
     RBlockCompositing, RFspLevel, RFppLevel, RAcceptFocus, RCloseable, RAutogroup, RAutogroupFg,
     RAutogroupId, RStrictGeometry, RDisableGlobalShortcuts]"

definition isForce :: "rkey \<Rightarrow> bool" where "isForce k \<longleftrightarrow> k \<in> set forceKeys"

datatype rvalue = VInt int | VBool bool | VString string | VStrings "string list" | VPoint qpoint | VSize int int

fun vInt :: "rvalue \<Rightarrow> int" where "vInt (VInt i) = i" | "vInt _ = 0"
fun vBool :: "rvalue \<Rightarrow> bool" where "vBool (VBool b) = b" | "vBool _ = False"
fun vString :: "rvalue \<Rightarrow> string" where "vString (VString s) = s" | "vString _ = []"
fun vStrings :: "rvalue \<Rightarrow> string list" where "vStrings (VStrings l) = l" | "vStrings _ = []"
fun vPoint :: "rvalue \<Rightarrow> qpoint" where "vPoint (VPoint p) = p" | "vPoint _ = \<lparr>ipointX = 0, ipointY = 0\<rparr>"
fun vWidth :: "rvalue \<Rightarrow> int" where "vWidth (VSize w h) = w" | "vWidth _ = -1"
fun vHeight :: "rvalue \<Rightarrow> int" where "vHeight (VSize w h) = h" | "vHeight _ = -1"

type_synonym policy = int

abbreviation Unused :: policy where "Unused \<equiv> 0"
abbreviation DontAffect :: policy where "DontAffect \<equiv> 1"
abbreviation Force :: policy where "Force \<equiv> 2"
abbreviation Apply :: policy where "Apply \<equiv> 3"
abbreviation Remember :: policy where "Remember \<equiv> 4"
abbreviation ApplyNow :: policy where "ApplyNow \<equiv> 5"
abbreviation ForceTemporarily :: policy where "ForceTemporarily \<equiv> 6"

datatype string_match = UnimportantMatch | ExactMatch | SubstringMatch | RegExpMatch

record rules =
  temporary_state :: int
  r_description :: string
  r_wmclass :: string
  r_wmclassmatch :: string_match
  r_wmclasscomplete :: bool
  r_windowrole :: string
  r_windowrolematch :: string_match
  r_title :: string
  r_titlematch :: string_match
  r_clientmachine :: string
  r_clientmachinematch :: string_match
  r_types :: "net_type list option"
  r_value :: "rkey \<Rightarrow> rvalue"
  r_policy :: "rkey \<Rightarrow> policy"

definition invalidPoint :: qpoint where
  "invalidPoint = \<lparr>ipointX = -(2 ^ 31), ipointY = -(2 ^ 31)\<rparr>"

record rule_env =
  regexMatches :: "string \<Rightarrow> string \<Rightarrow> bool"
  lower :: "string \<Rightarrow> string"
  locateColors :: "string \<Rightarrow> string"
  ruleDesktopForId :: "string \<Rightarrow> vd option"
  ruleOutputs :: "outp list"
  fractionalGeometry :: "outp \<Rightarrow> qrectf"

section \<open>Reading and writing\<close>

text \<open>The generated \<open>RuleSettings\<close> object of one group of the configuration file: one entry for each
  member of a rule, \<open>types\<close> being \<open>None\<close> for all types.\<close>

definition convertForceRule :: "int \<Rightarrow> policy" where
  "convertForceRule v = (if v = DontAffect \<or> v = Force \<or> v = ForceTemporarily then v else Unused)"

definition getDecoColor :: "rule_env \<Rightarrow> string \<Rightarrow> string" where
  "getDecoColor R themeName = (if themeName = [] then [] else locateColors R themeName)"

text \<open>\<open>QFileInfo::baseName\<close> (the file name up to its first dot) and the lambda of \<open>Rules::write\<close>.\<close>

definition baseName :: "string \<Rightarrow> string" where
  "baseName path = takeWhile (\<lambda>c. c \<noteq> CHR ''.'') (rev (takeWhile (\<lambda>c. c \<noteq> CHR ''/'') (rev path)))"

definition colorToString :: "string \<Rightarrow> string" where
  "colorToString v = (if drop (length v - 7) v = ''.colors'' then baseName v else v)"

text \<open>One setting: its value and its policy, with the corrections that \<open>readFromSettings\<close> makes.\<close>

definition readValue :: "rule_env \<Rightarrow> (rkey \<Rightarrow> rvalue) \<Rightarrow> rkey \<Rightarrow> rvalue" where
  "readValue R v k = (case k of
       RDecoColor \<Rightarrow> VString (getDecoColor R (vString (v k)))
     | RMinSize \<Rightarrow> if vWidth (v k) < 0 \<or> vHeight (v k) < 0 then VSize 1 1 else v k
     | RMaxSize \<Rightarrow> if vWidth (v k) < 1 \<or> vHeight (v k) < 1 then VSize 32767 32767 else v k
     | RMinimize \<Rightarrow> VBool False
     | _ \<Rightarrow> v k)"

definition netUnknown :: int where "netUnknown = -1"

definition readPolicy :: "rule_env \<Rightarrow> (rkey \<Rightarrow> rvalue) \<Rightarrow> (rkey \<Rightarrow> int) \<Rightarrow> rkey \<Rightarrow> policy" where
  "readPolicy R v p k = (case k of
       RSize \<Rightarrow> if (vWidth (v k) < 1 \<or> vHeight (v k) < 1) \<and> p k \<noteq> Remember then Unused else p k
     | RType \<Rightarrow> if vInt (v k) = netUnknown then Unused else convertForceRule (p k)
     | RDecoColor \<Rightarrow> if getDecoColor R (vString (v k)) = [] then Unused else convertForceRule (p k)
     | RMinimize \<Rightarrow> Unused
     | _ \<Rightarrow> if isForce k then convertForceRule (p k) else p k)"

text \<open>\<open>legacy\<close> is the entry that older versions used for the description.\<close>

definition readFromSettings :: "rule_env \<Rightarrow> string \<Rightarrow> rules \<Rightarrow> rules" where
  "readFromSettings R legacy s = s\<lparr>
     r_description := (if r_description s = [] then legacy else r_description s),
     r_clientmachine := lower R (r_clientmachine s),
     r_value := readValue R (r_value s),
     r_policy := readPolicy R (r_value s) (r_policy s)\<rparr>"

text \<open>\<open>write\<close> into an entry that holds \<open>s\<close> (the defaults, or what it held before).\<close>

definition writeRule :: "rule_env \<Rightarrow> rules \<Rightarrow> rules \<Rightarrow> rules" where
  "writeRule R r s = s\<lparr>
     r_description := r_description r,
     r_wmclass := r_wmclass r, r_wmclassmatch := r_wmclassmatch r, r_wmclasscomplete := r_wmclasscomplete r,
     r_windowrole := (if r_windowrole r = [] then r_windowrole s else r_windowrole r),
     r_windowrolematch := r_windowrolematch r,
     r_title := (if r_title r = [] then r_title s else r_title r), r_titlematch := r_titlematch r,
     r_clientmachine := (if r_clientmachine r = [] then r_clientmachine s else r_clientmachine r),
     r_clientmachinematch := r_clientmachinematch r,
     r_types := r_types r,
     r_value := (\<lambda>k. if r_policy r k = Unused then r_value s k
        else if k = RDecoColor then VString (colorToString (vString (r_value r k))) else r_value r k),
     r_policy := r_policy r\<rparr>"

definition ruleIsEmpty :: "rules \<Rightarrow> bool" where
  "ruleIsEmpty r \<longleftrightarrow> list_all (\<lambda>k. r_policy r k = Unused) allKeys"

section \<open>Matching\<close>

record subject =
  sWindowType :: net_type
  sResourceClass :: string
  sResourceName :: string
  sWindowRole :: string
  sHostName :: string
  sIsLocal :: bool
  sCaption :: string
  sIsFullScreen :: bool
  sMaximizedH :: bool
  sMaximizedV :: bool
  sPos :: qpointf
  sSize :: qsizef
  sDesktopIds :: "string list"
  sScreen :: int
  sActivities :: "string list"
  sIsMinimized :: bool
  sShaded :: bool
  sSkipTaskbar :: bool
  sSkipPager :: bool
  sSkipSwitcher :: bool
  sKeepAbove :: bool
  sKeepBelow :: bool
  sNoBorder :: bool
  sDesktopFileName :: string

definition containsText :: "string \<Rightarrow> string \<Rightarrow> bool" where
  "containsText s t \<longleftrightarrow> (\<exists>i \<in> set [0 ..< Suc (length s)]. take (length t) (drop i s) = t)"

definition matchType :: "rules \<Rightarrow> net_type \<Rightarrow> bool" where
  "matchType r t = (case r_types r of None \<Rightarrow> True
     | Some ts \<Rightarrow> (if t = NETUnknown then NETNormal else t) \<in> set ts)"

text \<open>Without and with regard to case.\<close>

definition matchFolded :: "rule_env \<Rightarrow> string_match \<Rightarrow> string \<Rightarrow> string \<Rightarrow> bool" where
  "matchFolded R m pattern s = (case m of
       UnimportantMatch \<Rightarrow> True
     | RegExpMatch \<Rightarrow> regexMatches R pattern s
     | ExactMatch \<Rightarrow> lower R s = lower R pattern
     | SubstringMatch \<Rightarrow> containsText (lower R s) (lower R pattern))"

definition matchPlain :: "rule_env \<Rightarrow> string_match \<Rightarrow> string \<Rightarrow> string \<Rightarrow> bool" where
  "matchPlain R m pattern s = (case m of
       UnimportantMatch \<Rightarrow> True
     | RegExpMatch \<Rightarrow> regexMatches R pattern s
     | ExactMatch \<Rightarrow> pattern = s
     | SubstringMatch \<Rightarrow> containsText s pattern)"

definition matchWMClass :: "rule_env \<Rightarrow> rules \<Rightarrow> string \<Rightarrow> string \<Rightarrow> bool" where
  "matchWMClass R r match_class match_name = matchFolded R (r_wmclassmatch r) (r_wmclass r)
     (if r_wmclasscomplete r then match_name @ '' '' @ match_class else match_class)"

definition matchRole :: "rule_env \<Rightarrow> rules \<Rightarrow> string \<Rightarrow> bool" where
  "matchRole R r match_role = matchFolded R (r_windowrolematch r) (r_windowrole r) match_role"

definition matchTitle :: "rule_env \<Rightarrow> rules \<Rightarrow> string \<Rightarrow> bool" where
  "matchTitle R r match_title = matchPlain R (r_titlematch r) (r_title r) match_title"

definition matchClientMachine :: "rule_env \<Rightarrow> rules \<Rightarrow> string \<Rightarrow> bool \<Rightarrow> bool" where
  "matchClientMachine R r match_machine local =
     (r_clientmachinematch r = UnimportantMatch
      \<or> (match_machine \<noteq> ''localhost'' \<and> local \<and> matchPlain R (r_clientmachinematch r) (r_clientmachine r) ''localhost'')
      \<or> matchPlain R (r_clientmachinematch r) (r_clientmachine r) match_machine)"

definition ruleMatches :: "rule_env \<Rightarrow> rules \<Rightarrow> subject \<Rightarrow> bool" where
  "ruleMatches R r c \<longleftrightarrow> matchType r (sWindowType c) \<and> matchWMClass R r (sResourceClass c) (sResourceName c)
     \<and> matchRole R r (sWindowRole c) \<and> matchClientMachine R r (sHostName c) (sIsLocal c) \<and> matchTitle R r (sCaption c)"

section \<open>Remembering\<close>

text \<open>What a setting with the policy \<open>Remember\<close> becomes; \<open>None\<close> leaves it. A position or a size is not
  taken in a direction in which the window is maximized, nor from a full screen window.\<close>

definition remembered :: "subject \<Rightarrow> rkey \<Rightarrow> rvalue \<Rightarrow> rvalue option" where
  "remembered c k old = (case k of
       RPosition \<Rightarrow> if sIsFullScreen c then None else Some (VPoint \<lparr>
           ipointX = (if sMaximizedH c then ipointX (vPoint old) else trunc_int (pointX (sPos c))),
           ipointY = (if sMaximizedV c then ipointY (vPoint old) else trunc_int (pointY (sPos c)))\<rparr>)
     | RSize \<Rightarrow> if sIsFullScreen c then None else Some (VSize
           (if sMaximizedH c then vWidth old else trunc_int (sizeW (sSize c)))
           (if sMaximizedV c then vHeight old else trunc_int (sizeH (sSize c))))
     | RDesktops \<Rightarrow> Some (VStrings (sDesktopIds c))
     | RScreen \<Rightarrow> Some (VInt (sScreen c))
     | RActivity \<Rightarrow> Some (VStrings (sActivities c))
     | RMaximizeVert \<Rightarrow> Some (VBool (sMaximizedV c))
     | RMaximizeHoriz \<Rightarrow> Some (VBool (sMaximizedH c))
     | RMinimize \<Rightarrow> Some (VBool (sIsMinimized c))
     | RShade \<Rightarrow> Some (VBool (sShaded c))
     | RSkipTaskbar \<Rightarrow> Some (VBool (sSkipTaskbar c))
     | RSkipPager \<Rightarrow> Some (VBool (sSkipPager c))
     | RSkipSwitcher \<Rightarrow> Some (VBool (sSkipSwitcher c))
     | RAbove \<Rightarrow> Some (VBool (sKeepAbove c))
     | RBelow \<Rightarrow> Some (VBool (sKeepBelow c))
     | RFullscreen \<Rightarrow> Some (VBool (sIsFullScreen c))
     | RNoBorder \<Rightarrow> Some (VBool (sNoBorder c))
     | RDesktopFile \<Rightarrow> Some (VString (sDesktopFileName c))
     | _ \<Rightarrow> None)"

definition updateKey :: "subject \<Rightarrow> (rkey \<Rightarrow> bool) \<Rightarrow> rkey \<Rightarrow> bool \<times> rules \<Rightarrow> bool \<times> rules" where
  "updateKey c selection k ur = (case ur of (updated, r) \<Rightarrow>
     if selection k \<and> r_policy r k = Remember then
       (case remembered c k (r_value r k) of None \<Rightarrow> (updated, r)
        | Some v \<Rightarrow> (updated \<or> r_value r k \<noteq> v, r\<lparr>r_value := (r_value r)(k := v)\<rparr>))
     else (updated, r))"

definition rememberKeys :: "rkey list" where
  "rememberKeys = [RPosition, RSize, RDesktops, RScreen, RActivity, RMaximizeVert, RMaximizeHoriz, RMinimize, RShade,
     RSkipTaskbar, RSkipPager, RSkipSwitcher, RAbove, RBelow, RFullscreen, RNoBorder, RDesktopFile]"

definition updateRule :: "subject \<Rightarrow> (rkey \<Rightarrow> bool) \<Rightarrow> rules \<Rightarrow> bool \<times> rules" where
  "updateRule c selection r = fold (updateKey c selection) rememberKeys (False, r)"

section \<open>Applying\<close>

definition checkSetRule :: "policy \<Rightarrow> bool \<Rightarrow> bool" where
  "checkSetRule p init \<longleftrightarrow> p > DontAffect \<and> (p = Force \<or> p = ApplyNow \<or> p = ForceTemporarily \<or> init)"

definition checkForceRule :: "policy \<Rightarrow> bool" where
  "checkForceRule p \<longleftrightarrow> p = Force \<or> p = ForceTemporarily"

definition checkSetStop :: "policy \<Rightarrow> bool" where "checkSetStop p \<longleftrightarrow> p \<noteq> Unused"
definition checkForceStop :: "policy \<Rightarrow> bool" where "checkForceStop p \<longleftrightarrow> p \<noteq> Unused"

text \<open>The two macros; \<open>get\<close> reads the member. The result is the argument after the call and whether to
  stop.\<close>

definition applyRule :: "(rvalue \<Rightarrow> 'a) \<Rightarrow> rkey \<Rightarrow> bool \<Rightarrow> rules \<Rightarrow> 'a \<Rightarrow> 'a \<times> bool" where
  "applyRule get k init r arg =
     (if checkSetRule (r_policy r k) init then get (r_value r k) else arg, checkSetStop (r_policy r k))"

definition applyForceRule :: "(rvalue \<Rightarrow> 'a) \<Rightarrow> rkey \<Rightarrow> rules \<Rightarrow> 'a \<Rightarrow> 'a \<times> bool" where
  "applyForceRule get k r arg =
     (if checkForceRule (r_policy r k) then get (r_value r k) else arg, checkForceStop (r_policy r k))"

definition pointToF :: "qpoint \<Rightarrow> qpointf" where
  "pointToF p = \<lparr>pointX = of_int (ipointX p), pointY = of_int (ipointY p)\<rparr>"

definition applyPosition :: "bool \<Rightarrow> rules \<Rightarrow> qpointf \<Rightarrow> qpointf \<times> bool" where
  "applyPosition init r pos =
     (if vPoint (r_value r RPosition) \<noteq> invalidPoint \<and> checkSetRule (r_policy r RPosition) init
      then pointToF (vPoint (r_value r RPosition)) else pos, checkSetStop (r_policy r RPosition))"

definition vSizeF :: "rvalue \<Rightarrow> qsizef" where
  "vSizeF v = \<lparr>sizeW = of_int (vWidth v), sizeH = of_int (vHeight v)\<rparr>"

definition applySize :: "bool \<Rightarrow> rules \<Rightarrow> qsizef \<Rightarrow> qsizef \<times> bool" where
  "applySize init r s =
     (if 0 \<le> vWidth (r_value r RSize) \<and> 0 \<le> vHeight (r_value r RSize) \<and> checkSetRule (r_policy r RSize) init
      then vSizeF (r_value r RSize) else s, checkSetStop (r_policy r RSize))"

definition applyGeometry :: "bool \<Rightarrow> rules \<Rightarrow> qrectf \<Rightarrow> qrectf \<times> bool" where
  "applyGeometry init r rect =
     (let (p, rp) = applyPosition init r (rtopLeft rect); (s, rs) = applySize init r (rsize rect);
          rect = (if rp then moveTopLeft p rect else rect);
          rect = (if rs then setSize s rect else rect)
      in (rect, rp \<or> rs))"

definition applyDesktops :: "rule_env \<Rightarrow> bool \<Rightarrow> rules \<Rightarrow> vd list \<Rightarrow> vd list \<times> bool" where
  "applyDesktops R init r vds =
     (if checkSetRule (r_policy r RDesktops) init
      then concat (map (\<lambda>i. case ruleDesktopForId R i of None \<Rightarrow> [] | Some d \<Rightarrow> [d]) (vStrings (r_value r RDesktops)))
      else vds, checkSetStop (r_policy r RDesktops))"

datatype shade_mode = ShadeNone | ShadeNormal | ShadeHover | ShadeActivated

definition applyShade :: "bool \<Rightarrow> rules \<Rightarrow> shade_mode \<Rightarrow> shade_mode \<times> bool" where
  "applyShade init r sh =
     (if checkSetRule (r_policy r RShade) init
      then (let sh = (if \<not> vBool (r_value r RShade) then ShadeNone else sh)
            in if vBool (r_value r RShade) \<and> sh = ShadeNone then ShadeNormal else sh)
      else sh, checkSetStop (r_policy r RShade))"

record maximize_mode =
  mvert :: bool
  mhoriz :: bool

definition applyMaximizeVert :: "bool \<Rightarrow> rules \<Rightarrow> maximize_mode \<Rightarrow> maximize_mode \<times> bool" where
  "applyMaximizeVert init r mode =
     (if checkSetRule (r_policy r RMaximizeVert) init then mode\<lparr>mvert := vBool (r_value r RMaximizeVert)\<rparr> else mode,
      checkSetStop (r_policy r RMaximizeVert))"

definition applyMaximizeHoriz :: "bool \<Rightarrow> rules \<Rightarrow> maximize_mode \<Rightarrow> maximize_mode \<times> bool" where
  "applyMaximizeHoriz init r mode =
     (if checkSetRule (r_policy r RMaximizeHoriz) init then mode\<lparr>mhoriz := vBool (r_value r RMaximizeHoriz)\<rparr> else mode,
      checkSetStop (r_policy r RMaximizeHoriz))"

section \<open>Discarding\<close>

text \<open>The new state, and whether the rule is deleted.\<close>

definition discardTemporaryRule :: "bool \<Rightarrow> rules \<Rightarrow> rules \<times> bool" where
  "discardTemporaryRule force r =
     (if temporary_state r = 0 then (r, False)
      else if force then (r, True)
      else (let r = r\<lparr>temporary_state := temporary_state r - 1\<rparr> in (r, temporary_state r = 0)))"

definition isTemporary :: "rules \<Rightarrow> bool" where "isTemporary r \<longleftrightarrow> temporary_state r > 0"

definition usedUp :: "bool \<Rightarrow> rules \<Rightarrow> rkey \<Rightarrow> bool" where
  "usedUp withdrawn r k \<longleftrightarrow>
     (if isForce k then withdrawn \<and> r_policy r k = ForceTemporarily
      else r_policy r k = ApplyNow \<or> (withdrawn \<and> r_policy r k = ForceTemporarily))"

definition discardKey :: "bool \<Rightarrow> rkey \<Rightarrow> bool \<times> rules \<Rightarrow> bool \<times> rules" where
  "discardKey withdrawn k cr = (case cr of (changed, r) \<Rightarrow>
     if usedUp withdrawn r k then (True, r\<lparr>r_policy := (r_policy r)(k := Unused)\<rparr>) else (changed, r))"

definition discardUsedRule :: "bool \<Rightarrow> rules \<Rightarrow> bool \<times> rules" where
  "discardUsedRule withdrawn r = fold (discardKey withdrawn) allKeys (False, r)"

end
