(* ===== verification/Rule_Book.thy ===== *)
theory Rule_Book
  imports Window_Rules
begin

text \<open>
  The rule book and the rules of the windows (\<open>RuleBook\<close>, \<open>WindowRules\<close> in \<open>src/src/rules.cpp\<close> and the
  callers in \<open>src/src/window.cpp\<close>). Both keep pointers to the same rule objects. An operation is
  \<open>None\<close> when it follows a pointer to a deleted rule. The configuration file is the list of its entries;
  the timers are the flag \<open>storageRequested\<close> and the number of cleanups that are due.
\<close>

type_synonym rid = nat

record rulebook =
  ruleHeap :: "rid \<Rightarrow> rules option"
  nextRule :: rid
  bookRules :: "rid list"
  updatesDisabled :: bool
  storageRequested :: bool
  cleanupsDue :: nat
  ruleEntries :: "rules list option"
  windowRules :: "wid \<Rightarrow> rid list"

section \<open>The rules of a window\<close>

text \<open>\<open>CHECK_RULE\<close> and \<open>CHECK_FORCE_RULE\<close>: the rules are applied in turn until one says to stop.\<close>

fun checkRules :: "(rules \<Rightarrow> 'a \<Rightarrow> 'a \<times> bool) \<Rightarrow> rules list \<Rightarrow> 'a \<Rightarrow> 'a" where
  "checkRules f [] ret = ret"
| "checkRules f (r # rs) ret = (case f r ret of (ret', stop) \<Rightarrow> if stop then ret' else checkRules f rs ret')"

definition derefAll :: "rulebook \<Rightarrow> rid list \<Rightarrow> rules list option" where
  "derefAll b ids = those (map (ruleHeap b) ids)"

definition rulesOf :: "rulebook \<Rightarrow> wid \<Rightarrow> rules list option" where
  "rulesOf b w = derefAll b (windowRules b w)"

definition checkSet :: "rulebook \<Rightarrow> wid \<Rightarrow> (rvalue \<Rightarrow> 'a) \<Rightarrow> rkey \<Rightarrow> 'a \<Rightarrow> bool \<Rightarrow> 'a option" where
  "checkSet b w get k arg init = map_option (\<lambda>rs. checkRules (applyRule get k init) rs arg) (rulesOf b w)"

definition checkForce :: "rulebook \<Rightarrow> wid \<Rightarrow> (rvalue \<Rightarrow> 'a) \<Rightarrow> rkey \<Rightarrow> 'a \<Rightarrow> 'a option" where
  "checkForce b w get k arg = map_option (\<lambda>rs. checkRules (applyForceRule get k) rs arg) (rulesOf b w)"

definition checkPosition :: "rulebook \<Rightarrow> wid \<Rightarrow> qpointf \<Rightarrow> bool \<Rightarrow> qpointf option" where
  "checkPosition b w pos init = map_option (\<lambda>rs. checkRules (applyPosition init) rs pos) (rulesOf b w)"

definition checkSize :: "rulebook \<Rightarrow> wid \<Rightarrow> qsizef \<Rightarrow> bool \<Rightarrow> qsizef option" where
  "checkSize b w s init = map_option (\<lambda>rs. checkRules (applySize init) rs s) (rulesOf b w)"

definition checkPositionSafe :: "rule_env \<Rightarrow> rulebook \<Rightarrow> wid \<Rightarrow> qpointf \<Rightarrow> bool \<Rightarrow> qpointf option" where
  "checkPositionSafe R b w pos init = do {
     ret \<leftarrow> checkPosition b w pos init;
     Some (if ret = pos \<or> ret = pointToF invalidPoint \<or> list_ex (\<lambda>out. rcontains (fractionalGeometry R out) ret) (ruleOutputs R) then ret else pointToF invalidPoint) }"

definition rectOf :: "qpointf \<Rightarrow> qsizef \<Rightarrow> qrectf" where
  "rectOf p s = \<lparr>rectX = pointX p, rectY = pointY p, rectW = sizeW s, rectH = sizeH s\<rparr>"

definition checkGeometry :: "rulebook \<Rightarrow> wid \<Rightarrow> qrectf \<Rightarrow> bool \<Rightarrow> qrectf option" where
  "checkGeometry b w rect init = do {
     p \<leftarrow> checkPosition b w (rtopLeft rect) init;
     s \<leftarrow> checkSize b w (rsize rect) init;
     Some (rectOf p s) }"

definition checkGeometrySafe :: "rule_env \<Rightarrow> rulebook \<Rightarrow> wid \<Rightarrow> qrectf \<Rightarrow> bool \<Rightarrow> qrectf option" where
  "checkGeometrySafe R b w rect init = do {
     p \<leftarrow> checkPositionSafe R b w (rtopLeft rect) init;
     s \<leftarrow> checkSize b w (rsize rect) init;
     Some (rectOf p s) }"

definition checkMaximize :: "rulebook \<Rightarrow> wid \<Rightarrow> maximize_mode \<Rightarrow> bool \<Rightarrow> maximize_mode option" where
  "checkMaximize b w mode init = map_option (\<lambda>rs.
     \<lparr>mvert = mvert (checkRules (applyMaximizeVert init) rs mode),
      mhoriz = mhoriz (checkRules (applyMaximizeHoriz init) rs mode)\<rparr>) (rulesOf b w)"

definition checkOutput :: "rule_env \<Rightarrow> rulebook \<Rightarrow> wid \<Rightarrow> outp \<Rightarrow> bool \<Rightarrow> outp option" where
  "checkOutput R b w out init = map_option (\<lambda>rs. if rs = [] then out
     else (case atIdx (ruleOutputs R) (checkRules (applyRule vInt RScreen init) rs (indexOf (ruleOutputs R) out)) of
         None \<Rightarrow> out | Some ruleOutput \<Rightarrow> ruleOutput)) (rulesOf b w)"

text \<open>\<open>WindowRules::update\<close>: each rule remembers; the rules are written to disk later if one changed.\<close>

fun updateRules :: "subject \<Rightarrow> (rkey \<Rightarrow> bool) \<Rightarrow> rid list \<Rightarrow> rulebook \<Rightarrow> (bool \<times> rulebook) option" where
  "updateRules c sel [] b = Some (False, b)"
| "updateRules c sel (i # is) b = do {
     r \<leftarrow> ruleHeap b i;
     let (u, r') = updateRule c sel r;
     (us, b) \<leftarrow> updateRules c sel is (b\<lparr>ruleHeap := (ruleHeap b)(i \<mapsto> r')\<rparr>);
     Some (u \<or> us, b) }"

definition updateWindowRules :: "subject \<Rightarrow> wid \<Rightarrow> (rkey \<Rightarrow> bool) \<Rightarrow> rulebook \<Rightarrow> rulebook option" where
  "updateWindowRules c w sel b = (if updatesDisabled b then Some b
     else do {
       (updated, b) \<leftarrow> updateRules c sel (windowRules b w) b;
       Some (if updated then b\<lparr>storageRequested := True\<rparr> else b) })"

definition finishWindowRules :: "subject \<Rightarrow> wid \<Rightarrow> rulebook \<Rightarrow> rulebook option" where
  "finishWindowRules c w b = do {
     b \<leftarrow> updateWindowRules c w (\<lambda>_. True) b;
     Some (b\<lparr>windowRules := (windowRules b)(w := [])\<rparr>) }"

text \<open>\<open>WindowRules::discardTemporary\<close>: temporary rules are deleted and dropped from the list.\<close>

fun discardTemporaryOf :: "rid list \<Rightarrow> rulebook \<Rightarrow> (rid list \<times> rulebook) option" where
  "discardTemporaryOf [] b = Some ([], b)"
| "discardTemporaryOf (i # is) b = do {
     r \<leftarrow> ruleHeap b i;
     let (r', deleted) = discardTemporaryRule True r;
     (rest, b) \<leftarrow> discardTemporaryOf is (b\<lparr>ruleHeap := (ruleHeap b)(i := if deleted then None else Some r')\<rparr>);
     Some (if deleted then rest else i # rest, b) }"

definition discardTemporaryRules :: "wid \<Rightarrow> rulebook \<Rightarrow> rulebook option" where
  "discardTemporaryRules w b = do {
     (is, b) \<leftarrow> discardTemporaryOf (windowRules b w) b;
     Some (b\<lparr>windowRules := (windowRules b)(w := is)\<rparr>) }"

section \<open>The rule book\<close>

text \<open>\<open>RuleBook::find\<close>: the rules that match, in order; a temporary one leaves the book.\<close>

fun findRules :: "rule_env \<Rightarrow> rulebook \<Rightarrow> subject \<Rightarrow> bool \<Rightarrow> rid list \<Rightarrow> (rid list \<times> rid list) option" where
  "findRules R b c ignore_temporary [] = Some ([], [])"
| "findRules R b c ignore_temporary (i # is) = do {
     r \<leftarrow> ruleHeap b i;
     (found, kept) \<leftarrow> findRules R b c ignore_temporary is;
     Some (if ignore_temporary \<and> isTemporary r then (found, i # kept)
       else if ruleMatches R r c then (if isTemporary r then (i # found, kept) else (i # found, i # kept))
       else (found, i # kept)) }"

definition setupWindowRules :: "rule_env \<Rightarrow> subject \<Rightarrow> wid \<Rightarrow> bool \<Rightarrow> rulebook \<Rightarrow> rulebook option" where
  "setupWindowRules R c w ignore_temporary b = do {
     (found, kept) \<leftarrow> findRules R b c ignore_temporary (bookRules b);
     Some (b\<lparr>bookRules := kept, windowRules := (windowRules b)(w := found)\<rparr>) }"

text \<open>\<open>deleteAll\<close>; the windows clear their lists on \<open>allRulesDeleted\<close>.\<close>

definition deleteAll :: "rulebook \<Rightarrow> rulebook" where
  "deleteAll b = b\<lparr>ruleHeap := (\<lambda>i. if i \<in> set (bookRules b) then None else ruleHeap b i),
     bookRules := [], windowRules := (\<lambda>_. [])\<rparr>"

definition newRule :: "rules \<Rightarrow> rulebook \<Rightarrow> rid \<times> rulebook" where
  "newRule r b = (nextRule b, b\<lparr>ruleHeap := (ruleHeap b)(nextRule b \<mapsto> r), nextRule := Suc (nextRule b)\<rparr>)"

definition addBookRule :: "rules \<Rightarrow> rulebook \<Rightarrow> rulebook" where
  "addBookRule r b = (let (i, b) = newRule r b in b\<lparr>bookRules := bookRules b @ [i]\<rparr>)"

text \<open>\<open>load\<close>: the entries of the configuration file become new rules.\<close>

definition loadRules :: "rule_env \<Rightarrow> rules list \<Rightarrow> rulebook \<Rightarrow> rulebook" where
  "loadRules R entries b =
     fold (\<lambda>s. addBookRule ((readFromSettings R [] s)\<lparr>temporary_state := 0\<rparr>)) entries
       ((deleteAll b)\<lparr>ruleEntries := Some entries\<rparr>)"

definition defaultEntry :: rules where
  "defaultEntry = \<lparr>temporary_state = 0, r_description = [], r_wmclass = [], r_wmclassmatch = UnimportantMatch,
     r_wmclasscomplete = False, r_windowrole = [], r_windowrolematch = UnimportantMatch, r_title = [],
     r_titlematch = UnimportantMatch, r_clientmachine = [], r_clientmachinematch = UnimportantMatch, r_types = None,
     r_value = (\<lambda>k. case k of RPlacement \<Rightarrow> VInt 5 | RPosition \<Rightarrow> VPoint invalidPoint | RSize \<Rightarrow> VSize (-1) (-1)
        | RMinSize \<Rightarrow> VSize (-1) (-1) | RMaxSize \<Rightarrow> VSize (-1) (-1) | RType \<Rightarrow> VInt netUnknown
        | RDesktops \<Rightarrow> VStrings [] | RActivity \<Rightarrow> VStrings [] | RDecoColor \<Rightarrow> VString [] | RAutogroupId \<Rightarrow> VString []
        | RShortcut \<Rightarrow> VString [] | RDesktopFile \<Rightarrow> VString [] | RScreen \<Rightarrow> VInt 0 | ROpacityActive \<Rightarrow> VInt 0
        | ROpacityInactive \<Rightarrow> VInt 0 | RFspLevel \<Rightarrow> VInt 0 | RFppLevel \<Rightarrow> VInt 0 | _ \<Rightarrow> VBool False),
     r_policy = (\<lambda>_. Unused)\<rparr>"

text \<open>\<open>save\<close>: every rule that is not temporary is written, into an entry set to the defaults.\<close>

definition saveRules :: "rule_env \<Rightarrow> rulebook \<Rightarrow> rulebook option" where
  "saveRules R b = (let b = b\<lparr>storageRequested := False\<rparr> in
     case ruleEntries b of None \<Rightarrow> Some b
     | Some _ \<Rightarrow> do {
         rs \<leftarrow> derefAll b (bookRules b);
         Some (b\<lparr>ruleEntries := Some (map (\<lambda>r. writeRule R r defaultEntry) (filter (\<lambda>r. \<not> isTemporary r) rs))\<rparr>) })"

text \<open>\<open>temporaryRulesMessage\<close> with the rule that the message holds.\<close>

definition temporaryRulesMessage :: "rules \<Rightarrow> rulebook \<Rightarrow> rulebook option" where
  "temporaryRulesMessage parsed b = do {
     rs \<leftarrow> derefAll b (bookRules b);
     let was_temporary = list_ex isTemporary rs;
     let (i, b) = newRule (parsed\<lparr>temporary_state := 2,
           r_description := (if r_description parsed = [] then ''temporary'' else r_description parsed)\<rparr>) b;
     let b = b\<lparr>bookRules := i # bookRules b\<rparr>;
     Some (if was_temporary then b else b\<lparr>cleanupsDue := cleanupsDue b + 1\<rparr>) }"

text \<open>The loop of \<open>cleanupTemporaryRules\<close>: the rules that stay, and whether one of them is temporary.\<close>

fun cleanupLoop :: "rid list \<Rightarrow> rulebook \<Rightarrow> (rid list \<times> bool \<times> rulebook) option" where
  "cleanupLoop [] b = Some ([], False, b)"
| "cleanupLoop (i # is) b = do {
     r \<leftarrow> ruleHeap b i;
     let (r', deleted) = discardTemporaryRule False r;
     (kept, has, b) \<leftarrow> cleanupLoop is (b\<lparr>ruleHeap := (ruleHeap b)(i := if deleted then None else Some r')\<rparr>);
     Some (if deleted then (kept, has, b) else (i # kept, has \<or> isTemporary r', b)) }"

definition cleanupTemporaryRules :: "rulebook \<Rightarrow> rulebook option" where
  "cleanupTemporaryRules b = do {
     let b = b\<lparr>cleanupsDue := cleanupsDue b - 1\<rparr>;
     (kept, has_temporary, b) \<leftarrow> cleanupLoop (bookRules b) b;
     let b = b\<lparr>bookRules := kept\<rparr>;
     Some (if has_temporary then b\<lparr>cleanupsDue := cleanupsDue b + 1\<rparr> else b) }"

text \<open>The loop of \<open>RuleBook::discardUsed\<close> for window \<open>w\<close>: a rule of the window that has become empty is
  taken from the window and the book and deleted.\<close>

fun discardLoop :: "wid \<Rightarrow> bool \<Rightarrow> rid list \<Rightarrow> rulebook \<Rightarrow> (rid list \<times> bool \<times> rulebook) option" where
  "discardLoop w withdrawn [] b = Some ([], False, b)"
| "discardLoop w withdrawn (i # is) b =
     (if i \<in> set (windowRules b w) then do {
        r \<leftarrow> ruleHeap b i;
        let (changed, r') = discardUsedRule withdrawn r;
        let gone = ruleIsEmpty r';
        (kept, updated, b) \<leftarrow> discardLoop w withdrawn is
          (b\<lparr>ruleHeap := (ruleHeap b)(i := if gone then None else Some r'),
             windowRules := (if gone then (windowRules b)(w := remove1 i (windowRules b w)) else windowRules b)\<rparr>);
        Some (if gone then kept else i # kept, changed \<or> updated, b) }
      else do {
        (kept, updated, b) \<leftarrow> discardLoop w withdrawn is b;
        Some (i # kept, updated, b) })"

definition discardUsed :: "wid \<Rightarrow> bool \<Rightarrow> rulebook \<Rightarrow> rulebook option" where
  "discardUsed w withdrawn b = do {
     (kept, updated, b) \<leftarrow> discardLoop w withdrawn (bookRules b) b;
     let b = b\<lparr>bookRules := kept\<rparr>;
     Some (if updated then b\<lparr>storageRequested := True\<rparr> else b) }"

fun updateAllWindows :: "(wid \<Rightarrow> subject) \<Rightarrow> wid list \<Rightarrow> rulebook \<Rightarrow> rulebook option" where
  "updateAllWindows subj [] b = Some b"
| "updateAllWindows subj (w # ws) b = updateWindowRules (subj w) w (\<lambda>_. True) b \<bind> updateAllWindows subj ws"

definition setUpdatesDisabled :: "(wid \<Rightarrow> subject) \<Rightarrow> wid list \<Rightarrow> bool \<Rightarrow> rulebook \<Rightarrow> rulebook option" where
  "setUpdatesDisabled subj clients disable b =
     (let b = b\<lparr>updatesDisabled := disable\<rparr>
      in if disable then Some b else updateAllWindows subj clients b)"

end
