(* ===== verification/Rule_Facts.thy ===== *)
theory Rule_Facts
  imports Rule_Book
begin

text \<open>
  Facts about single rules: what a check returns, what \<open>update\<close> and \<open>discardUsed\<close> do to each
  setting, and that reading what was written gives the same rule back.
\<close>

section \<open>Which rule decides\<close>

text \<open>The first rule of the window that does not leave a setting unused decides about it.\<close>

definition deciding :: "rkey \<Rightarrow> rules list \<Rightarrow> rules option" where
  "deciding k rs = find (\<lambda>r. r_policy r k \<noteq> Unused) rs"

lemma unused_is_skipped [simp]: "\<not> checkSetRule 0 init" "\<not> checkForceRule 0"
  by (simp_all add: checkSetRule_def checkForceRule_def)

lemma checkRules_set:
  "checkRules (applyRule get k init) rs arg = (case deciding k rs of None \<Rightarrow> arg
     | Some r \<Rightarrow> if checkSetRule (r_policy r k) init then get (r_value r k) else arg)"
  by (induction rs) (auto simp: deciding_def applyRule_def checkSetStop_def)

lemma checkRules_force:
  "checkRules (applyForceRule get k) rs arg = (case deciding k rs of None \<Rightarrow> arg
     | Some r \<Rightarrow> if checkForceRule (r_policy r k) then get (r_value r k) else arg)"
  by (induction rs) (auto simp: deciding_def applyForceRule_def checkForceStop_def)

section \<open>Loops over the settings\<close>

text \<open>A loop that treats each setting by itself changes each one once.\<close>

lemma allKeys_complete [simp]: "k \<in> set allKeys"
  by (cases k) (simp_all add: allKeys_def)

lemma set_allKeys [simp]: "set allKeys = UNIV"
  using allKeys_complete by blast

lemma distinct_keys [simp]: "distinct allKeys" "distinct rememberKeys"
  by (simp_all add: allKeys_def rememberKeys_def)

definition remembers :: "subject \<Rightarrow> (rkey \<Rightarrow> bool) \<Rightarrow> rules \<Rightarrow> rkey \<Rightarrow> rvalue" where
  "remembers c sel r k = (if sel k \<and> r_policy r k = Remember
     then (case remembered c k (r_value r k) of None \<Rightarrow> r_value r k | Some v \<Rightarrow> v) else r_value r k)"

lemma updateKeys_spec:
  assumes "distinct ks"
  shows "fold (updateKey c sel) ks (u, r) =
    (u \<or> (\<exists>k \<in> set ks. remembers c sel r k \<noteq> r_value r k),
     r\<lparr>r_value := \<lambda>k. if k \<in> set ks then remembers c sel r k else r_value r k\<rparr>)"
  using assms
proof (induction ks arbitrary: u r)
  case (Cons k ks)
  let ?r' = "r\<lparr>r_value := (r_value r)(k := remembers c sel r k)\<rparr>"
  have step: "updateKey c sel k (u, r) = (u \<or> remembers c sel r k \<noteq> r_value r k, ?r')"
    by (auto simp: updateKey_def remembers_def split: option.split)
  have upd: "remembers c sel (r\<lparr>r_value := (r_value r)(k := v)\<rparr>) j = remembers c sel r j" if "j \<noteq> k" for j v
    using that by (auto simp: remembers_def split: option.split)
  note other = upd[of _ "remembers c sel r k"]
  have notin: "k \<notin> set ks" using Cons.prems by simp
  then have ne: "j \<noteq> k" if "j \<in> set ks" for j using that by blast
  have ex: "(\<exists>j \<in> set ks. remembers c sel ?r' j \<noteq> r_value ?r' j) \<longleftrightarrow> (\<exists>j \<in> set ks. remembers c sel r j \<noteq> r_value r j)"
  proof (intro bex_cong refl)
    fix j assume "j \<in> set ks"
    then have "j \<noteq> k" using notin by blast
    then show "(remembers c sel ?r' j \<noteq> r_value ?r' j) = (remembers c sel r j \<noteq> r_value r j)" using other by simp
  qed
  have val: "(\<lambda>j. if j \<in> set ks then remembers c sel ?r' j else r_value ?r' j) =
      (\<lambda>j. if j \<in> set (k # ks) then remembers c sel r j else r_value r j)"
    using notin by (intro ext) (auto simp: other ne)
  have ih: "fold (updateKey c sel) ks (u \<or> remembers c sel r k \<noteq> r_value r k, ?r') =
      ((u \<or> remembers c sel r k \<noteq> r_value r k) \<or> (\<exists>j \<in> set ks. remembers c sel ?r' j \<noteq> r_value ?r' j),
       ?r'\<lparr>r_value := \<lambda>j. if j \<in> set ks then remembers c sel ?r' j else r_value ?r' j\<rparr>)"
    by (rule Cons.IH) (use Cons.prems in simp)
  show ?case unfolding fold_simps step ih ex val by auto
qed simp

lemma remembered_other: "k \<notin> set rememberKeys \<Longrightarrow> remembered c k v = None"
  by (cases k) (simp_all add: rememberKeys_def remembered_def)

lemma updateRule_spec:
  "updateRule c sel r = ((\<exists>k. remembers c sel r k \<noteq> r_value r k), r\<lparr>r_value := remembers c sel r\<rparr>)"
proof -
  have out: "remembers c sel r k = r_value r k" if "k \<notin> set rememberKeys" for k
    using remembered_other[OF that] by (simp add: remembers_def)
  then have "(\<lambda>k. if k \<in> set rememberKeys then remembers c sel r k else r_value r k) = remembers c sel r" by auto
  moreover have "(\<exists>k \<in> set rememberKeys. remembers c sel r k \<noteq> r_value r k) \<longleftrightarrow> (\<exists>k. remembers c sel r k \<noteq> r_value r k)"
    using out by blast
  ultimately show ?thesis unfolding updateRule_def updateKeys_spec[OF distinct_keys(2)] by simp
qed

lemma remembered_idem: "remembered c k old = Some v \<Longrightarrow> remembered c k v = Some v"
  by (cases k) (auto simp: remembered_def split: if_splits)

lemma remembers_idem: "remembers c sel (r\<lparr>r_value := remembers c sel r\<rparr>) = remembers c sel r"
  by (rule ext) (auto simp: remembers_def remembered_idem split: option.split)

definition discarded :: "bool \<Rightarrow> rules \<Rightarrow> rkey \<Rightarrow> policy" where
  "discarded withdrawn r k = (if usedUp withdrawn r k then Unused else r_policy r k)"

lemma discardKeys_spec:
  assumes "distinct ks"
  shows "fold (discardKey wd) ks (u, r) = (u \<or> (\<exists>k \<in> set ks. usedUp wd r k),
    r\<lparr>r_policy := \<lambda>k. if k \<in> set ks then discarded wd r k else r_policy r k\<rparr>)"
  using assms
proof (induction ks arbitrary: u r)
  case (Cons k ks)
  let ?r' = "r\<lparr>r_policy := (r_policy r)(k := discarded wd r k)\<rparr>"
  have step: "discardKey wd k (u, r) = (u \<or> usedUp wd r k, ?r')"
    by (auto simp: discardKey_def discarded_def)
  have other: "usedUp wd ?r' j = usedUp wd r j" "discarded wd ?r' j = discarded wd r j" if "j \<noteq> k" for j
    using that by (simp_all add: usedUp_def discarded_def)
  have notin: "k \<notin> set ks" using Cons.prems by simp
  then have ne: "j \<noteq> k" if "j \<in> set ks" for j using that by blast
  have ex: "(\<exists>j \<in> set ks. usedUp wd ?r' j) \<longleftrightarrow> (\<exists>j \<in> set ks. usedUp wd r j)"
  proof (intro bex_cong refl)
    fix j assume "j \<in> set ks"
    then have "j \<noteq> k" using notin by blast
    then show "usedUp wd ?r' j = usedUp wd r j" by (rule other(1))
  qed
  have val: "(\<lambda>j. if j \<in> set ks then discarded wd ?r' j else r_policy ?r' j) =
      (\<lambda>j. if j \<in> set (k # ks) then discarded wd r j else r_policy r j)"
    using notin by (intro ext) (auto simp: other ne)
  have ih: "fold (discardKey wd) ks (u \<or> usedUp wd r k, ?r') = ((u \<or> usedUp wd r k) \<or> (\<exists>j \<in> set ks. usedUp wd ?r' j),
       ?r'\<lparr>r_policy := \<lambda>j. if j \<in> set ks then discarded wd ?r' j else r_policy ?r' j\<rparr>)"
    by (rule Cons.IH) (use Cons.prems in simp)
  show ?case unfolding fold_simps step ih ex val by auto
qed simp

lemma discardUsedRule_spec:
  "discardUsedRule wd r = ((\<exists>k. usedUp wd r k), r\<lparr>r_policy := discarded wd r\<rparr>)"
proof -
  have "(\<lambda>k. if k \<in> set allKeys then discarded wd r k else r_policy r k) = discarded wd r" by simp
  moreover have "(\<exists>k \<in> set allKeys. usedUp wd r k) \<longleftrightarrow> (\<exists>k. usedUp wd r k)" by auto
  ultimately show ?thesis unfolding discardUsedRule_def discardKeys_spec[OF distinct_keys(1)] by simp
qed

lemma ruleIsEmpty_iff: "ruleIsEmpty r \<longleftrightarrow> (\<forall>k. r_policy r k = Unused)"
  by (simp add: ruleIsEmpty_def list_all_iff)

section \<open>Reading what was written\<close>

text \<open>A rule as \<open>readFromSettings\<close> leaves it.\<close>

definition asRead :: "rule_env \<Rightarrow> rules \<Rightarrow> bool" where
  "asRead R r \<longleftrightarrow>
     lower R (r_clientmachine r) = r_clientmachine r \<and>
     (\<forall>k. isForce k \<longrightarrow> convertForceRule (r_policy r k) = r_policy r k) \<and>
     (r_policy r RSize \<noteq> Unused \<longrightarrow> r_policy r RSize = Remember \<or> (1 \<le> vWidth (r_value r RSize) \<and> 1 \<le> vHeight (r_value r RSize))) \<and>
     (0 \<le> vWidth (r_value r RMinSize) \<and> 0 \<le> vHeight (r_value r RMinSize)) \<and>
     (1 \<le> vWidth (r_value r RMaxSize) \<and> 1 \<le> vHeight (r_value r RMaxSize)) \<and>
     (r_policy r RType \<noteq> Unused \<longrightarrow> vInt (r_value r RType) \<noteq> netUnknown) \<and>
     (r_policy r RDecoColor \<noteq> Unused \<longrightarrow> (\<exists>c. r_value r RDecoColor = VString c \<and> c \<noteq> [] \<and>
        getDecoColor R (colorToString c) = c)) \<and>
     r_policy r RMinimize = Unused"

lemma convertForceRule_idem [simp]: "convertForceRule (convertForceRule v) = convertForceRule v" "convertForceRule 0 = 0"
  by (simp_all add: convertForceRule_def)

lemma readPolicy_written:
  assumes "asRead R r"
  shows "r_policy (readFromSettings R l (writeRule R r defaultEntry)) k = r_policy r k"
proof -
  note a = assms[unfolded asRead_def]
  let ?w = "writeRule R r defaultEntry"
  have p: "r_policy (readFromSettings R l ?w) k = readPolicy R (r_value ?w) (r_policy r) k"
    by (simp add: readFromSettings_def writeRule_def)
  have v: "r_value ?w k = (if r_policy r k = Unused then r_value defaultEntry k
      else if k = RDecoColor then VString (colorToString (vString (r_value r k))) else r_value r k)"
    by (simp add: writeRule_def)
  consider "k = RSize" | "k = RType" | "k = RDecoColor" | "k = RMinimize"
    | (plain) "k \<notin> {RSize, RType, RDecoColor, RMinimize}" by blast
  then show ?thesis
  proof cases
    case plain
    then have "readPolicy R (r_value ?w) (r_policy r) k = (if isForce k then convertForceRule (r_policy r k) else r_policy r k)"
      by (cases k) (simp_all add: readPolicy_def)
    then show ?thesis using a p by simp
  next
    assume k: "k = RSize"
    have "r_policy r RSize = Unused \<or> r_policy r RSize = Remember \<or> \<not> (vWidth (r_value ?w k) < 1 \<or> vHeight (r_value ?w k) < 1)"
      using a v k by auto
    then show ?thesis using p by (auto simp: readPolicy_def k)
  next
    assume k: "k = RType"
    have "convertForceRule (r_policy r RType) = r_policy r RType" using a by (simp add: isForce_def forceKeys_def)
    moreover have "r_policy r RType = Unused \<or> vInt (r_value ?w k) \<noteq> netUnknown" using a v k by auto
    ultimately show ?thesis using p by (auto simp: readPolicy_def k)
  next
    assume k: "k = RDecoColor"
    have "convertForceRule (r_policy r RDecoColor) = r_policy r RDecoColor" using a by (simp add: isForce_def forceKeys_def)
    moreover have "r_policy r RDecoColor = Unused \<or> getDecoColor R (vString (r_value ?w k)) \<noteq> []" using a v k by auto
    ultimately show ?thesis using p by (auto simp: readPolicy_def k)
  next
    assume k: "k = RMinimize"
    then show ?thesis unfolding p using a by (simp add: readPolicy_def)
  qed
qed

lemma readValue_written:
  assumes "asRead R r" "r_policy r k \<noteq> Unused"
  shows "r_value (readFromSettings R l (writeRule R r defaultEntry)) k = r_value r k"
proof -
  note a = assms(1)[unfolded asRead_def]
  let ?w = "writeRule R r defaultEntry"
  have p: "r_value (readFromSettings R l ?w) k = readValue R (r_value ?w) k"
    by (simp add: readFromSettings_def)
  have v: "r_value ?w k = (if k = RDecoColor then VString (colorToString (vString (r_value r k))) else r_value r k)"
    using assms(2) by (simp add: writeRule_def)
  consider "k = RMinSize" | "k = RMaxSize" | "k = RDecoColor" | "k = RMinimize"
    | (plain) "k \<notin> {RMinSize, RMaxSize, RDecoColor, RMinimize}" by blast
  then show ?thesis
  proof cases
    case plain
    then have "readValue R (r_value ?w) k = r_value ?w k" by (cases k) (simp_all add: readValue_def)
    then show ?thesis using plain p v by simp
  qed (use a p v assms(2) in \<open>auto simp: readValue_def\<close>)
qed

lemma readMatch_written:
  assumes "asRead R r" "lower R [] = []"
  shows "ruleMatches R (readFromSettings R l (writeRule R r defaultEntry)) c = ruleMatches R r c"
proof -
  let ?r = "readFromSettings R l (writeRule R r defaultEntry)"
  have m: "lower R (r_clientmachine r) = r_clientmachine r" using assms(1) by (simp add: asRead_def)
  have "r_wmclass ?r = r_wmclass r" "r_wmclassmatch ?r = r_wmclassmatch r" "r_wmclasscomplete ?r = r_wmclasscomplete r"
    "r_windowrole ?r = r_windowrole r" "r_windowrolematch ?r = r_windowrolematch r" "r_title ?r = r_title r"
    "r_titlematch ?r = r_titlematch r" "r_types ?r = r_types r" "r_clientmachinematch ?r = r_clientmachinematch r"
    by (simp_all add: readFromSettings_def writeRule_def defaultEntry_def)
  moreover have "r_clientmachine ?r = r_clientmachine r"
    using m assms(2) by (cases "r_clientmachine r") (simp_all add: readFromSettings_def writeRule_def defaultEntry_def)
  ultimately show ?thesis
    by (simp add: ruleMatches_def matchType_def matchWMClass_def matchRole_def matchTitle_def matchClientMachine_def)
qed

end
