(* ===== verification/Rule_Ownership.thy ===== *)
theory Rule_Ownership
  imports Rule_Facts
begin

text \<open>
  Who owns which rule object: the invariant \<open>bookInv\<close> says that no pointer of the book or of a window
  leads to a deleted rule and that a temporary rule has one owner. Every operation keeps it - \<open>discardUsed\<close>
  only when no other window holds a rule that it deletes.
\<close>

section \<open>The invariant\<close>

definition bookInv :: "rulebook \<Rightarrow> bool" where
  "bookInv b \<longleftrightarrow> distinct (bookRules b) \<and> (\<forall>w. distinct (windowRules b w)) \<and>
     (\<forall>i. ruleHeap b i \<noteq> None \<longrightarrow> i < nextRule b) \<and>
     (\<forall>i r. ruleHeap b i = Some r \<longrightarrow> temporary_state r \<in> {0, 1, 2}) \<and>
     (\<forall>i \<in> set (bookRules b). ruleHeap b i \<noteq> None) \<and>
     (\<forall>w. \<forall>i \<in> set (windowRules b w). ruleHeap b i \<noteq> None) \<and>
     (\<forall>i r. ruleHeap b i = Some r \<longrightarrow> isTemporary r \<longrightarrow>
        (\<forall>w. i \<in> set (windowRules b w) \<longrightarrow> i \<notin> set (bookRules b) \<and> (\<forall>w'. i \<in> set (windowRules b w') \<longrightarrow> w' = w)))"

lemma bookInvD:
  assumes "bookInv b"
  shows "distinct (bookRules b)" "distinct (windowRules b w)"
    "ruleHeap b i \<noteq> None \<Longrightarrow> i < nextRule b"
    "ruleHeap b i = Some r \<Longrightarrow> temporary_state r \<in> {0, 1, 2}"
    "i \<in> set (bookRules b) \<Longrightarrow> \<exists>r. ruleHeap b i = Some r"
    "i \<in> set (windowRules b w) \<Longrightarrow> \<exists>r. ruleHeap b i = Some r"
    "ruleHeap b i = Some r \<Longrightarrow> isTemporary r \<Longrightarrow> i \<in> set (windowRules b w) \<Longrightarrow> i \<notin> set (bookRules b)"
    "ruleHeap b i = Some r \<Longrightarrow> isTemporary r \<Longrightarrow> i \<in> set (windowRules b w) \<Longrightarrow> i \<in> set (windowRules b w') \<Longrightarrow> w' = w"
  using assms unfolding bookInv_def by blast+

lemma derefAll_Some: "\<forall>i \<in> set is. ruleHeap b i \<noteq> None \<Longrightarrow> \<exists>rs. derefAll b is = Some rs"
  by (cases "derefAll b is") (auto simp: derefAll_def those_None_iff)

text \<open>Changes of the state that leave the rules' identity and life time alone.\<close>

definition sameOwners :: "rulebook \<Rightarrow> rulebook \<Rightarrow> bool" where
  "sameOwners b c \<longleftrightarrow> bookRules c = bookRules b \<and> windowRules c = windowRules b \<and> nextRule c = nextRule b \<and>
     cleanupsDue c = cleanupsDue b \<and> (\<forall>i. map_option temporary_state (ruleHeap c i) = map_option temporary_state (ruleHeap b i))"

lemma sameOwners_refl [simp]: "sameOwners b b"
  by (simp add: sameOwners_def)

lemma sameOwners_trans: "sameOwners a b \<Longrightarrow> sameOwners b c \<Longrightarrow> sameOwners a c"
  by (simp add: sameOwners_def)

lemma sameOwners_live: "sameOwners b c \<Longrightarrow> ruleHeap c i = None \<longleftrightarrow> ruleHeap b i = None"
  by (simp add: sameOwners_def) (metis option.map_disc_iff)

lemma sameOwners_state: "sameOwners b c \<Longrightarrow> ruleHeap c i = Some r \<Longrightarrow> \<exists>s. ruleHeap b i = Some s \<and> temporary_state s = temporary_state r"
  by (simp add: sameOwners_def) (metis map_option_eq_Some)

lemma sameOwners_inv:
  assumes "bookInv b" "sameOwners b c"
  shows "bookInv c"
proof -
  have e: "bookRules c = bookRules b" "windowRules c = windowRules b" "nextRule c = nextRule b"
    using assms(2) by (simp_all add: sameOwners_def)
  note live = sameOwners_live[OF assms(2)]
  have "temporary_state r \<in> {0, 1, 2}" if "ruleHeap c i = Some r" for i r
    using sameOwners_state[OF assms(2) that] bookInvD(4)[OF assms(1)] by metis
  moreover have "i \<notin> set (bookRules b) \<and> (\<forall>w'. i \<in> set (windowRules b w') \<longrightarrow> w' = w)"
    if h: "ruleHeap c i = Some r" and t: "isTemporary r" and m: "i \<in> set (windowRules b w)" for i r w
  proof -
    obtain s where s: "ruleHeap b i = Some s" "isTemporary s"
      using sameOwners_state[OF assms(2) h] t by (auto simp: isTemporary_def)
    show ?thesis using bookInvD(7,8)[OF assms(1) s m] by blast
  qed
  ultimately show ?thesis using assms(1) unfolding bookInv_def e live by blast
qed

section \<open>Updating and looking up\<close>

lemma updateRules_spec:
  "\<forall>i \<in> set is. ruleHeap b i \<noteq> None \<Longrightarrow> \<exists>u c. updateRules subj sel is b = Some (u, c) \<and> sameOwners b c"
proof (induction "is" arbitrary: b)
  case (Cons i "is")
  obtain r where r: "ruleHeap b i = Some r" using Cons.prems by auto
  let ?r = "snd (updateRule subj sel r)"
  let ?b = "b\<lparr>ruleHeap := (ruleHeap b)(i \<mapsto> ?r)\<rparr>"
  have same: "sameOwners b ?b" using r by (simp add: sameOwners_def updateRule_spec)
  have "\<forall>j \<in> set is. ruleHeap ?b j \<noteq> None" using Cons.prems by simp
  from Cons.IH[OF this] obtain u c where "updateRules subj sel is ?b = Some (u, c)" "sameOwners ?b c" by blast
  then have "updateRules subj sel (i # is) b = Some (fst (updateRule subj sel r) \<or> u, c)" "sameOwners b c"
    using r sameOwners_trans[OF same] by (simp_all add: split_beta)
  then show ?case by blast
qed auto

lemma sameOwners_flags:
  "sameOwners b c \<Longrightarrow> sameOwners b (c\<lparr>storageRequested := x\<rparr>)" "sameOwners b c \<Longrightarrow> sameOwners b (c\<lparr>updatesDisabled := x\<rparr>)"
  "sameOwners b c \<Longrightarrow> sameOwners b (c\<lparr>ruleEntries := es\<rparr>)"
  by (simp_all add: sameOwners_def)

lemma updateWindowRules_spec:
  assumes "bookInv b"
  shows "\<exists>c. updateWindowRules subj w sel b = Some c \<and> sameOwners b c"
proof -
  obtain u c where "updateRules subj sel (windowRules b w) b = Some (u, c)" "sameOwners b c"
    using updateRules_spec[of "windowRules b w" b subj sel] bookInvD(6)[OF assms] by fastforce
  then show ?thesis by (auto simp: updateWindowRules_def sameOwners_flags)
qed

lemma updateAllWindows_spec: "bookInv b \<Longrightarrow> \<exists>c. updateAllWindows subj ws b = Some c \<and> sameOwners b c"
proof (induction ws arbitrary: b)
  case (Cons w ws)
  obtain c where c: "updateWindowRules (subj w) w (\<lambda>_. True) b = Some c" "sameOwners b c"
    using updateWindowRules_spec[OF Cons.prems] by blast
  with Cons.IH[OF sameOwners_inv[OF Cons.prems c(2)]] show ?case using sameOwners_trans by fastforce
qed simp

lemma setUpdatesDisabled_spec:
  assumes "bookInv b"
  shows "\<exists>c. setUpdatesDisabled subj ws d b = Some c \<and> sameOwners b c"
proof -
  let ?b = "b\<lparr>updatesDisabled := d\<rparr>"
  have s: "sameOwners b ?b" by (rule sameOwners_flags(2)) simp
  obtain c where "updateAllWindows subj ws ?b = Some c" "sameOwners ?b c"
    using updateAllWindows_spec[OF sameOwners_inv[OF assms s]] by blast
  then show ?thesis using s sameOwners_trans[OF s] by (cases d) (simp_all add: setUpdatesDisabled_def)
qed

lemma findRules_spec:
  "\<forall>i \<in> set is. ruleHeap b i \<noteq> None \<Longrightarrow> findRules R b c ign is =
    Some (filter (\<lambda>i. ruleMatches R (the (ruleHeap b i)) c \<and> \<not> (ign \<and> isTemporary (the (ruleHeap b i)))) is,
          filter (\<lambda>i. \<not> (ruleMatches R (the (ruleHeap b i)) c \<and> \<not> ign \<and> isTemporary (the (ruleHeap b i)))) is)"
  by (induction "is") auto

lemma setup_inv:
  assumes "bookInv b"
  shows "\<exists>c'. setupWindowRules R c w ign b = Some c' \<and> bookInv c'"
proof -
  let ?P = "\<lambda>i. ruleMatches R (the (ruleHeap b i)) c \<and> \<not> (ign \<and> isTemporary (the (ruleHeap b i)))"
  let ?Q = "\<lambda>i. \<not> (ruleMatches R (the (ruleHeap b i)) c \<and> \<not> ign \<and> isTemporary (the (ruleHeap b i)))"
  let ?c = "b\<lparr>bookRules := filter ?Q (bookRules b), windowRules := (windowRules b)(w := filter ?P (bookRules b))\<rparr>"
  have "\<forall>i \<in> set (bookRules b). ruleHeap b i \<noteq> None" using bookInvD(5)[OF assms] by fastforce
  then have run: "setupWindowRules R c w ign b = Some ?c" by (simp add: setupWindowRules_def findRules_spec)
  have own: "i \<notin> set (bookRules ?c) \<and> (\<forall>w'. i \<in> set (windowRules ?c w') \<longrightarrow> w' = v)"
    if i: "ruleHeap b i = Some r" "isTemporary r" "i \<in> set (windowRules ?c v)" for i r v
  proof (cases "v = w")
    case True
    then have m: "i \<in> set (bookRules b)" "?P i" using i(3) by simp_all
    then have "i \<notin> set (windowRules b w')" for w' using bookInvD(7)[OF assms i(1,2)] by blast
    then show ?thesis using m i(1,2) True by simp
  next
    case False
    then have m: "i \<in> set (windowRules b v)" using i(3) by simp
    have nb: "i \<notin> set (bookRules b)" by (rule bookInvD(7)[OF assms i(1,2) m])
    have "w' = v" if h: "i \<in> set (windowRules ?c w')" for w'
    proof (cases "w' = w")
      case True
      then show ?thesis using h nb by simp
    next
      case False
      then show ?thesis using h bookInvD(8)[OF assms i(1,2) m] by simp
    qed
    then show ?thesis using nb by simp
  qed
  have "bookInv ?c" unfolding bookInv_def
  proof (intro conjI allI impI)
    fix v show "distinct (windowRules ?c v)" using bookInvD(1,2)[OF assms] by simp
  next
    fix i r v assume "ruleHeap ?c i = Some r" "isTemporary r" "i \<in> set (windowRules ?c v)"
    from own[OF _ this(2,3)] this(1) show "i \<notin> set (bookRules ?c)" by simp
  next
    fix i r v v' assume h: "ruleHeap ?c i = Some r" "isTemporary r" "i \<in> set (windowRules ?c v)" "i \<in> set (windowRules ?c v')"
    from own[OF _ h(2,3)] h(1,4) show "v' = v" by simp
  next
    show "\<forall>i \<in> set (bookRules ?c). ruleHeap ?c i \<noteq> None" using bookInvD(5)[OF assms] by fastforce
  next
    fix v
    show "\<forall>i \<in> set (windowRules ?c v). ruleHeap ?c i \<noteq> None"
    proof
      fix i assume "i \<in> set (windowRules ?c v)"
      then have "i \<in> set (bookRules b) \<or> i \<in> set (windowRules b v)" by (cases "v = w") simp_all
      then show "ruleHeap ?c i \<noteq> None" using bookInvD(5,6)[OF assms, of i] by auto
    qed
  qed (use bookInvD(1,3,4)[OF assms] in simp_all)
  then show ?thesis using run by blast
qed

section \<open>Temporary rules\<close>

lemma discardTemporaryOf_spec:
  "distinct is \<Longrightarrow> \<forall>i \<in> set is. ruleHeap b i \<noteq> None \<Longrightarrow> (\<And>i r. ruleHeap b i = Some r \<Longrightarrow> temporary_state r \<in> {0, 1, 2}) \<Longrightarrow>
   discardTemporaryOf is b = Some (filter (\<lambda>i. \<not> isTemporary (the (ruleHeap b i))) is,
     b\<lparr>ruleHeap := (\<lambda>i. if i \<in> set is \<and> isTemporary (the (ruleHeap b i)) then None else ruleHeap b i)\<rparr>)"
proof (induction "is" arbitrary: b)
  case (Cons i "is")
  obtain r where r: "ruleHeap b i = Some r" using Cons.prems(2) by auto
  have st: "temporary_state r \<in> {0, 1, 2}" using Cons.prems(3) r by blast
  have d: "discardTemporaryRule True r = (r, isTemporary r)"
    using st by (auto simp: discardTemporaryRule_def isTemporary_def)
  let ?b = "b\<lparr>ruleHeap := (ruleHeap b)(i := if isTemporary r then None else Some r)\<rparr>"
  have ih: "discardTemporaryOf is ?b = Some (filter (\<lambda>i. \<not> isTemporary (the (ruleHeap ?b i))) is,
     ?b\<lparr>ruleHeap := (\<lambda>i. if i \<in> set is \<and> isTemporary (the (ruleHeap ?b i)) then None else ruleHeap ?b i)\<rparr>)"
  proof (rule Cons.IH)
    show "distinct is" "\<forall>j \<in> set is. ruleHeap ?b j \<noteq> None" using Cons.prems by auto
    show "temporary_state s \<in> {0, 1, 2}" if "ruleHeap ?b j = Some s" for j s
      using that Cons.prems(3)[of j] st by (auto split: if_splits)
  qed
  have notin: "i \<notin> set is" using Cons.prems(1) by simp
  then have f: "filter (\<lambda>j. \<not> isTemporary (the (ruleHeap ?b j))) is = filter (\<lambda>j. \<not> isTemporary (the (ruleHeap b j))) is"
    by (intro filter_cong) auto
  have h: "(\<lambda>j. if j \<in> set is \<and> isTemporary (the (ruleHeap ?b j)) then None else ruleHeap ?b j) =
      (\<lambda>j. if j \<in> set (i # is) \<and> isTemporary (the (ruleHeap b j)) then None else ruleHeap b j)"
    using notin r by (intro ext) auto
  show ?case using r ih unfolding f h by (simp add: d)
qed simp

lemma discardTemporary_inv:
  assumes "bookInv b"
  shows "\<exists>c. discardTemporaryRules w b = Some c \<and> bookInv c"
proof -
  let ?tmp = "\<lambda>i. isTemporary (the (ruleHeap b i))"
  let ?is = "windowRules b w"
  let ?c = "b\<lparr>ruleHeap := (\<lambda>i. if i \<in> set ?is \<and> ?tmp i then None else ruleHeap b i),
              windowRules := (windowRules b)(w := filter (\<lambda>i. \<not> ?tmp i) ?is)\<rparr>"
  have live: "\<forall>i \<in> set ?is. ruleHeap b i \<noteq> None" using bookInvD(6)[OF assms] by fastforce
  have run: "discardTemporaryRules w b = Some ?c"
    using discardTemporaryOf_spec[OF bookInvD(2)[OF assms] live bookInvD(4)[OF assms]]
    by (simp add: discardTemporaryRules_def)
  have gone: "i \<notin> set (bookRules b)" "v \<noteq> w \<Longrightarrow> i \<notin> set (windowRules b v)" if i: "i \<in> set ?is" "?tmp i" for i v
  proof -
    obtain r where r: "ruleHeap b i = Some r" using bookInvD(6)[OF assms i(1)] by blast
    then have "isTemporary r" using i(2) by simp
    from bookInvD(7,8)[OF assms r this i(1)] show "i \<notin> set (bookRules b)" "v \<noteq> w \<Longrightarrow> i \<notin> set (windowRules b v)" by blast+
  qed
  have "bookInv ?c" unfolding bookInv_def
  proof (intro conjI allI impI ballI)
    fix v i assume "i \<in> set (windowRules ?c v)"
    then show "ruleHeap ?c i \<noteq> None" using gone(2) bookInvD(6)[OF assms] by (cases "v = w") fastforce+
  next
    fix i r v assume "ruleHeap ?c i = Some r" "isTemporary r" "i \<in> set (windowRules ?c v)"
    then have h: "ruleHeap b i = Some r" "isTemporary r" "i \<in> set (windowRules b v)" by (auto split: if_splits)
    show "i \<notin> set (bookRules ?c)" using bookInvD(7)[OF assms h] by simp
    fix v' assume "i \<in> set (windowRules ?c v')"
    then have "i \<in> set (windowRules b v')" by (auto split: if_splits)
    then show "v' = v" using bookInvD(8)[OF assms h] by blast
  qed (use assms gone(1) bookInvD[OF assms] in \<open>auto split: if_splits\<close>)
  then show ?thesis using run by blast
qed

text \<open>What one round of \<open>cleanupTemporaryRules\<close> makes of a rule; \<open>None\<close> is deleted.\<close>

definition aged :: "rules \<Rightarrow> rules option" where
  "aged r = (if temporary_state r = 0 then Some r else if temporary_state r = 1 then None
     else Some (r\<lparr>temporary_state := temporary_state r - 1\<rparr>))"

lemma discardTemporaryRule_aged:
  "(if snd (discardTemporaryRule False r) then None else Some (fst (discardTemporaryRule False r))) = aged r"
  by (simp add: discardTemporaryRule_def aged_def Let_def)

lemma cleanupLoop_spec:
  "distinct is \<Longrightarrow> \<forall>i \<in> set is. ruleHeap b i \<noteq> None \<Longrightarrow> cleanupLoop is b =
     Some (filter (\<lambda>i. aged (the (ruleHeap b i)) \<noteq> None) is,
       (\<exists>i \<in> set is. \<exists>r. aged (the (ruleHeap b i)) = Some r \<and> isTemporary r),
       b\<lparr>ruleHeap := (\<lambda>i. if i \<in> set is then aged (the (ruleHeap b i)) else ruleHeap b i)\<rparr>)"
proof (induction "is" arbitrary: b)
  case (Cons i "is")
  obtain r where r: "ruleHeap b i = Some r" using Cons.prems(2) by auto
  let ?b = "b\<lparr>ruleHeap := (ruleHeap b)(i := aged r)\<rparr>"
  have notin: "i \<notin> set is" using Cons.prems(1) by simp
  then have same: "ruleHeap ?b j = ruleHeap b j" if "j \<in> set is" for j using that by auto
  have ih: "cleanupLoop is ?b = Some (filter (\<lambda>i. aged (the (ruleHeap ?b i)) \<noteq> None) is,
       (\<exists>i \<in> set is. \<exists>r. aged (the (ruleHeap ?b i)) = Some r \<and> isTemporary r),
       ?b\<lparr>ruleHeap := (\<lambda>i. if i \<in> set is then aged (the (ruleHeap ?b i)) else ruleHeap ?b i)\<rparr>)"
    by (rule Cons.IH) (use Cons.prems same in auto)
  have f: "filter (\<lambda>j. aged (the (ruleHeap ?b j)) \<noteq> None) is = filter (\<lambda>j. aged (the (ruleHeap b j)) \<noteq> None) is"
    by (rule filter_cong[OF refl]) (use notin in auto)
  have e: "(\<exists>j \<in> set is. \<exists>r. aged (the (ruleHeap ?b j)) = Some r \<and> isTemporary r) =
      (\<exists>j \<in> set is. \<exists>r. aged (the (ruleHeap b j)) = Some r \<and> isTemporary r)"
    by (rule bex_cong[OF refl]) (use notin in auto)
  have h: "(\<lambda>j. if j \<in> set is then aged (the (ruleHeap ?b j)) else ruleHeap ?b j) =
      (\<lambda>j. if j \<in> set (i # is) then aged (the (ruleHeap b j)) else ruleHeap b j)"
    using notin r by (intro ext) auto
  obtain r' d where d: "discardTemporaryRule False r = (r', d)" by fastforce
  have a: "aged r = (if d then None else Some r')" using discardTemporaryRule_aged[of r] unfolding d by auto
  have "cleanupLoop (i # is) b = do {
      (kept, has, c) \<leftarrow> cleanupLoop is ?b;
      Some (if d then (kept, has, c) else (i # kept, has \<or> isTemporary r', c)) }"
    using r d a by simp
  then show ?case unfolding ih f e h using r a by auto
qed simp

lemma cleanup_spec:
  assumes "bookInv b"
  shows "\<exists>c. cleanupTemporaryRules b = Some c \<and> bookInv c \<and>
    bookRules c = filter (\<lambda>i. aged (the (ruleHeap b i)) \<noteq> None) (bookRules b) \<and> windowRules c = windowRules b \<and>
    (\<forall>i. ruleHeap c i = (if i \<in> set (bookRules b) then aged (the (ruleHeap b i)) else ruleHeap b i)) \<and>
    cleanupsDue c = (cleanupsDue b - 1) + (if \<exists>i \<in> set (bookRules c). isTemporary (the (ruleHeap c i)) then 1 else 0)"
proof -
  let ?h = "\<lambda>i. if i \<in> set (bookRules b) then aged (the (ruleHeap b i)) else ruleHeap b i"
  let ?k = "filter (\<lambda>i. aged (the (ruleHeap b i)) \<noteq> None) (bookRules b)"
  let ?has = "\<exists>i \<in> set (bookRules b). \<exists>r. aged (the (ruleHeap b i)) = Some r \<and> isTemporary r"
  define c where "c = b\<lparr>ruleHeap := ?h, bookRules := ?k, cleanupsDue := (cleanupsDue b - 1) + (if ?has then 1 else 0)\<rparr>"
  have "\<forall>i \<in> set (bookRules b). ruleHeap b i \<noteq> None" using bookInvD(5)[OF assms] by fastforce
  then have run: "cleanupTemporaryRules b = Some c"
    using cleanupLoop_spec[of "bookRules b" "b\<lparr>cleanupsDue := cleanupsDue b - 1\<rparr>"] bookInvD(1)[OF assms]
    by (auto simp: cleanupTemporaryRules_def c_def Let_def intro!: rulebook.equality)
  have old: "\<exists>s. ruleHeap b i = Some s \<and> temporary_state r \<in> {0, 1, 2} \<and> (isTemporary r \<longrightarrow> isTemporary s)"
    if h: "ruleHeap c i = Some r" for i r
  proof (cases "i \<in> set (bookRules b)")
    case True
    then obtain s where s: "ruleHeap b i = Some s" using bookInvD(5)[OF assms] by blast
    then show ?thesis using h True bookInvD(4)[OF assms s]
      by (auto simp: c_def aged_def isTemporary_def split: if_splits)
  next
    case False
    then show ?thesis using h bookInvD(4)[OF assms, of i r] by (simp add: c_def)
  qed
  have gone: "i \<notin> set (windowRules b w)" if i: "i \<in> set (bookRules b)" "aged (the (ruleHeap b i)) = None" for i w
  proof
    assume w: "i \<in> set (windowRules b w)"
    obtain s where s: "ruleHeap b i = Some s" using bookInvD(5)[OF assms i(1)] by blast
    then have "isTemporary s" using i(2) by (auto simp: aged_def isTemporary_def split: if_splits)
    then show False using bookInvD(7)[OF assms s _ w] i(1) by blast
  qed
  have inv: "bookInv c" unfolding bookInv_def
  proof (intro conjI allI impI)
    fix i r assume "ruleHeap c i = Some r"
    then show "temporary_state r \<in> {0, 1, 2}" using old by blast
  next
    fix i assume "ruleHeap c i \<noteq> None"
    then obtain r where "ruleHeap c i = Some r" by blast
    then show "i < nextRule c" using old bookInvD(3)[OF assms, of i] by (fastforce simp: c_def)
  next
    fix w show "\<forall>i \<in> set (windowRules c w). ruleHeap c i \<noteq> None"
      using gone bookInvD(6)[OF assms] by (fastforce simp: c_def)
  next
    fix i r w assume h: "ruleHeap c i = Some r" "isTemporary r" "i \<in> set (windowRules c w)"
    obtain s where s: "ruleHeap b i = Some s" "isTemporary s" using old[OF h(1)] h(2) by blast
    have w: "i \<in> set (windowRules b w)" using h(3) by (simp add: c_def)
    show "i \<notin> set (bookRules c)" using bookInvD(7)[OF assms s w] by (simp add: c_def)
    fix w' assume "i \<in> set (windowRules c w')"
    then show "w' = w" using bookInvD(8)[OF assms s w] by (simp add: c_def)
  qed (use bookInvD(1,2)[OF assms] in \<open>auto simp: c_def\<close>)
  have "?has \<longleftrightarrow> (\<exists>i \<in> set (bookRules c). isTemporary (the (ruleHeap c i)))"
    by (auto simp: c_def) blast
  then show ?thesis using run inv by (intro exI[of _ c]) (simp add: c_def)
qed

section \<open>The remaining operations\<close>

lemma deleteAll_inv: "bookInv b \<Longrightarrow> bookInv (deleteAll b)"
  by (auto simp: bookInv_def deleteAll_def)

lemma bookInv_flags [simp]:
  "bookInv (b\<lparr>ruleEntries := es\<rparr>) = bookInv b" "bookInv (b\<lparr>cleanupsDue := n\<rparr>) = bookInv b"
  "bookInv (b\<lparr>storageRequested := x\<rparr>) = bookInv b"
  by (simp_all add: bookInv_def)

lemma newRule_fresh:
  assumes "bookInv b"
  shows "ruleHeap b (nextRule b) = None" "nextRule b \<notin> set (bookRules b)" "nextRule b \<notin> set (windowRules b w)"
proof -
  show none: "ruleHeap b (nextRule b) = None" using bookInvD(3)[OF assms, of "nextRule b"] by (cases "ruleHeap b (nextRule b)") auto
  show "nextRule b \<notin> set (bookRules b)" "nextRule b \<notin> set (windowRules b w)"
    using none bookInvD(5,6)[OF assms, of "nextRule b"] by auto
qed

lemma newRule_inv:
  assumes "bookInv b" "temporary_state r \<in> {0, 1, 2}" "set is = insert (nextRule b) (set (bookRules b))" "distinct is"
  shows "bookInv (b\<lparr>ruleHeap := (ruleHeap b)(nextRule b \<mapsto> r), nextRule := Suc (nextRule b), bookRules := is\<rparr>)"
  (is "bookInv ?c")
proof -
  note fresh = newRule_fresh[OF assms(1)]
  show ?thesis unfolding bookInv_def
  proof (intro conjI allI impI)
    fix i assume "ruleHeap ?c i \<noteq> None"
    then show "i < nextRule ?c" using bookInvD(3)[OF assms(1), of i] by (cases "i = nextRule b") auto
  next
    fix i s assume "ruleHeap ?c i = Some s"
    then show "temporary_state s \<in> {0, 1, 2}"
      using assms(2) bookInvD(4)[OF assms(1), of i s] by (cases "i = nextRule b") simp_all
  next
    show "\<forall>i \<in> set (bookRules ?c). ruleHeap ?c i \<noteq> None" using assms(3) bookInvD(5)[OF assms(1)] by auto
  next
    fix w show "\<forall>i \<in> set (windowRules ?c w). ruleHeap ?c i \<noteq> None" using bookInvD(6)[OF assms(1)] by auto
  next
    fix i s w assume h: "ruleHeap ?c i = Some s" "isTemporary s" "i \<in> set (windowRules ?c w)"
    then have w: "i \<in> set (windowRules b w)" by simp
    then have ne: "i \<noteq> nextRule b" using fresh(3) by blast
    then have s: "ruleHeap b i = Some s" using h(1) by simp
    show "i \<notin> set (bookRules ?c)" using bookInvD(7)[OF assms(1) s h(2) w] ne assms(3) by simp
    fix w' assume "i \<in> set (windowRules ?c w')"
    then show "w' = w" using bookInvD(8)[OF assms(1) s h(2) w] by simp
  qed (use assms(4) bookInvD(2)[OF assms(1)] in simp_all)
qed

lemma addBookRule_inv: "bookInv b \<Longrightarrow> temporary_state r \<in> {0, 1, 2} \<Longrightarrow> bookInv (addBookRule r b)"
  using newRule_inv[of b r "bookRules b @ [nextRule b]"] newRule_fresh[of b] bookInvD(1)[of b]
  by (simp add: addBookRule_def newRule_def)

lemma loadRules_inv:
  assumes "bookInv b"
  shows "bookInv (loadRules R entries b)"
proof -
  have "bookInv c \<Longrightarrow> bookInv (fold (\<lambda>s. addBookRule ((f s)\<lparr>temporary_state := 0\<rparr>)) es c)" for c f and es :: "rules list"
    by (induction es arbitrary: c) (simp_all add: addBookRule_inv)
  then show ?thesis using deleteAll_inv[OF assms] by (simp add: loadRules_def)
qed

lemma saveRules_spec:
  assumes "bookInv b"
  shows "\<exists>c. saveRules R b = Some c \<and> sameOwners b c"
proof -
  let ?b = "b\<lparr>storageRequested := False\<rparr>"
  obtain rs where rs: "derefAll ?b (bookRules b) = Some rs"
    using derefAll_Some[of "bookRules b" ?b] bookInvD(5)[OF assms] by fastforce
  then show ?thesis
    by (cases "ruleEntries b") (simp_all add: saveRules_def sameOwners_flags)
qed

lemma temporaryMessage_inv:
  assumes "bookInv b"
  shows "\<exists>c. temporaryRulesMessage p b = Some c \<and> bookInv c"
proof -
  obtain rs where rs: "derefAll b (bookRules b) = Some rs"
    using derefAll_Some[of "bookRules b" b] bookInvD(5)[OF assms] by fastforce
  let ?r = "p\<lparr>temporary_state := 2, r_description := (if r_description p = [] then ''temporary'' else r_description p)\<rparr>"
  have "bookInv (b\<lparr>ruleHeap := (ruleHeap b)(nextRule b \<mapsto> ?r), nextRule := Suc (nextRule b), bookRules := nextRule b # bookRules b\<rparr>)"
    by (rule newRule_inv[OF assms]) (use newRule_fresh[OF assms] bookInvD(1)[OF assms] in simp_all)
  then show ?thesis using rs by (simp add: temporaryRulesMessage_def newRule_def Let_def)
qed

lemma finish_inv:
  assumes "bookInv b"
  shows "\<exists>c. finishWindowRules subj w b = Some c \<and> bookInv c"
proof -
  obtain c where c: "updateWindowRules subj w (\<lambda>_. True) b = Some c" "sameOwners b c"
    using updateWindowRules_spec[OF assms] by blast
  have inv: "bookInv c" by (rule sameOwners_inv[OF assms c(2)])
  have "bookInv (c\<lparr>windowRules := (windowRules c)(w := [])\<rparr>)" unfolding bookInv_def
  proof (intro conjI allI impI)
    fix i r v assume h: "ruleHeap (c\<lparr>windowRules := (windowRules c)(w := [])\<rparr>) i = Some r" "isTemporary r"
      "i \<in> set (windowRules (c\<lparr>windowRules := (windowRules c)(w := [])\<rparr>) v)"
    then have o: "ruleHeap c i = Some r" "i \<in> set (windowRules c v)" by (auto split: if_splits)
    show "i \<notin> set (bookRules (c\<lparr>windowRules := (windowRules c)(w := [])\<rparr>))"
      using bookInvD(7)[OF inv o(1) h(2) o(2)] by simp
    fix v' assume "i \<in> set (windowRules (c\<lparr>windowRules := (windowRules c)(w := [])\<rparr>) v')"
    then have "i \<in> set (windowRules c v')" by (auto split: if_splits)
    then show "v' = v" using bookInvD(8)[OF inv o(1) h(2) o(2)] by blast
  qed (use bookInvD[OF inv] in auto)
  then show ?thesis using c(1) by (simp add: finishWindowRules_def)
qed

end
