(* ===== verification/Rule_Lifecycle.thy ===== *)
theory Rule_Lifecycle
  imports Rule_Ownership
begin

text \<open>
  \<open>discardUsed\<close> and the reachable rule books: in each of them \<open>bookInv\<close> holds, and while the book has
  a temporary rule the timer that ages it is due.
\<close>

section \<open>Discarding used rules\<close>

definition left :: "bool \<Rightarrow> rules \<Rightarrow> rules option" where
  "left withdrawn r = (let r' = snd (discardUsedRule withdrawn r) in if ruleIsEmpty r' then None else Some r')"

lemma left_state: "left wd r = Some r' \<Longrightarrow> temporary_state r' = temporary_state r"
  by (auto simp: left_def discardUsedRule_spec Let_def split: if_splits)

text \<open>The rules of window \<open>w\<close> among \<open>is\<close> that are deleted.\<close>

definition deletes :: "wid \<Rightarrow> bool \<Rightarrow> rid list \<Rightarrow> rulebook \<Rightarrow> rid \<Rightarrow> bool" where
  "deletes w wd is b i \<longleftrightarrow> i \<in> set is \<and> i \<in> set (windowRules b w) \<and> left wd (the (ruleHeap b i)) = None"

definition afterDiscard :: "wid \<Rightarrow> bool \<Rightarrow> rid list \<Rightarrow> rulebook \<Rightarrow> rulebook" where
  "afterDiscard w wd is b = b\<lparr>
     ruleHeap := (\<lambda>i. if i \<in> set is \<and> i \<in> set (windowRules b w) then left wd (the (ruleHeap b i)) else ruleHeap b i),
     windowRules := (windowRules b)(w := filter (\<lambda>i. \<not> deletes w wd is b i) (windowRules b w))\<rparr>"

lemma afterDiscard_step:
  assumes "i \<in> set (windowRules b w)" "i \<notin> set is" "distinct (windowRules b w)" "ruleHeap b i = Some r"
    "c = b\<lparr>ruleHeap := (ruleHeap b)(i := left wd r),
           windowRules := (if left wd r = None then (windowRules b)(w := remove1 i (windowRules b w)) else windowRules b)\<rparr>"
  shows "afterDiscard w wd is c = afterDiscard w wd (i # is) b" "\<And>j. j \<in> set is \<Longrightarrow> deletes w wd is c j = deletes w wd (i # is) b j"
proof -
  have m: "j \<in> set (windowRules c w) \<longleftrightarrow> j \<in> set (windowRules b w)" if "j \<noteq> i" for j
    using that assms(3,5) by auto
  have h: "ruleHeap c j = ruleHeap b j" if "j \<noteq> i" for j using that assms(5) by simp
  have d: "deletes w wd is c j \<longleftrightarrow> deletes w wd (i # is) b j" if "j \<noteq> i" for j
    using that m h by (simp add: deletes_def)
  show "deletes w wd is c j = deletes w wd (i # is) b j" if j: "j \<in> set is" for j
    using d[of j] assms(2) j by (cases "j = i") simp_all
  have ni: "\<not> deletes w wd is c i" using assms(2) by (simp add: deletes_def)
  have di: "deletes w wd (i # is) b i \<longleftrightarrow> left wd r = None" using assms(1,4) by (simp add: deletes_def)
  have heap: "(\<lambda>j. if j \<in> set is \<and> j \<in> set (windowRules c w) then left wd (the (ruleHeap c j)) else ruleHeap c j) =
      (\<lambda>j. if j \<in> set (i # is) \<and> j \<in> set (windowRules b w) then left wd (the (ruleHeap b j)) else ruleHeap b j)"
  proof
    fix j
    show "(if j \<in> set is \<and> j \<in> set (windowRules c w) then left wd (the (ruleHeap c j)) else ruleHeap c j) =
      (if j \<in> set (i # is) \<and> j \<in> set (windowRules b w) then left wd (the (ruleHeap b j)) else ruleHeap b j)"
      using assms(1,2,4,5) m[of j] h[of j] by (cases "j = i") simp_all
  qed
  have wins: "filter (\<lambda>j. \<not> deletes w wd is c j) (windowRules c w) = filter (\<lambda>j. \<not> deletes w wd (i # is) b j) (windowRules b w)"
  proof (cases "left wd r = None")
    case True
    have "filter (\<lambda>j. \<not> deletes w wd is c j) (windowRules c w) =
        filter (\<lambda>j. \<not> deletes w wd is c j) (filter (\<lambda>j. j \<noteq> i) (windowRules b w))"
      using True assms(3,5) by (simp add: distinct_remove1_removeAll removeAll_filter_not_eq eq_commute)
    also have "\<dots> = filter (\<lambda>j. \<not> deletes w wd (i # is) b j) (windowRules b w)"
      unfolding filter_filter
    proof (rule filter_cong[OF refl])
      fix j
      show "(j \<noteq> i \<and> \<not> deletes w wd is c j) = (\<not> deletes w wd (i # is) b j)"
        using d[of j] di True by (cases "j = i") simp_all
    qed
    finally show ?thesis .
  next
    case False
    have "windowRules c w = windowRules b w" using False assms(5) by auto
    then show ?thesis using d di ni False by (intro filter_cong) metis+
  qed
  show "afterDiscard w wd is c = afterDiscard w wd (i # is) b"
    unfolding afterDiscard_def heap wins using assms(5) by (intro rulebook.equality) (auto simp: fun_eq_iff)
qed

lemma discardLoop_spec:
  "distinct is \<Longrightarrow> \<forall>i \<in> set (windowRules b w). ruleHeap b i \<noteq> None \<Longrightarrow> distinct (windowRules b w) \<Longrightarrow>
   \<exists>u. discardLoop w wd is b = Some (filter (\<lambda>i. \<not> deletes w wd is b i) is, u, afterDiscard w wd is b)"
proof (induction "is" arbitrary: b)
  case Nil
  then show ?case by (intro exI[of _ False]) (simp add: afterDiscard_def deletes_def)
next
  case (Cons i "is")
  have i: "i \<notin> set is" "distinct is" using Cons.prems(1) by simp_all
  show ?case
  proof (cases "i \<in> set (windowRules b w)")
    case False
    have d: "deletes w wd (i # is) b j = deletes w wd is b j" for j using False by (auto simp: deletes_def)
    have nd: "\<not> deletes w wd (i # is) b i" using False by (simp add: deletes_def)
    have a: "afterDiscard w wd (i # is) b = afterDiscard w wd is b"
      unfolding afterDiscard_def d using False by (intro rulebook.equality) (auto simp: fun_eq_iff)
    obtain u where "discardLoop w wd is b = Some (filter (\<lambda>i. \<not> deletes w wd is b i) is, u, afterDiscard w wd is b)"
      using Cons.IH[OF i(2) Cons.prems(2,3)] by blast
    then show ?thesis using False nd unfolding a d by simp
  next
    case True
    then obtain r where r: "ruleHeap b i = Some r" using Cons.prems(2) by auto
    define c where "c = b\<lparr>ruleHeap := (ruleHeap b)(i := left wd r),
        windowRules := (if left wd r = None then (windowRules b)(w := remove1 i (windowRules b w)) else windowRules b)\<rparr>"
    note step = afterDiscard_step[OF True i(1) Cons.prems(3) r c_def]
    have sub: "set (windowRules c w) \<subseteq> set (windowRules b w)" using set_remove1_subset[of i "windowRules b w"] by (simp add: c_def)
    have "\<forall>j \<in> set (windowRules c w). ruleHeap c j \<noteq> None" "distinct (windowRules c w)"
      using Cons.prems(2,3) sub by (auto simp: c_def)
    from Cons.IH[OF i(2) this] obtain u where u:
      "discardLoop w wd is c = Some (filter (\<lambda>i. \<not> deletes w wd is c i) is, u, afterDiscard w wd is c)" by blast
    have f: "filter (\<lambda>i. \<not> deletes w wd is c i) is = filter (\<lambda>j. \<not> deletes w wd (i # is) b j) is"
      by (rule filter_cong[OF refl]) (simp add: step(2))
    have di: "deletes w wd (i # is) b i \<longleftrightarrow> left wd r = None" using True r by (simp add: deletes_def)
    obtain ch r' where ch: "discardUsedRule wd r = (ch, r')" by fastforce
    have l: "left wd r = (if ruleIsEmpty r' then None else Some r')" by (simp add: left_def ch)
    have run: "discardLoop w wd (i # is) b = do {
        (kept, updated, d) \<leftarrow> discardLoop w wd is c;
        Some (if ruleIsEmpty r' then kept else i # kept, ch \<or> updated, d) }"
      using True r ch by (simp add: c_def l)
    show ?thesis unfolding run u f using di l by (simp add: step(1))
  qed
qed

lemma discardUsed_spec:
  assumes "bookInv b"
  shows "\<exists>c x. discardUsed w wd b = Some c \<and>
    c = (afterDiscard w wd (bookRules b) b)\<lparr>bookRules := filter (\<lambda>i. \<not> deletes w wd (bookRules b) b i) (bookRules b), storageRequested := x\<rparr>"
proof -
  have "\<forall>i \<in> set (windowRules b w). ruleHeap b i \<noteq> None" using bookInvD(6)[OF assms] by fastforce
  then obtain u where "discardLoop w wd (bookRules b) b =
      Some (filter (\<lambda>i. \<not> deletes w wd (bookRules b) b i) (bookRules b), u, afterDiscard w wd (bookRules b) b)"
    using discardLoop_spec[OF bookInvD(1)[OF assms] _ bookInvD(2)[OF assms]] by blast
  then show ?thesis
    by (intro exI[of _ "(afterDiscard w wd (bookRules b) b)\<lparr>bookRules := filter (\<lambda>i. \<not> deletes w wd (bookRules b) b i) (bookRules b),
          storageRequested := (u \<or> storageRequested b)\<rparr>"] exI[of _ "u \<or> storageRequested b"])
      (cases u; simp add: discardUsed_def afterDiscard_def Let_def)
qed

text \<open>No other window holds a rule that is deleted.\<close>

definition onlyOwner :: "wid \<Rightarrow> bool \<Rightarrow> rulebook \<Rightarrow> bool" where
  "onlyOwner w wd b \<longleftrightarrow> (\<forall>i v. deletes w wd (bookRules b) b i \<longrightarrow> v \<noteq> w \<longrightarrow> i \<notin> set (windowRules b v))"

lemma discardUsed_inv:
  assumes "bookInv b" "onlyOwner w wd b" "discardUsed w wd b = Some c"
  shows "bookInv c"
proof -
  let ?is = "bookRules b"
  obtain x where c: "c = (afterDiscard w wd ?is b)\<lparr>bookRules := filter (\<lambda>i. \<not> deletes w wd ?is b i) ?is, storageRequested := x\<rparr>"
    using discardUsed_spec[OF assms(1), of w wd] assms(3) by auto
  have heap: "ruleHeap c i = (if i \<in> set ?is \<and> i \<in> set (windowRules b w) then left wd (the (ruleHeap b i)) else ruleHeap b i)" for i
    by (simp add: c afterDiscard_def)
  have wins: "windowRules c v = (if v = w then filter (\<lambda>i. \<not> deletes w wd ?is b i) (windowRules b w) else windowRules b v)" for v
    by (simp add: c afterDiscard_def)
  have old: "\<exists>s. ruleHeap b i = Some s \<and> temporary_state s = temporary_state r" if h: "ruleHeap c i = Some r" for i r
    using h left_state[of wd "the (ruleHeap b i)" r] bookInvD(5)[OF assms(1), of i] by (auto simp: heap split: if_splits)
  have live: "ruleHeap c i \<noteq> None" if "ruleHeap b i \<noteq> None" "\<not> deletes w wd ?is b i" for i
    using that by (auto simp: heap deletes_def)
  have sub: "set (windowRules c v) \<subseteq> set (windowRules b v)" for v by (auto simp: wins)
  show ?thesis unfolding bookInv_def
  proof (intro conjI allI impI)
    fix i r assume "ruleHeap c i = Some r"
    then show "temporary_state r \<in> {0, 1, 2}" using old[of i r] bookInvD(4)[OF assms(1), of i] by metis
  next
    fix i assume "ruleHeap c i \<noteq> None"
    then obtain r where "ruleHeap c i = Some r" by blast
    then show "i < nextRule c" using old[of i r] bookInvD(3)[OF assms(1), of i] by (auto simp: c afterDiscard_def)
  next
    show "\<forall>i \<in> set (bookRules c). ruleHeap c i \<noteq> None"
    proof
      fix i assume "i \<in> set (bookRules c)"
      then have "i \<in> set ?is" "\<not> deletes w wd ?is b i" by (simp_all add: c)
      then show "ruleHeap c i \<noteq> None" using live bookInvD(5)[OF assms(1), of i] by simp
    qed
  next
    fix v
    show "\<forall>i \<in> set (windowRules c v). ruleHeap c i \<noteq> None"
    proof
      fix i assume i: "i \<in> set (windowRules c v)"
      then have "\<not> deletes w wd ?is b i" using assms(2) by (cases "v = w") (auto simp: wins onlyOwner_def)
      moreover have "i \<in> set (windowRules b v)" using i sub by blast
      ultimately show "ruleHeap c i \<noteq> None" using live bookInvD(6)[OF assms(1), of i v] by simp
    qed
  next
    fix i r v assume h: "ruleHeap c i = Some r" "isTemporary r" "i \<in> set (windowRules c v)"
    obtain s where s: "ruleHeap b i = Some s" "isTemporary s" using old[OF h(1)] h(2) by (auto simp: isTemporary_def)
    have v: "i \<in> set (windowRules b v)" using h(3) sub by blast
    show "i \<notin> set (bookRules c)" using bookInvD(7)[OF assms(1) s v] by (simp add: c)
    fix v' assume "i \<in> set (windowRules c v')"
    then have "i \<in> set (windowRules b v')" using sub by blast
    then show "v' = v" using bookInvD(8)[OF assms(1) s v] by blast
  next
    fix v show "distinct (windowRules c v)" using bookInvD(2)[OF assms(1)] by (simp add: wins)
  qed (use bookInvD(1)[OF assms(1)] in \<open>simp add: c\<close>)
qed

section \<open>The reachable rule books\<close>

text \<open>What the program does with the rule book. Windows are given their rules when they are managed or
  when the rules change, and their rules are updated, discarded and finished with; the configuration is
  loaded and saved, messages bring temporary rules and a timer that is due ages them. \<open>discardUsed\<close> is a step only
  when no other window holds a rule that it deletes.\<close>

inductive rb_step :: "rulebook \<Rightarrow> rulebook \<Rightarrow> bool" where
  rb_setup: "setupWindowRules R c w ign b = Some b' \<Longrightarrow> rb_step b b'"
| rb_update: "updateWindowRules c w sel b = Some b' \<Longrightarrow> rb_step b b'"
| rb_finish: "finishWindowRules c w b = Some b' \<Longrightarrow> rb_step b b'"
| rb_discardTemporary: "discardTemporaryRules w b = Some b' \<Longrightarrow> rb_step b b'"
| rb_load: "rb_step b (loadRules R entries b)"
| rb_save: "saveRules R b = Some b' \<Longrightarrow> rb_step b b'"
| rb_message: "temporaryRulesMessage parsed b = Some b' \<Longrightarrow> rb_step b b'"
| rb_cleanup: "0 < cleanupsDue b \<Longrightarrow> cleanupTemporaryRules b = Some b' \<Longrightarrow> rb_step b b'"
| rb_disable: "setUpdatesDisabled subj ws d b = Some b' \<Longrightarrow> rb_step b b'"
| rb_discardUsed: "onlyOwner w wd b \<Longrightarrow> discardUsed w wd b = Some b' \<Longrightarrow> rb_step b b'"

definition emptyBook :: rulebook where
  "emptyBook = \<lparr>ruleHeap = (\<lambda>_. None), nextRule = 0, bookRules = [], updatesDisabled = False, storageRequested = False,
     cleanupsDue = 0, ruleEntries = None, windowRules = (\<lambda>_. [])\<rparr>"

inductive rb_reachable :: "rulebook \<Rightarrow> bool" where
  rb_init: "rb_reachable emptyBook"
| rb_next: "rb_reachable b \<Longrightarrow> rb_step b b' \<Longrightarrow> rb_reachable b'"

lemma rb_step_inv:
  assumes "rb_step b b'" "bookInv b"
  shows "bookInv b'"
  using assms
proof (cases rule: rb_step.cases)
  case (rb_setup R c w ign) then show ?thesis using setup_inv[OF assms(2), of R c w ign] by simp
next
  case (rb_update c w sel) then show ?thesis using updateWindowRules_spec[OF assms(2), of c w sel] sameOwners_inv[OF assms(2)] by auto
next
  case (rb_finish c w) then show ?thesis using finish_inv[OF assms(2), of c w] by simp
next
  case (rb_discardTemporary w) then show ?thesis using discardTemporary_inv[OF assms(2), of w] by simp
next
  case (rb_load R entries) then show ?thesis using loadRules_inv[OF assms(2)] by simp
next
  case (rb_save R) then show ?thesis using saveRules_spec[OF assms(2), of R] sameOwners_inv[OF assms(2)] by auto
next
  case (rb_message p) then show ?thesis using temporaryMessage_inv[OF assms(2), of p] by simp
next
  case rb_cleanup then show ?thesis using cleanup_spec[OF assms(2)] by auto
next
  case (rb_disable subj ws d)
  then show ?thesis using setUpdatesDisabled_spec[OF assms(2), of subj ws d] sameOwners_inv[OF assms(2)] by auto
next
  case (rb_discardUsed w wd) then show ?thesis using discardUsed_inv[OF assms(2)] by simp
qed

lemma rb_reachable_inv: "rb_reachable b \<Longrightarrow> bookInv b"
proof (induction rule: rb_reachable.induct)
  case rb_init then show ?case by (simp add: bookInv_def emptyBook_def)
next
  case (rb_next b b') then show ?case using rb_step_inv by blast
qed

text \<open>While the book holds a temporary rule, a cleanup is due.\<close>

definition holdsTemporary :: "rulebook \<Rightarrow> bool" where
  "holdsTemporary b \<longleftrightarrow> (\<exists>i \<in> set (bookRules b). \<exists>r. ruleHeap b i = Some r \<and> isTemporary r)"

definition timerInv :: "rulebook \<Rightarrow> bool" where
  "timerInv b \<longleftrightarrow> (holdsTemporary b \<longrightarrow> 0 < cleanupsDue b)"

lemma timerInv_mono:
  assumes "timerInv b" "cleanupsDue c = cleanupsDue b" "set (bookRules c) \<subseteq> set (bookRules b)"
    "\<And>i r. i \<in> set (bookRules c) \<Longrightarrow> ruleHeap c i = Some r \<Longrightarrow> \<exists>s. ruleHeap b i = Some s \<and> temporary_state s = temporary_state r"
  shows "timerInv c"
proof (cases "holdsTemporary c")
  case True
  then obtain i r where i: "i \<in> set (bookRules c)" "ruleHeap c i = Some r" "isTemporary r" by (auto simp: holdsTemporary_def)
  obtain s where "ruleHeap b i = Some s" "isTemporary s" using assms(4)[OF i(1,2)] i(3) by (auto simp: isTemporary_def)
  then have "holdsTemporary b" using i(1) assms(3) by (auto simp: holdsTemporary_def)
  then show ?thesis using assms(1,2) by (simp add: timerInv_def)
qed (simp add: timerInv_def)

lemma sameOwners_timer: "timerInv b \<Longrightarrow> sameOwners b c \<Longrightarrow> timerInv c"
  using sameOwners_state[of b c] by (intro timerInv_mono[of b c]) (simp_all add: sameOwners_def)

lemma loaded_permanent:
  "\<not> holdsTemporary c \<Longrightarrow> bookInv c \<Longrightarrow> \<not> holdsTemporary (fold (\<lambda>s. addBookRule ((f s)\<lparr>temporary_state := 0\<rparr>)) es c)"
proof (induction es arbitrary: c)
  case (Cons e es)
  let ?c = "addBookRule ((f e)\<lparr>temporary_state := 0\<rparr>) c"
  have "\<not> holdsTemporary ?c" using Cons.prems(1) by (auto simp: holdsTemporary_def addBookRule_def newRule_def isTemporary_def split: if_splits)
  moreover have "bookInv ?c" by (rule addBookRule_inv[OF Cons.prems(2)]) simp
  ultimately show ?case using Cons.IH[of ?c] by simp
qed simp

lemma loadRules_timer:
  assumes "bookInv b"
  shows "timerInv (loadRules R entries b)"
proof -
  have "bookInv ((deleteAll b)\<lparr>ruleEntries := Some entries\<rparr>)" using deleteAll_inv[OF assms] by simp
  moreover have "\<not> holdsTemporary ((deleteAll b)\<lparr>ruleEntries := Some entries\<rparr>)" by (simp add: holdsTemporary_def deleteAll_def)
  ultimately show ?thesis using loaded_permanent[where f = "readFromSettings R []"] by (simp add: timerInv_def loadRules_def)
qed

lemma setup_timer:
  assumes "bookInv b" "timerInv b" "setupWindowRules R c w ign b = Some b'"
  shows "timerInv b'"
proof -
  have "\<forall>i \<in> set (bookRules b). ruleHeap b i \<noteq> None" using bookInvD(5)[OF assms(1)] by fastforce
  then show ?thesis using assms(3) by (intro timerInv_mono[OF assms(2)]) (auto simp: setupWindowRules_def findRules_spec)
qed

lemma derefAll_ex: "derefAll b is = Some rs \<Longrightarrow> list_ex P rs \<longleftrightarrow> (\<exists>i \<in> set is. \<exists>r. ruleHeap b i = Some r \<and> P r)"
  by (induction "is" arbitrary: rs) (auto simp: derefAll_def split: option.splits)

lemma message_timer:
  assumes "bookInv b" "timerInv b" "temporaryRulesMessage p b = Some b'"
  shows "timerInv b'"
proof -
  obtain rs where rs: "derefAll b (bookRules b) = Some rs" using assms(3) by (auto simp: temporaryRulesMessage_def split: bind_splits)
  have "list_ex isTemporary rs = holdsTemporary b" by (simp add: derefAll_ex[OF rs] holdsTemporary_def)
  then show ?thesis using assms(2,3) rs by (auto simp: temporaryRulesMessage_def newRule_def timerInv_def)
qed

lemma discardTemporary_timer:
  assumes "bookInv b" "timerInv b" "discardTemporaryRules w b = Some b'"
  shows "timerInv b'"
proof -
  have "\<forall>i \<in> set (windowRules b w). ruleHeap b i \<noteq> None" using bookInvD(6)[OF assms(1)] by fastforce
  then have "discardTemporaryOf (windowRules b w) b = Some (filter (\<lambda>i. \<not> isTemporary (the (ruleHeap b i))) (windowRules b w),
     b\<lparr>ruleHeap := (\<lambda>i. if i \<in> set (windowRules b w) \<and> isTemporary (the (ruleHeap b i)) then None else ruleHeap b i)\<rparr>)"
    by (intro discardTemporaryOf_spec bookInvD(2)[OF assms(1)]) (use bookInvD(4)[OF assms(1)] in auto)
  then show ?thesis using assms(3) by (intro timerInv_mono[OF assms(2)]) (auto simp: discardTemporaryRules_def split: if_splits)
qed

lemma discardUsed_timer:
  assumes "bookInv b" "timerInv b" "discardUsed w wd b = Some c"
  shows "timerInv c"
proof -
  let ?is = "bookRules b"
  obtain x where c: "c = (afterDiscard w wd ?is b)\<lparr>bookRules := filter (\<lambda>i. \<not> deletes w wd ?is b i) ?is, storageRequested := x\<rparr>"
    using discardUsed_spec[OF assms(1), of w wd] assms(3) by auto
  show ?thesis
  proof (rule timerInv_mono[OF assms(2)])
    fix i r assume i: "i \<in> set (bookRules c)" "ruleHeap c i = Some r"
    then have "ruleHeap b i \<noteq> None" using bookInvD(5)[OF assms(1), of i] by (auto simp: c)
    then show "\<exists>s. ruleHeap b i = Some s \<and> temporary_state s = temporary_state r"
      using i left_state[of wd "the (ruleHeap b i)" r] by (auto simp: c afterDiscard_def split: if_splits)
  qed (auto simp: c afterDiscard_def)
qed

lemma rb_step_timer:
  assumes "rb_step b b'" "bookInv b" "timerInv b"
  shows "timerInv b'"
  using assms(1)
proof (cases rule: rb_step.cases)
  case (rb_setup R c w ign) then show ?thesis using setup_timer[OF assms(2,3)] by blast
next
  case (rb_update c w sel) then show ?thesis using updateWindowRules_spec[OF assms(2), of c w sel] sameOwners_timer[OF assms(3)] by auto
next
  case (rb_finish c w)
  obtain d where d: "updateWindowRules c w (\<lambda>_. True) b = Some d" "sameOwners b d" using updateWindowRules_spec[OF assms(2)] by blast
  have "timerInv (d\<lparr>windowRules := (windowRules d)(w := [])\<rparr>)"
    by (rule timerInv_mono[OF sameOwners_timer[OF assms(3) d(2)]]) auto
  then show ?thesis using rb_finish d by (simp add: finishWindowRules_def)
next
  case (rb_discardTemporary w) then show ?thesis using discardTemporary_timer[OF assms(2,3)] by blast
next
  case (rb_load R entries) then show ?thesis using loadRules_timer[OF assms(2)] by simp
next
  case (rb_save R) then show ?thesis using saveRules_spec[OF assms(2), of R] sameOwners_timer[OF assms(3)] by auto
next
  case (rb_message p) then show ?thesis using message_timer[OF assms(2,3)] by blast
next
  case rb_cleanup then show ?thesis using cleanup_spec[OF assms(2)] by (auto simp: timerInv_def holdsTemporary_def split: if_splits)
next
  case (rb_disable subj ws d)
  then show ?thesis using setUpdatesDisabled_spec[OF assms(2), of subj ws d] sameOwners_timer[OF assms(3)] by auto
next
  case (rb_discardUsed w wd) then show ?thesis using discardUsed_timer[OF assms(2,3)] by blast
qed

lemma rb_reachable_timer: "rb_reachable b \<Longrightarrow> timerInv b"
proof (induction rule: rb_reachable.induct)
  case rb_init then show ?case by (simp add: timerInv_def holdsTemporary_def emptyBook_def)
next
  case (rb_next b b') then show ?case using rb_step_timer rb_reachable_inv by blast
qed

end
