(* ===== verification/Rule_Properties.thy ===== *)
theory Rule_Properties
  imports Rule_Lifecycle
begin

text \<open>
  The properties of window rules: who owns a rule, which rule decides about a setting, what is
  remembered, what survives saving, and when temporary rules expire.
\<close>

section \<open>Pointers to rules\<close>


text \<open>The concrete books that the witnesses use: one rule that forces "keep above" until the window is
  withdrawn and matches every window, held by two windows.\<close>

definition plainEnv :: rule_env where
  "plainEnv = \<lparr>regexMatches = (\<lambda>_ _. False), lower = (\<lambda>s. s), locateColors = (\<lambda>t. ''/usr/share/color-schemes/'' @ t @ ''.colors''),
     ruleDesktopForId = (\<lambda>_. None), ruleOutputs = [], fractionalGeometry = (\<lambda>_. \<lparr>rectX = 0, rectY = 0, rectW = 0, rectH = 0\<rparr>)\<rparr>"

definition plainSubject :: subject where
  "plainSubject = \<lparr>sWindowType = NETNormal, sResourceClass = ''term'', sResourceName = ''term'', sWindowRole = [],
     sHostName = ''localhost'', sIsLocal = True, sCaption = [], sIsFullScreen = False, sMaximizedH = False, sMaximizedV = False,
     sPos = \<lparr>pointX = 0, pointY = 0\<rparr>, sSize = \<lparr>sizeW = 10, sizeH = 10\<rparr>, sDesktopIds = [], sScreen = 0, sActivities = [],
     sIsMinimized = False, sShaded = False, sSkipTaskbar = False, sSkipPager = False, sSkipSwitcher = False, sKeepAbove = True,
     sKeepBelow = False, sNoBorder = False, sDesktopFileName = []\<rparr>"

definition aboveRule :: "policy \<Rightarrow> rules" where
  "aboveRule p = defaultEntry\<lparr>r_value := (\<lambda>k. VBool True), r_policy := (\<lambda>k. if k = RAbove then p else Unused)\<rparr>"

definition loadedBook :: "policy \<Rightarrow> rulebook" where
  "loadedBook p = loadRules plainEnv [aboveRule p] emptyBook"

definition sharedBook :: "policy \<Rightarrow> rulebook" where
  "sharedBook p = (loadedBook p)\<lparr>windowRules := (\<lambda>_. [])(1 := [0], 2 := [0])\<rparr>"

lemma loadedBook_eq:
  "loadedBook p = emptyBook\<lparr>ruleHeap := [0 \<mapsto> readFromSettings plainEnv [] (aboveRule p)\<lparr>temporary_state := 0\<rparr>],
     nextRule := 1, bookRules := [0], ruleEntries := Some [aboveRule p]\<rparr>"
  by (simp add: loadedBook_def loadRules_def deleteAll_def emptyBook_def addBookRule_def newRule_def)

lemma plain_matches: "ruleMatches plainEnv (readFromSettings plainEnv [] (aboveRule p)\<lparr>temporary_state := 0\<rparr>) plainSubject"
  by (simp add: ruleMatches_def readFromSettings_def aboveRule_def defaultEntry_def matchType_def matchWMClass_def
    matchRole_def matchTitle_def matchClientMachine_def matchFolded_def matchPlain_def)

lemma sharedBook_reachable: "rb_reachable (sharedBook p)"
proof -
  let ?b = "loadedBook p"
  have r: "rb_reachable ?b" unfolding loadedBook_def by (rule rb_next[OF rb_init rb_load])
  have 1: "setupWindowRules plainEnv plainSubject 1 False ?b = Some (?b\<lparr>windowRules := (\<lambda>_. [])(1 := [0])\<rparr>)"
    using plain_matches by (simp add: setupWindowRules_def loadedBook_eq emptyBook_def isTemporary_def)
  have 2: "setupWindowRules plainEnv plainSubject 2 False (?b\<lparr>windowRules := (\<lambda>_. [])(1 := [0])\<rparr>) = Some (sharedBook p)"
    using plain_matches by (simp add: setupWindowRules_def sharedBook_def loadedBook_eq emptyBook_def isTemporary_def)
  show ?thesis by (rule rb_next[OF rb_next[OF r rb_setup[OF 1]] rb_setup[OF 2]])
qed


text \<open>C29: when all the policies of a rule are "force temporarily" or unused and two windows hold it, the
  withdrawal of the first deletes it; the next check of the second reads the deleted rule.\<close>

theorem rb_use_after_free:
  assumes "rb_reachable b" "ruleHeap b i = Some r" "i \<in> set (bookRules b)"
    "i \<in> set (windowRules b w)" "i \<in> set (windowRules b v)" "v \<noteq> w"
    "\<forall>k. r_policy r k = Unused \<or> r_policy r k = ForceTemporarily"
  shows "\<exists>b'. discardUsed w True b = Some b' \<and> checkSet b' v get k arg init = None"
proof -
  note inv = rb_reachable_inv[OF assms(1)]
  have "left True r = None"
    using assms(7) by (auto simp: left_def discardUsedRule_spec ruleIsEmpty_iff discarded_def usedUp_def)
  then have del: "deletes w True (bookRules b) b i" using assms(2-4) by (simp add: deletes_def)
  obtain b' x where b': "discardUsed w True b = Some b'" "b' = (afterDiscard w True (bookRules b) b)\<lparr>
      bookRules := filter (\<lambda>i. \<not> deletes w True (bookRules b) b i) (bookRules b), storageRequested := x\<rparr>"
    using discardUsed_spec[OF inv, of w True] by blast
  have "ruleHeap b' i = None" using del by (simp add: b'(2) afterDiscard_def deletes_def)
  moreover have "i \<in> set (windowRules b' v)" using assms(5,6) by (simp add: b'(2) afterDiscard_def)
  ultimately have "None \<in> ruleHeap b' ` set (windowRules b' v)" by (metis image_eqI)
  then have "rulesOf b' v = None" by (simp add: rulesOf_def derefAll_def those_None_iff)
  then show ?thesis using b'(1) by (simp add: checkSet_def)
qed

theorem rb_use_after_free_witness:
  "\<exists>b'. discardUsed 1 True (sharedBook ForceTemporarily) = Some b' \<and> checkSet b' 2 vBool RAbove False False = None"
proof (rule rb_use_after_free[OF sharedBook_reachable, where i = 0])
  let ?r = "readFromSettings plainEnv [] (aboveRule ForceTemporarily)\<lparr>temporary_state := 0\<rparr>"
  show "ruleHeap (sharedBook ForceTemporarily) 0 = Some ?r" by (simp add: sharedBook_def loadedBook_eq)
  have p: "r_policy ?r k = readPolicy plainEnv (\<lambda>_. VBool True) (\<lambda>k. if k = RAbove then ForceTemporarily else Unused) k" for k
    by (simp add: readFromSettings_def aboveRule_def)
  show "\<forall>k. r_policy ?r k = Unused \<or> r_policy ?r k = ForceTemporarily"
    unfolding p by (rule allI, case_tac k) (simp_all add: readPolicy_def convertForceRule_def)
qed (simp_all add: sharedBook_def loadedBook_eq)

section \<open>Which rule decides\<close>

text \<open>C28: the first rule of a window that does not leave a setting unused decides about it alone: its value
  is taken if its policy applies, and otherwise the argument stays. For the maximize mode this holds of
  each direction.\<close>

theorem rules_first_decides:
  assumes "rulesOf b w = Some rs"
  shows "checkSet b w get k arg init = Some (case deciding k rs of None \<Rightarrow> arg
      | Some r \<Rightarrow> if checkSetRule (r_policy r k) init then get (r_value r k) else arg) \<and>
    checkForce b w get k arg = Some (case deciding k rs of None \<Rightarrow> arg
      | Some r \<Rightarrow> if checkForceRule (r_policy r k) then get (r_value r k) else arg) \<and>
    checkMaximize b w mode init = Some
      \<lparr>mvert = (case deciding RMaximizeVert rs of None \<Rightarrow> mvert mode
         | Some r \<Rightarrow> if checkSetRule (r_policy r RMaximizeVert) init then vBool (r_value r RMaximizeVert) else mvert mode),
       mhoriz = (case deciding RMaximizeHoriz rs of None \<Rightarrow> mhoriz mode
         | Some r \<Rightarrow> if checkSetRule (r_policy r RMaximizeHoriz) init then vBool (r_value r RMaximizeHoriz) else mhoriz mode)\<rparr>"
proof -
  have "checkRules (applyMaximizeVert init) rs mode = (case deciding RMaximizeVert rs of None \<Rightarrow> mode
      | Some r \<Rightarrow> if checkSetRule (r_policy r RMaximizeVert) init then mode\<lparr>mvert := vBool (r_value r RMaximizeVert)\<rparr> else mode)"
    by (induction rs) (auto simp: deciding_def applyMaximizeVert_def checkSetStop_def)
  moreover have "checkRules (applyMaximizeHoriz init) rs mode = (case deciding RMaximizeHoriz rs of None \<Rightarrow> mode
      | Some r \<Rightarrow> if checkSetRule (r_policy r RMaximizeHoriz) init then mode\<lparr>mhoriz := vBool (r_value r RMaximizeHoriz)\<rparr> else mode)"
    by (induction rs) (auto simp: deciding_def applyMaximizeHoriz_def checkSetStop_def)
  ultimately show ?thesis using assms
    by (simp add: checkSet_def checkForce_def checkMaximize_def checkRules_set checkRules_force split: option.split)
qed

theorem rules_first_decides_witness:
  "checkSet (sharedBook Force) 2 vBool RAbove False False = Some True"
proof -
  have rs: "rulesOf (sharedBook Force) 2 = Some [readFromSettings plainEnv [] (aboveRule Force)\<lparr>temporary_state := 0\<rparr>]"
    by (simp add: rulesOf_def derefAll_def sharedBook_def loadedBook_eq)
  show ?thesis using rules_first_decides[OF rs, where get = vBool and k = RAbove and arg = False and init = False]
    by (simp add: deciding_def readFromSettings_def aboveRule_def readPolicy_def readValue_def isForce_def forceKeys_def checkSetRule_def)
qed

section \<open>What is remembered\<close>

text \<open>\<open>update\<close> changes the value of the remembered settings and of nothing else, reports a change exactly
  when there is one, and a second update with the same window changes nothing; in particular the position and the
  size of a full screen window are never remembered.\<close>

theorem rule_update_remembers:
  "updateRule c sel r = (updated, r') \<Longrightarrow>
     r' = r\<lparr>r_value := r_value r'\<rparr> \<and> (updated \<longleftrightarrow> r' \<noteq> r) \<and> updateRule c sel r' = (False, r') \<and>
     (\<forall>k. r_value r' k = (if sel k \<and> r_policy r k = Remember
        then (case remembered c k (r_value r k) of None \<Rightarrow> r_value r k | Some v \<Rightarrow> v) else r_value r k)) \<and>
     (sIsFullScreen c \<longrightarrow> r_value r' RPosition = r_value r RPosition \<and> r_value r' RSize = r_value r RSize)"
proof -
  assume "updateRule c sel r = (updated, r')"
  then have u: "updated \<longleftrightarrow> (\<exists>k. remembers c sel r k \<noteq> r_value r k)" and r': "r' = r\<lparr>r_value := remembers c sel r\<rparr>"
    by (auto simp: updateRule_spec)
  have idem: "remembers c sel r' = remembers c sel r" unfolding r' by (rule remembers_idem)
  have "r' \<noteq> r \<longleftrightarrow> remembers c sel r \<noteq> r_value r" unfolding r' by (metis rules.surjective rules.update_convs(13) rules.select_convs(13))
  then have "updated \<longleftrightarrow> r' \<noteq> r" using u by (auto simp: fun_eq_iff)
  moreover have "updateRule c sel r' = (False, r')" unfolding updateRule_spec idem by (simp add: r')
  ultimately show ?thesis by (simp add: r' remembers_def remembered_def)
qed

theorem rule_update_remembers_witness:
  "\<exists>r'. updateRule plainSubject (\<lambda>_. True) (defaultEntry\<lparr>r_policy := (\<lambda>_. Remember)\<rparr>) = (True, r') \<and>
     updateRule plainSubject (\<lambda>_. True) r' = (False, r')"
proof -
  let ?r = "defaultEntry\<lparr>r_policy := (\<lambda>_. Remember)\<rparr>"
  obtain u r' where run: "updateRule plainSubject (\<lambda>_. True) ?r = (u, r')" by fastforce
  have "remembers plainSubject (\<lambda>_. True) ?r RAbove \<noteq> r_value ?r RAbove"
    by (simp add: remembers_def remembered_def plainSubject_def defaultEntry_def)
  then have "u" using run by (auto simp: updateRule_spec)
  moreover have "updateRule plainSubject (\<lambda>_. True) r' = (False, r')" using rule_update_remembers[OF run] by (elim conjE)
  ultimately show ?thesis using run by (intro exI[of _ r']) simp
qed

section \<open>What survives saving\<close>

text \<open>The laws of the library that saving relies on: \<open>toLower\<close> is idempotent, and the file of a colour scheme that
  \<open>QStandardPaths::locate\<close> finds has the name it was asked for.\<close>

definition lowerLaw :: "rule_env \<Rightarrow> bool" where
  "lowerLaw R \<longleftrightarrow> lower R [] = [] \<and> (\<forall>s. lower R (lower R s) = lower R s)"

definition locateLaw :: "rule_env \<Rightarrow> bool" where
  "locateLaw R \<longleftrightarrow> (\<forall>t. locateColors R t = [] \<or> (\<exists>dir. locateColors R t = dir @ ''/color-schemes/'' @ t @ ''.colors''))"

lemma takeWhile_stop: "\<forall>x \<in> set xs. P x \<Longrightarrow> \<not> P y \<Longrightarrow> takeWhile P (xs @ y # ys) = xs"
  by (simp add: takeWhile_append2)

lemma colorToString_suffix: "colorToString (xs @ ''.colors'') = baseName (xs @ ''.colors'')"
  by (simp add: colorToString_def)

lemma colorToString_located:
  assumes "set t \<inter> {CHR ''.'', CHR ''/''} = {}"
  shows "colorToString (dir @ ''/color-schemes/'' @ t @ ''.colors'') = t"
proof -
  let ?v = "dir @ ''/color-schemes/'' @ t @ ''.colors''"
  have "rev ?v = rev (t @ ''.colors'') @ CHR ''/'' # rev (dir @ ''/color-schemes'')" by simp
  moreover have "\<forall>c \<in> set (rev (t @ ''.colors'')). c \<noteq> CHR ''/''" using assms by auto
  ultimately have "takeWhile (\<lambda>c. c \<noteq> CHR ''/'') (rev ?v) = rev (t @ ''.colors'')"
    using takeWhile_stop[of "rev (t @ ''.colors'')" "\<lambda>c. c \<noteq> CHR ''/''"] by metis
  then have "baseName ?v = takeWhile (\<lambda>c. c \<noteq> CHR ''.'') (t @ CHR ''.'' # ''colors'')" by (simp add: baseName_def)
  also have "\<dots> = t" by (rule takeWhile_stop) (use assms in auto)
  finally have base: "baseName ?v = t" .
  show ?thesis using colorToString_suffix[of "dir @ ''/color-schemes/'' @ t"] base by simp
qed

lemma asRead_readFromSettings:
  assumes "lowerLaw R" "locateLaw R" "set (vString (r_value s RDecoColor)) \<inter> {CHR ''.'', CHR ''/''} = {}"
  shows "asRead R (readFromSettings R l s)"
proof -
  let ?r = "readFromSettings R l s"
  let ?t = "vString (r_value s RDecoColor)"
  have deco: "getDecoColor R (colorToString (getDecoColor R ?t)) = getDecoColor R ?t" if n: "getDecoColor R ?t \<noteq> []"
  proof -
    have "getDecoColor R ?t = locateColors R ?t" using n by (simp add: getDecoColor_def split: if_splits)
    moreover obtain dir where "locateColors R ?t = dir @ ''/color-schemes/'' @ ?t @ ''.colors''"
      using n assms(2) by (auto simp: getDecoColor_def locateLaw_def split: if_splits)
    ultimately show ?thesis using colorToString_located[OF assms(3)] by simp
  qed
  have pol: "r_policy ?r k = readPolicy R (r_value s) (r_policy s) k" "r_value ?r k = readValue R (r_value s) k" for k
    by (simp_all add: readFromSettings_def)
  have force: "convertForceRule (r_policy ?r k) = r_policy ?r k" if "isForce k" for k
    using that unfolding pol by (cases k) (simp_all add: readPolicy_def isForce_def forceKeys_def)
  have "lower R (r_clientmachine ?r) = r_clientmachine ?r" using assms(1) by (simp add: readFromSettings_def lowerLaw_def)
  then show ?thesis unfolding asRead_def
    using force deco by (auto simp: pol readPolicy_def readValue_def)
qed


definition colorEntry :: "string \<Rightarrow> rules" where
  "colorEntry t = defaultEntry\<lparr>r_value := (r_value defaultEntry)(RDecoColor := VString t), r_policy := (\<lambda>_. Unused)(RDecoColor := Force)\<rparr>"


text \<open>A scheme with a dot in its name is saved under the part before the dot: the rule then names another scheme.\<close>

lemma rule_color_lost:
  "r_value (readFromSettings plainEnv [] (writeRule plainEnv (readFromSettings plainEnv [] (colorEntry ''A.dark'')) defaultEntry)) RDecoColor =
     VString ''/usr/share/color-schemes/A.colors''"
  by (simp add: readFromSettings_def writeRule_def readValue_def readPolicy_def convertForceRule_def getDecoColor_def colorEntry_def
    plainEnv_def colorToString_def baseName_def)

section \<open>Temporary rules\<close>

text \<open>C27: while the book holds a temporary rule a cleanup is due, and two cleanups delete every temporary rule
  that no window has taken by then; the rules that are not temporary stay.\<close>

theorem rb_temporary_expires:
  assumes "rb_reachable b"
  shows "(holdsTemporary b \<longrightarrow> 0 < cleanupsDue b) \<and>
    (\<exists>c d. cleanupTemporaryRules b = Some c \<and> cleanupTemporaryRules c = Some d \<and>
       \<not> holdsTemporary d \<and>
       bookRules d = filter (\<lambda>i. \<not> isTemporary (the (ruleHeap b i))) (bookRules b) \<and>
       (\<forall>i \<in> set (bookRules b). isTemporary (the (ruleHeap b i)) \<longrightarrow> ruleHeap d i = None) \<and>
       (\<forall>i \<in> set (bookRules d). ruleHeap d i = ruleHeap b i))"
proof -
  note inv = rb_reachable_inv[OF assms]
  obtain c where c: "cleanupTemporaryRules b = Some c" "bookInv c"
    "bookRules c = filter (\<lambda>i. aged (the (ruleHeap b i)) \<noteq> None) (bookRules b)"
    "\<And>i. ruleHeap c i = (if i \<in> set (bookRules b) then aged (the (ruleHeap b i)) else ruleHeap b i)"
    using cleanup_spec[OF inv] by blast
  obtain d where d: "cleanupTemporaryRules c = Some d" "bookInv d"
    "bookRules d = filter (\<lambda>i. aged (the (ruleHeap c i)) \<noteq> None) (bookRules c)"
    "\<And>i. ruleHeap d i = (if i \<in> set (bookRules c) then aged (the (ruleHeap c i)) else ruleHeap c i)"
    using cleanup_spec[OF c(2)] by blast
  have step: "(if isTemporary r then ruleHeap d i = None \<and> i \<notin> set (bookRules d) else ruleHeap d i = Some r \<and> i \<in> set (bookRules d))"
    if i: "i \<in> set (bookRules b)" and r: "ruleHeap b i = Some r" for i r
  proof -
    have "temporary_state r \<in> {0, 1, 2}" using bookInvD(4)[OF inv r] .
    then show ?thesis using i r by (auto simp: c(3,4) d(3,4) aged_def isTemporary_def)
  qed
  have live: "\<exists>r. ruleHeap b i = Some r" if "i \<in> set (bookRules b)" for i using bookInvD(5)[OF inv that] .
  have sub: "set (bookRules d) \<subseteq> set (bookRules b)" by (auto simp: c(3) d(3))
  have "bookRules d = filter (\<lambda>i. \<not> isTemporary (the (ruleHeap b i))) (bookRules b)"
    unfolding d(3) c(3) filter_filter
  proof (rule filter_cong[OF refl])
    fix i assume i: "i \<in> set (bookRules b)"
    obtain r where "ruleHeap b i = Some r" using live[OF i] by blast
    with step[OF i this] i show "(aged (the (ruleHeap b i)) \<noteq> None \<and> aged (the (ruleHeap c i)) \<noteq> None) =
        (\<not> isTemporary (the (ruleHeap b i)))"
      by (auto simp: d(3) c(3) split: if_splits)
  qed
  moreover have "\<not> holdsTemporary d" using step live sub by (fastforce simp: holdsTemporary_def split: if_splits)
  moreover have "\<forall>i \<in> set (bookRules b). isTemporary (the (ruleHeap b i)) \<longrightarrow> ruleHeap d i = None"
    using step live by fastforce
  moreover have "\<forall>i \<in> set (bookRules d). ruleHeap d i = ruleHeap b i" using step live sub by (fastforce split: if_splits)
  ultimately show ?thesis using c(1) d(1) rb_reachable_timer[OF assms] by (auto simp: timerInv_def)
qed

theorem rb_temporary_expires_witness:
  "\<exists>b. rb_reachable b \<and> holdsTemporary b \<and> 0 < cleanupsDue b"
proof -
  obtain b where b: "temporaryRulesMessage (aboveRule Force) emptyBook = Some b" "holdsTemporary b"
    by (simp add: temporaryRulesMessage_def emptyBook_def derefAll_def newRule_def holdsTemporary_def isTemporary_def)
  have "rb_reachable b" by (rule rb_next[OF rb_init rb_message[OF b(1)]])
  then show ?thesis using rb_temporary_expires[of b] b(2) by blast
qed

end
