(* ===== verification/Client_Areas.thy ===== *)
theory Client_Areas
  imports Qt_Geometry Window_Model "HOL-Library.AList"
begin

text \<open>
  The areas that windows may use (\<open>src/src/workspace.cpp\<close>): the geometry of outputs, the struts that panels
  reserve on X11 and on Wayland, and the work, screen and restricted areas that the workspace computes from them. A
  \<open>QHash\<close> is an association list; two of them are compared by their contents.
\<close>

section \<open>Outputs\<close>

record output_state =
  position :: qpoint
  pixelWidth :: int
  pixelHeight :: int
  outScale :: qreal

text \<open>\<open>Output::geometry\<close>: the quotient of a \<open>QSize\<close> by a number is rounded.\<close>

definition outGeometry :: "output_state \<Rightarrow> qrect" where
  "outGeometry p = \<lparr>irectX = ipointX (position p), irectY = ipointY (position p),
     irectW = qRound (of_int (pixelWidth p) / outScale p), irectH = qRound (of_int (pixelHeight p) / outScale p)\<rparr>"

definition outFractional :: "output_state \<Rightarrow> qrectf" where
  "outFractional p = \<lparr>rectX = of_int (ipointX (position p)), rectY = of_int (ipointY (position p)),
     rectW = of_int (pixelWidth p) / outScale p, rectH = of_int (pixelHeight p) / outScale p\<rparr>"

section \<open>Struts\<close>

datatype strut_area = StrutAreaInvalid | StrutAreaTop | StrutAreaRight | StrutAreaBottom | StrutAreaLeft

record strut_rect =
  srRect :: qrect
  srArea :: strut_area

definition noStrutRect :: strut_rect where "noStrutRect = \<lparr>srRect = inullRect, srArea = StrutAreaInvalid\<rparr>"

record net_strut =
  nsLeft :: int
  nsRight :: int
  nsTop :: int
  nsBottom :: int

record ext_strut =
  leftWidth :: int
  leftStart :: int
  leftEnd :: int
  rightWidth :: int
  rightStart :: int
  rightEnd :: int
  topWidth :: int
  topStart :: int
  topEnd :: int
  bottomWidth :: int
  bottomStart :: int
  bottomEnd :: int

text \<open>\<open>X11Window::strut\<close>: the extended strut, or one that is built from the simple one. \<open>geo\<close> is the geometry
  of the workspace.\<close>

definition x11Strut :: "qrect \<Rightarrow> ext_strut \<Rightarrow> net_strut \<Rightarrow> ext_strut" where
  "x11Strut geo ext str =
     (if leftWidth ext = 0 \<and> rightWidth ext = 0 \<and> topWidth ext = 0 \<and> bottomWidth ext = 0 \<and>
         (nsLeft str \<noteq> 0 \<or> nsRight str \<noteq> 0 \<or> nsTop str \<noteq> 0 \<or> nsBottom str \<noteq> 0)
      then (let ext = (if nsLeft str \<noteq> 0 then ext\<lparr>leftWidth := nsLeft str, leftStart := 0, leftEnd := irectH geo\<rparr> else ext);
                ext = (if nsRight str \<noteq> 0 then ext\<lparr>rightWidth := nsRight str, rightStart := 0, rightEnd := irectH geo\<rparr> else ext);
                ext = (if nsTop str \<noteq> 0 then ext\<lparr>topWidth := nsTop str, topStart := 0, topEnd := irectW geo\<rparr> else ext)
            in if nsBottom str \<noteq> 0 then ext\<lparr>bottomWidth := nsBottom str, bottomStart := 0, bottomEnd := irectW geo\<rparr> else ext)
      else ext)"

definition x11StrutRect :: "qrect \<Rightarrow> ext_strut \<Rightarrow> strut_area \<Rightarrow> strut_rect" where
  "x11StrutRect geo s area = (case area of
       StrutAreaTop \<Rightarrow> if topWidth s \<noteq> 0
         then \<lparr>srRect = \<lparr>irectX = topStart s, irectY = 0, irectW = topEnd s - topStart s, irectH = topWidth s\<rparr>,
               srArea = StrutAreaTop\<rparr> else noStrutRect
     | StrutAreaRight \<Rightarrow> if rightWidth s \<noteq> 0
         then \<lparr>srRect = \<lparr>irectX = irectW geo - rightWidth s, irectY = rightStart s, irectW = rightWidth s,
                         irectH = rightEnd s - rightStart s\<rparr>, srArea = StrutAreaRight\<rparr> else noStrutRect
     | StrutAreaBottom \<Rightarrow> if bottomWidth s \<noteq> 0
         then \<lparr>srRect = \<lparr>irectX = bottomStart s, irectY = irectH geo - bottomWidth s, irectW = bottomEnd s - bottomStart s,
                         irectH = bottomWidth s\<rparr>, srArea = StrutAreaBottom\<rparr> else noStrutRect
     | StrutAreaLeft \<Rightarrow> if leftWidth s \<noteq> 0
         then \<lparr>srRect = \<lparr>irectX = 0, irectY = leftStart s, irectW = leftWidth s, irectH = leftEnd s - leftStart s\<rparr>,
               srArea = StrutAreaLeft\<rparr> else noStrutRect
     | StrutAreaInvalid \<Rightarrow> noStrutRect)"

definition x11HasStrut :: "ext_strut \<Rightarrow> bool" where
  "x11HasStrut s \<longleftrightarrow> \<not> (leftWidth s = 0 \<and> rightWidth s = 0 \<and> topWidth s = 0 \<and> bottomWidth s = 0)"

text \<open>A panel on Wayland; the strut uses the fields of \<^typ>\<open>ext_strut\<close>.\<close>

record panel =
  panelShown :: bool
  panelSurface :: bool
  panelRole :: bool
  panelAlwaysVisible :: bool
  panelStrut :: ext_strut
  panelFrame :: qrectf

definition xdgHasStrut :: "panel \<Rightarrow> bool" where
  "xdgHasStrut p \<longleftrightarrow> panelShown p \<and> panelSurface p \<and> panelRole p \<and> x11HasStrut (panelStrut p) \<and> panelAlwaysVisible p"

definition strutOn :: "strut_area \<Rightarrow> qrect \<Rightarrow> strut_rect" where
  "strutOn a r = \<lparr>srRect = r, srArea = a\<rparr>"

definition xdgStrutRect :: "qrect \<Rightarrow> panel \<Rightarrow> strut_area \<Rightarrow> strut_rect" where
  "xdgStrutRect outputRect p area =
     (let s = panelStrut p; windowRect = rtoRect (panelFrame p);
          horizontal = (rectW (panelFrame p) \<ge> rectH (panelFrame p))
      in if \<not> xdgHasStrut p then noStrutRect
      else if leftWidth s \<noteq> 0 \<or> rightWidth s \<noteq> 0 \<or> topWidth s \<noteq> 0 \<or> bottomWidth s \<noteq> 0
      then (case area of
          StrutAreaTop \<Rightarrow> if topWidth s = 0 then noStrutRect
            else strutOn StrutAreaTop (iintersected
              ((isetLeft (topStart s) (windowRect\<lparr>irectH := topWidth s\<rparr>))\<lparr>irectW := topEnd s - topStart s\<rparr>) outputRect)
        | StrutAreaRight \<Rightarrow> if rightWidth s = 0 then noStrutRect
            else strutOn StrutAreaRight (iintersected
              ((isetTop (rightStart s) ((isetLeft (iright outputRect - rightWidth s) windowRect)\<lparr>irectW := rightWidth s\<rparr>))
                 \<lparr>irectH := rightEnd s - rightStart s\<rparr>) outputRect)
        | StrutAreaBottom \<Rightarrow> if bottomWidth s = 0 then noStrutRect
            else strutOn StrutAreaBottom (iintersected
              ((isetLeft (bottomStart s) ((isetTop (ibottom outputRect - bottomWidth s) windowRect)\<lparr>irectH := bottomWidth s\<rparr>))
                 \<lparr>irectW := bottomEnd s - bottomStart s\<rparr>) outputRect)
        | StrutAreaLeft \<Rightarrow> if leftWidth s = 0 then noStrutRect
            else strutOn StrutAreaLeft (iintersected
              ((isetTop (leftStart s) (windowRect\<lparr>irectW := leftWidth s\<rparr>))\<lparr>irectH := leftEnd s - leftStart s\<rparr>) outputRect)
        | StrutAreaInvalid \<Rightarrow> noStrutRect)
      else (case area of
          StrutAreaTop \<Rightarrow> if irectY windowRect = irectY outputRect \<and> horizontal then strutOn StrutAreaTop windowRect else noStrutRect
        | StrutAreaRight \<Rightarrow> if iright windowRect = iright outputRect \<and> \<not> horizontal then strutOn StrutAreaRight windowRect else noStrutRect
        | StrutAreaBottom \<Rightarrow> if ibottom windowRect = ibottom outputRect \<and> horizontal then strutOn StrutAreaBottom windowRect else noStrutRect
        | StrutAreaLeft \<Rightarrow> if irectX windowRect = irectX outputRect \<and> \<not> horizontal then strutOn StrutAreaLeft windowRect else noStrutRect
        | StrutAreaInvalid \<Rightarrow> noStrutRect))"

section \<open>The workspace\<close>

datatype strut_source = NoStrut | X11Client ext_strut net_strut | XdgPanel panel

record area_window =
  awId :: wid
  awDesktops :: "vd list"
  awOutput :: outp
  awStrut :: strut_source

datatype area_call = SetWorkArea vd qrectf | CheckWorkspacePosition wid | SendWorkArea wid

record work_areas =
  m_outputs :: "outp list"
  outputState :: "outp \<Rightarrow> output_state"
  m_geometry :: qrect
  m_workAreas :: "(vd \<times> qrectf) list"
  m_restrictedAreas :: "(vd \<times> strut_rect list) list"
  m_oldRestrictedAreas :: "(vd \<times> strut_rect list) list"
  m_screenAreas :: "(vd \<times> (outp \<times> qrectf) list) list"
  areaCalls :: "area_call list"

abbreviation geometryOf :: "work_areas \<Rightarrow> outp \<Rightarrow> qrect" where "geometryOf s p \<equiv> outGeometry (outputState s p)"
abbreviation fractionalOf :: "work_areas \<Rightarrow> outp \<Rightarrow> qrectf" where "fractionalOf s p \<equiv> outFractional (outputState s p)"

definition strutRect :: "work_areas \<Rightarrow> area_window \<Rightarrow> strut_area \<Rightarrow> strut_rect" where
  "strutRect s w area = (case awStrut w of
       NoStrut \<Rightarrow> noStrutRect
     | X11Client ext str \<Rightarrow> x11StrutRect (m_geometry s) (x11Strut (m_geometry s) ext str) area
     | XdgPanel p \<Rightarrow> xdgStrutRect (geometryOf s (awOutput w)) p area)"

definition hasStrut :: "work_areas \<Rightarrow> area_window \<Rightarrow> bool" where
  "hasStrut s w = (case awStrut w of
       NoStrut \<Rightarrow> False
     | X11Client ext str \<Rightarrow> x11HasStrut (x11Strut (m_geometry s) ext str)
     | XdgPanel p \<Rightarrow> xdgHasStrut p)"

definition strutRects :: "work_areas \<Rightarrow> area_window \<Rightarrow> strut_rect list" where
  "strutRects s w = filter (\<lambda>r. ivalid (srRect r))
     (map (strutRect s w) [StrutAreaTop, StrutAreaRight, StrutAreaBottom, StrutAreaLeft])"

definition hasOffscreenXineramaStrut :: "work_areas \<Rightarrow> area_window \<Rightarrow> bool" where
  "hasOffscreenXineramaStrut s w =
     (foldl (\<lambda>region p. regionMinus region (geometryOf s p))
        (filter ivalid (map (\<lambda>a. srRect (strutRect s w a)) [StrutAreaTop, StrutAreaRight, StrutAreaBottom, StrutAreaLeft]))
        (m_outputs s) \<noteq> [])"

section \<open>Client areas\<close>

text \<open>\<open>Workspace::outputAt\<close>: the first of the outputs nearest to a point.\<close>

definition outputDistance :: "qrect \<Rightarrow> qpointf \<Rightarrow> qreal" where
  "outputDistance geo pos =
     (let x = clampTo (of_int (irectX geo)) (of_int (irectX geo + irectW geo - 1)) (pointX pos) - pointX pos;
          y = clampTo (of_int (irectY geo)) (of_int (irectY geo + irectH geo - 1)) (pointY pos) - pointY pos
      in x * x + y * y)"

fun nearestOutput :: "work_areas \<Rightarrow> qpointf \<Rightarrow> (outp \<times> qreal) option \<Rightarrow> outp list \<Rightarrow> (outp \<times> qreal) option" where
  "nearestOutput s pos best [] = best"
| "nearestOutput s pos best (p # ps) = (let d = outputDistance (geometryOf s p) pos in
     nearestOutput s pos (case best of None \<Rightarrow> Some (p, d)
       | Some (_, m) \<Rightarrow> if d < m then Some (p, d) else best) ps)"

definition outputAt :: "work_areas \<Rightarrow> qpointf \<Rightarrow> outp option" where
  "outputAt s pos = map_option fst (nearestOutput s pos None (m_outputs s))"

datatype client_area_option = PlacementArea | MovementArea | MaximizeArea | MaximizeFullArea | FullScreenArea
  | WorkArea | FullArea | ScreenArea

definition clientArea :: "work_areas \<Rightarrow> client_area_option \<Rightarrow> outp \<Rightarrow> vd \<Rightarrow> qrectf" where
  "clientArea s opt out d = (case opt of
       MaximizeArea \<Rightarrow> (case map_of (m_screenAreas s) d of None \<Rightarrow> fractionalOf s out
         | Some h \<Rightarrow> (case map_of h out of None \<Rightarrow> fractionalOf s out | Some a \<Rightarrow> a))
     | PlacementArea \<Rightarrow> (case map_of (m_screenAreas s) d of None \<Rightarrow> fractionalOf s out
         | Some h \<Rightarrow> (case map_of h out of None \<Rightarrow> fractionalOf s out | Some a \<Rightarrow> a))
     | MaximizeFullArea \<Rightarrow> fractionalOf s out
     | FullScreenArea \<Rightarrow> fractionalOf s out
     | MovementArea \<Rightarrow> fractionalOf s out
     | ScreenArea \<Rightarrow> fractionalOf s out
     | WorkArea \<Rightarrow> (case map_of (m_workAreas s) d of None \<Rightarrow> irect_to_rectf (m_geometry s) | Some a \<Rightarrow> a)
     | FullArea \<Rightarrow> irect_to_rectf (m_geometry s))"

text \<open>The desktop that the overloads for a window take; \<open>current\<close> is the current one.\<close>

definition areaDesktop :: "vd \<Rightarrow> vd list \<Rightarrow> vd" where
  "areaDesktop current ds = (if ds = [] \<or> current \<in> set ds then current else last ds)"

definition clientAreaOn :: "work_areas \<Rightarrow> vd \<Rightarrow> client_area_option \<Rightarrow> vd list \<Rightarrow> outp \<Rightarrow> qrectf" where
  "clientAreaOn s current opt ds out = clientArea s opt out (areaDesktop current ds)"

definition clientAreaAt :: "work_areas \<Rightarrow> vd \<Rightarrow> client_area_option \<Rightarrow> vd list \<Rightarrow> qpointf \<Rightarrow> qrectf option" where
  "clientAreaAt s current opt ds pos = map_option (clientAreaOn s current opt ds) (outputAt s pos)"

text \<open>\<open>Workspace::adjustClientArea\<close>.\<close>

definition adjustClientArea :: "work_areas \<Rightarrow> area_window \<Rightarrow> qrectf \<Rightarrow> qrectf" where
  "adjustClientArea s w area =
     (let strut = (\<lambda>a. irect_to_rectf (srRect (strutRect s w a)));
          none = irect_to_rectf inullRect;
          screen = fractionalOf s (awOutput w);
          whole = (area = \<lparr>rectX = 0, rectY = 0, rectW = of_int (irectW (m_geometry s)), rectH = of_int (irectH (m_geometry s))\<rparr>);
          sl = strut StrutAreaLeft; sr = strut StrutAreaRight; st = strut StrutAreaTop; sb = strut StrutAreaBottom;
          sl = (if whole \<and> rleft sl < rleft screen then none else sl);
          sr = (if whole \<and> rright screen < rright sr then none else sr);
          st = (if whole \<and> rtop st < rtop screen then none else st);
          sb = (if whole \<and> rbottom screen < rbottom sb then none else sb);
          sl = setLeft (max (rleft sl) (rleft screen)) sl;
          sr = setRight (min (rright sr) (rright screen)) sr;
          st = setTop (max (rtop st) (rtop screen)) st;
          sb = setBottom (min (rbottom sb) (rbottom screen)) sb;
          adjusted = area;
          adjusted = (if rintersects sl area then setLeft (rright sl) adjusted else adjusted);
          adjusted = (if rintersects sr area then setRight (rleft sr) adjusted else adjusted);
          adjusted = (if rintersects st area then setTop (rbottom st) adjusted else adjusted)
      in if rintersects sb area then setBottom (rtop sb) adjusted else adjusted)"

text \<open>\<open>QHash::operator[]\<close> inserts a default value.\<close>

definition hashAt :: "'k \<Rightarrow> 'v \<Rightarrow> ('v \<Rightarrow> 'v) \<Rightarrow> ('k \<times> 'v) list \<Rightarrow> ('k \<times> 'v) list" where
  "hashAt k d f m = AList.update k (f (case map_of m k of None \<Rightarrow> d | Some v \<Rightarrow> v)) m"

definition sameHash :: "('k \<times> 'v) list \<Rightarrow> ('k \<times> 'v) list \<Rightarrow> bool" where
  "sameHash a b = list_all (\<lambda>k. map_of a k = map_of b k) (map fst a @ map fst b)"

text \<open>Two hashes of hashes.\<close>

definition sameHash2 :: "('k \<times> ('l \<times> 'v) list) list \<Rightarrow> ('k \<times> ('l \<times> 'v) list) list \<Rightarrow> bool" where
  "sameHash2 a b = list_all (\<lambda>k. case (map_of a k, map_of b k) of
       (Some x, Some y) \<Rightarrow> sameHash x y | (None, None) \<Rightarrow> True | _ \<Rightarrow> False) (map fst a @ map fst b)"

record area_hashes =
  workHash :: "(vd \<times> qrectf) list"
  restrictedHash :: "(vd \<times> strut_rect list) list"
  screenHash :: "(vd \<times> (outp \<times> qrectf) list) list"

text \<open>The loop over the outputs in \<open>updateClientArea\<close>; an area that a strut would use up is left.\<close>

definition shrinkArea :: "qrectf \<Rightarrow> qrectf \<Rightarrow> qrectf" where
  "shrinkArea adjusted area = (let geo = rintersected area adjusted in if rempty geo then area else geo)"

definition shrinkOutput :: "work_areas \<Rightarrow> area_window \<Rightarrow> vd \<Rightarrow> outp \<Rightarrow> (vd \<times> (outp \<times> qrectf) list) list \<Rightarrow> (vd \<times> (outp \<times> qrectf) list) list" where
  "shrinkOutput s w d p = hashAt d [] (hashAt p rnullRect (shrinkArea (adjustClientArea s w (fractionalOf s p))))"

definition shrinkDesktop :: "work_areas \<Rightarrow> area_window \<Rightarrow> qrectf \<Rightarrow> strut_rect list \<Rightarrow> bool \<Rightarrow> vd \<Rightarrow> area_hashes \<Rightarrow> area_hashes" where
  "shrinkDesktop s w r region offscreen d h = h\<lparr>
     workHash := (if offscreen then workHash h else hashAt d rnullRect (\<lambda>a. rintersected a r) (workHash h)),
     restrictedHash := hashAt d [] (\<lambda>l. l @ region) (restrictedHash h),
     screenHash := fold (shrinkOutput s w d) (m_outputs s) (screenHash h)\<rparr>"

text \<open>One strut window: its adjusted work area, whether it counts at all, and the clipped struts.\<close>

definition strutWorkArea :: "work_areas \<Rightarrow> area_window \<Rightarrow> qrectf" where
  "strutWorkArea s w = (let r = adjustClientArea s w (irect_to_rectf (m_geometry s)) in
     if list_ex (\<lambda>p. \<not> rintersects r (irect_to_rectf (geometryOf s p))) (m_outputs s) then irect_to_rectf (m_geometry s) else r)"

definition reserves :: "work_areas \<Rightarrow> area_window \<Rightarrow> bool" where
  "reserves s w \<longleftrightarrow> hasStrut s w \<and> rvalid (adjustClientArea s w (irect_to_rectf (m_geometry s)))"

definition clippedStruts :: "work_areas \<Rightarrow> area_window \<Rightarrow> strut_rect list" where
  "clippedStruts s w = filter (\<lambda>c. ivalid (srRect c))
     (map (\<lambda>c. c\<lparr>srRect := iintersected (srRect c) (geometryOf s (awOutput w))\<rparr>) (strutRects s w))"

definition addStruts :: "work_areas \<Rightarrow> vd list \<Rightarrow> area_window \<Rightarrow> area_hashes \<Rightarrow> area_hashes" where
  "addStruts s ds w h = (if \<not> reserves s w then h
     else fold (shrinkDesktop s w (strutWorkArea s w) (clippedStruts s w) (hasOffscreenXineramaStrut s w))
       (if awDesktops w = [] then ds else awDesktops w) h)"

definition initialAreas :: "work_areas \<Rightarrow> vd list \<Rightarrow> area_hashes" where
  "initialAreas s ds = \<lparr>workHash = map (\<lambda>d. (d, irect_to_rectf (m_geometry s))) ds, restrictedHash = [],
     screenHash = map (\<lambda>d. (d, map (\<lambda>p. (p, fractionalOf s p)) (m_outputs s))) ds\<rparr>"

definition updateClientArea :: "vd list \<Rightarrow> area_window list \<Rightarrow> bool \<Rightarrow> work_areas \<Rightarrow> work_areas" where
  "updateClientArea ds clients hasRootInfo s =
     (let h = fold (addStruts s ds) clients (initialAreas s ds)
      in if sameHash (m_workAreas s) (workHash h) \<and> sameHash (m_restrictedAreas s) (restrictedHash h)
           \<and> sameHash2 (m_screenAreas s) (screenHash h) then s
         else s\<lparr>m_workAreas := workHash h, m_screenAreas := screenHash h, m_oldRestrictedAreas := [],
            m_restrictedAreas := restrictedHash h,
            areaCalls := areaCalls s
              @ (if hasRootInfo then map (\<lambda>d. SetWorkArea d (case map_of (workHash h) d of None \<Rightarrow> rnullRect | Some a \<Rightarrow> a)) ds else [])
              @ concat (map (\<lambda>w. [CheckWorkspacePosition (awId w), SendWorkArea (awId w)]) clients)\<rparr>)"

text \<open>\<open>restrictedMoveArea\<close> with \<open>None\<close> for all areas.\<close>

definition restrictedMoveArea :: "work_areas \<Rightarrow> vd \<Rightarrow> strut_area set option \<Rightarrow> strut_rect list" where
  "restrictedMoveArea s d areas = (let strut = (case map_of (m_restrictedAreas s) d of None \<Rightarrow> [] | Some l \<Rightarrow> l)
     in case areas of None \<Rightarrow> strut | Some a \<Rightarrow> filter (\<lambda>r. srArea r \<in> a) strut)"

text \<open>The geometry of the workspace (\<open>desktopResized\<close>).\<close>

definition workspaceGeometry :: "work_areas \<Rightarrow> qrect" where
  "workspaceGeometry s = foldl (\<lambda>g p. iunited g (geometryOf s p)) inullRect (m_outputs s)"

end
