(* ===== verification/Area_Properties.thy ===== *)
theory Area_Properties
  imports Client_Areas
begin

text \<open>
  What the client areas are good for: they lie on their output, are never empty, and keep clear of the struts;
  the region arithmetic is subtraction of points; \<open>outputAt\<close> finds a nearest output.
\<close>

section \<open>Regions\<close>

definition ipoints :: "qrect \<Rightarrow> (int \<times> int) set" where
  "ipoints r = {(x, y). irectX r \<le> x \<and> x \<le> iright r \<and> irectY r \<le> y \<and> y \<le> ibottom r}"

definition regionPoints :: "qrect list \<Rightarrow> (int \<times> int) set" where
  "regionPoints rs = (\<Union>r \<in> set rs. ipoints r)"

lemma ipoints_empty: "ipoints r = {} \<longleftrightarrow> \<not> ivalid r"
proof
  assume e: "ipoints r = {}"
  show "\<not> ivalid r"
  proof
    assume "ivalid r"
    then have "(irectX r, irectY r) \<in> ipoints r" by (simp add: ipoints_def irect_ops)
    then show False using e by simp
  qed
qed (auto simp: ipoints_def irect_ops)

lemma regionPoints_filter [simp]: "regionPoints (filter ivalid rs) = regionPoints rs"
  using ipoints_empty by (auto simp: regionPoints_def)

lemma iminus_points: "regionPoints (iminus a b) = ipoints a - ipoints b"
proof (cases "iintersects a b")
  case False
  then have "ipoints a \<inter> ipoints b = {}" by (auto simp: ipoints_def iintersects_def irect_ops)
  then show ?thesis using False by (auto simp: iminus_def regionPoints_def ipoints_empty[symmetric])
next
  case True
  then show ?thesis
    by (auto simp: iminus_def Let_def regionPoints_def ipoints_def irect_ops iintersects_def)
qed

lemma regionMinus_points: "regionPoints (regionMinus rs b) = regionPoints rs - ipoints b"
proof -
  have "regionPoints (regionMinus rs b) = (\<Union>r \<in> set rs. regionPoints (iminus r b))"
    by (auto simp: regionMinus_def regionPoints_def)
  then show ?thesis unfolding iminus_points by (auto simp: regionPoints_def)
qed

lemma iminus_valid: "\<forall>r \<in> set (iminus a b). ivalid r"
  by (simp add: iminus_def Let_def)

lemma region_nonempty: "\<forall>r \<in> set rs. ivalid r \<Longrightarrow> rs \<noteq> [] \<longleftrightarrow> regionPoints rs \<noteq> {}"
  using ipoints_empty by (cases rs) (auto simp: regionPoints_def)

lemma regionMinus_all:
  assumes "\<forall>r \<in> set rs. ivalid r"
  shows "regionPoints (foldl (\<lambda>region p. regionMinus region (f p)) rs ps) = regionPoints rs - (\<Union>p \<in> set ps. ipoints (f p)) \<and>
    (\<forall>r \<in> set (foldl (\<lambda>region p. regionMinus region (f p)) rs ps). ivalid r)"
  using assms
proof (induction ps arbitrary: rs)
  case (Cons p ps)
  have "\<forall>r \<in> set (regionMinus rs (f p)). ivalid r" using iminus_valid by (fastforce simp: regionMinus_def)
  from Cons.IH[OF this] show ?case by (auto simp: regionMinus_points)
qed simp

text \<open>C32: a strut counts as off-screen exactly when one of its pixels lies on no output.\<close>

theorem area_offscreen_strut:
  "hasOffscreenXineramaStrut s w \<longleftrightarrow>
     \<not> regionPoints (map (\<lambda>a. srRect (strutRect s w a)) [StrutAreaTop, StrutAreaRight, StrutAreaBottom, StrutAreaLeft])
       \<subseteq> regionPoints (map (geometryOf s) (m_outputs s))"
proof -
  let ?rs = "map (\<lambda>a. srRect (strutRect s w a)) [StrutAreaTop, StrutAreaRight, StrutAreaBottom, StrutAreaLeft]"
  have v: "\<forall>r \<in> set (filter ivalid ?rs). ivalid r" by simp
  note all = regionMinus_all[OF v, of "\<lambda>p. geometryOf s p" "m_outputs s"]
  have "hasOffscreenXineramaStrut s w \<longleftrightarrow> regionPoints ?rs - (\<Union>p \<in> set (m_outputs s). ipoints (geometryOf s p)) \<noteq> {}"
    unfolding hasOffscreenXineramaStrut_def using all region_nonempty by (metis regionPoints_filter)
  then show ?thesis by (auto simp: regionPoints_def)
qed

section \<open>Nearest outputs\<close>

lemma nearestOutput_spec:
  "(case best of None \<Rightarrow> True | Some (p, m) \<Rightarrow> m = outputDistance (geometryOf s p) pos) \<Longrightarrow>
   nearestOutput s pos best ps = Some (q, d) \<Longrightarrow>
   d = outputDistance (geometryOf s q) pos \<and> (\<forall>p \<in> set ps. d \<le> outputDistance (geometryOf s p) pos) \<and>
   (case best of None \<Rightarrow> q \<in> set ps | Some (p, m) \<Rightarrow> d \<le> m \<and> (q = p \<or> q \<in> set ps))"
proof (induction ps arbitrary: best)
  case (Cons p ps)
  let ?d = "outputDistance (geometryOf s p) pos"
  let ?b = "case best of None \<Rightarrow> Some (p, ?d) | Some (_, m) \<Rightarrow> if ?d < m then Some (p, ?d) else best"
  have "case ?b of None \<Rightarrow> True | Some (p, m) \<Rightarrow> m = outputDistance (geometryOf s p) pos"
    using Cons.prems(1) by (auto split: option.splits)
  from Cons.IH[OF this] Cons.prems show ?case by (auto simp: Let_def split: option.splits if_splits)
qed auto

lemma nearestOutput_some: "best \<noteq> None \<or> ps \<noteq> [] \<Longrightarrow> nearestOutput s pos best ps \<noteq> None"
  by (induction ps arbitrary: best) (auto simp: Let_def split: option.split)

section \<open>Shrinking the areas\<close>

definition lookArea :: "(vd \<times> (outp \<times> qrectf) list) list \<Rightarrow> vd \<Rightarrow> outp \<Rightarrow> qrectf option" where
  "lookArea m d p = Option.bind (map_of m d) (\<lambda>h. map_of h p)"

lemma map_of_hashAt: "map_of (hashAt k d f m) j =
    (if j = k then Some (f (case map_of m k of None \<Rightarrow> d | Some v \<Rightarrow> v)) else map_of m j)"
  by (simp add: hashAt_def update_conv')

lemma lookArea_shrinkOutput:
  "lookArea (shrinkOutput s w d' p' m) d p = (if d = d' \<and> p = p'
     then Some (shrinkArea (adjustClientArea s w (fractionalOf s p)) (case lookArea m d p of None \<Rightarrow> rnullRect | Some a \<Rightarrow> a))
     else lookArea m d p)"
  by (auto simp: lookArea_def shrinkOutput_def map_of_hashAt split: option.split)

lemma rintersected_valid:
  assumes "rvalid a" "\<not> rempty (rintersected a b)"
  shows "rvalid (rintersected a b)" "rwithin (rintersected a b) a"
proof -
  have "rintersects a b" using assms(2) by (auto simp: rintersected_def rempty_def rnullRect_def split: if_splits)
  then have e: "rintersected a b = (let x = max (rectX a) (pointX (rlow b)); y = max (rectY a) (pointY (rlow b))
      in \<lparr>rectX = x, rectY = y, rectW = min (rright a) (pointX (rhigh b)) - x, rectH = min (rbottom a) (pointY (rhigh b)) - y\<rparr>)"
    using assms(1) by (simp add: rintersected_def rlow_def rhigh_def rect_ops max_def min_def)
  show "rvalid (rintersected a b)" using assms(2) by (simp add: rempty_def rvalid_def)
  show "rwithin (rintersected a b) a" unfolding e by (simp add: Let_def rwithin_def rright_def rbottom_def)
qed

lemma shrinkArea_within:
  assumes "rvalid a"
  shows "rvalid (shrinkArea b a)" "rwithin (shrinkArea b a) a"
  using assms rintersected_valid[OF assms, of b] by (simp_all add: shrinkArea_def Let_def)

text \<open>Within the normalized rectangle, or clear of it.\<close>

definition clears :: "qrectf \<Rightarrow> qrectf \<Rightarrow> bool" where
  "clears a b \<longleftrightarrow> \<not> rintersects a b \<or>
     (pointX (rlow b) \<le> rectX a \<and> rright a \<le> pointX (rhigh b) \<and> pointY (rlow b) \<le> rectY a \<and> rbottom a \<le> pointY (rhigh b))"

lemma shrinkArea_clears:
  assumes "rvalid a"
  shows "clears (shrinkArea b a) b"
proof (cases "rempty (rintersected a b)")
  case True
  have "\<not> rintersects a b"
  proof
    assume i: "rintersects a b"
    then have "\<not> rempty (rintersected a b)"
      using assms by (auto simp: rintersected_def rintersects_def Let_def rempty_def rect_ops rlow_def rhigh_def)
    then show False using True by simp
  qed
  then show ?thesis using True by (simp add: shrinkArea_def clears_def)
next
  case False
  then have i: "rintersects a b" by (auto simp: rintersected_def rempty_def rnullRect_def split: if_splits)
  show ?thesis using False i assms
    by (auto simp: shrinkArea_def Let_def clears_def rintersected_def rright_def rbottom_def)
qed

lemma rintersects_mono:
  assumes "rintersects a c" "rwithin a b" "rvalid a" "rvalid b"
  shows "rintersects b c"
  using assms by (auto simp: rintersects_def rwithin_def rlow_def rhigh_def rect_ops)

lemma clears_mono: "clears b c \<Longrightarrow> rwithin a b \<Longrightarrow> rvalid a \<Longrightarrow> rvalid b \<Longrightarrow> clears a c"
  using rintersects_mono[of a c b] by (auto simp: clears_def rwithin_def)

text \<open>The area of one desktop and output only gets smaller and stays valid.\<close>

definition shrinks :: "vd \<Rightarrow> outp \<Rightarrow> (vd \<times> (outp \<times> qrectf) list) list \<Rightarrow> (vd \<times> (outp \<times> qrectf) list) list \<Rightarrow> bool" where
  "shrinks d p m m' \<longleftrightarrow> (\<forall>a. lookArea m d p = Some a \<longrightarrow> rvalid a \<longrightarrow>
     (\<exists>b. lookArea m' d p = Some b \<and> rvalid b \<and> rwithin b a))"

lemma shrinks_refl [simp]: "shrinks d p m m"
  by (simp add: shrinks_def)

lemma shrinks_trans: "shrinks d p a b \<Longrightarrow> shrinks d p b c \<Longrightarrow> shrinks d p a c"
  unfolding shrinks_def using rwithin_trans by metis

lemma shrinks_output: "shrinks d p m (shrinkOutput s w d' p' m)"
  using shrinkArea_within by (auto simp: shrinks_def lookArea_shrinkOutput)

lemma shrinks_fold: "(\<And>x m. shrinks d p (g m) (g (f x m))) \<Longrightarrow> shrinks d p (g m) (g (fold f xs m))"
  by (induction xs arbitrary: m) (auto intro: shrinks_trans)

lemma shrinks_outputs: "shrinks d p m (fold (shrinkOutput s w d') ps m)"
  by (rule shrinks_fold[where g = "\<lambda>m. m" and f = "shrinkOutput s w d'", OF shrinks_output])

lemma shrinks_desktop: "shrinks d p (screenHash h) (screenHash (shrinkDesktop s w r reg off d' h))"
  using shrinks_outputs by (simp add: shrinkDesktop_def)

lemma shrinks_addStruts: "shrinks d p (screenHash h) (screenHash (addStruts s ds w h))"
  unfolding addStruts_def
  using shrinks_fold[where g = screenHash and f = "shrinkDesktop s w (strutWorkArea s w) (clippedStruts s w) (hasOffscreenXineramaStrut s w)",
      OF shrinks_desktop] by simp

lemma shrinks_all: "shrinks d p (screenHash h) (screenHash (fold (addStruts s ds) ws h))"
  by (rule shrinks_fold[where g = screenHash, OF shrinks_addStruts])

definition keepsClear :: "vd \<Rightarrow> outp \<Rightarrow> qrectf \<Rightarrow> (vd \<times> (outp \<times> qrectf) list) list \<Rightarrow> bool" where
  "keepsClear d p c m \<longleftrightarrow> (\<exists>a. lookArea m d p = Some a \<and> rvalid a \<and> clears a c)"

definition hasArea :: "vd \<Rightarrow> outp \<Rightarrow> (vd \<times> (outp \<times> qrectf) list) list \<Rightarrow> bool" where
  "hasArea d p m \<longleftrightarrow> (\<exists>a. lookArea m d p = Some a \<and> rvalid a)"

lemma shrinks_hasArea: "shrinks d p m m' \<Longrightarrow> hasArea d p m \<Longrightarrow> hasArea d p m'"
  unfolding shrinks_def hasArea_def by blast

lemma shrinks_keepsClear: "shrinks d p m m' \<Longrightarrow> keepsClear d p c m \<Longrightarrow> keepsClear d p c m'"
  unfolding shrinks_def keepsClear_def using clears_mono by metis

lemma touch_fold:
  assumes "x \<in> set xs" "hasArea d p (g m)" "\<And>x m. shrinks d p (g m) (g (f x m))"
    "\<And>m. hasArea d p (g m) \<Longrightarrow> keepsClear d p c (g (f x m))"
  shows "keepsClear d p c (g (fold f xs m))"
proof -
  obtain ys zs where xs: "xs = ys @ x # zs" using split_list[OF assms(1)] by blast
  note sh = shrinks_fold[where g = g and f = f, OF assms(3)]
  have "hasArea d p (g (fold f ys m))" by (rule shrinks_hasArea[OF sh assms(2)])
  then have "keepsClear d p c (g (f x (fold f ys m)))" by (rule assms(4))
  from shrinks_keepsClear[OF sh this] show ?thesis by (simp add: xs)
qed

lemma touch_output: "hasArea d p m \<Longrightarrow> keepsClear d p (adjustClientArea s w (fractionalOf s p)) (shrinkOutput s w d p m)"
  using shrinkArea_clears shrinkArea_within by (auto simp: hasArea_def keepsClear_def lookArea_shrinkOutput)

lemma touch_desktop:
  assumes "p \<in> set (m_outputs s)" "hasArea d p (screenHash h)"
  shows "keepsClear d p (adjustClientArea s w (fractionalOf s p)) (screenHash (shrinkDesktop s w r reg off d h))"
  unfolding shrinkDesktop_def
  using touch_fold[where g = "\<lambda>m. m" and f = "shrinkOutput s w d", OF assms(1,2) shrinks_output touch_output] by simp

lemma touch_window:
  assumes "p \<in> set (m_outputs s)" "hasArea d p (screenHash h)" "reserves s w" "d \<in> set ds"
    "awDesktops w = [] \<or> d \<in> set (awDesktops w)"
  shows "keepsClear d p (adjustClientArea s w (fractionalOf s p)) (screenHash (addStruts s ds w h))"
proof -
  let ?f = "shrinkDesktop s w (strutWorkArea s w) (clippedStruts s w) (hasOffscreenXineramaStrut s w)"
  let ?vds = "if awDesktops w = [] then ds else awDesktops w"
  have "d \<in> set ?vds" using assms(4,5) by auto
  from touch_fold[where g = screenHash and f = ?f, OF this assms(2) shrinks_desktop touch_desktop[OF assms(1)]]
  show ?thesis using assms(3) by (simp add: addStruts_def)
qed

lemma touch_all:
  assumes "p \<in> set (m_outputs s)" "hasArea d p (screenHash h)" "reserves s w" "d \<in> set ds"
    "awDesktops w = [] \<or> d \<in> set (awDesktops w)" "w \<in> set ws"
  shows "keepsClear d p (adjustClientArea s w (fractionalOf s p)) (screenHash (fold (addStruts s ds) ws h))"
  by (rule touch_fold[where g = screenHash and f = "addStruts s ds", OF assms(6,2) shrinks_addStruts])
    (rule touch_window[OF assms(1) _ assms(3-5)])

lemma map_of_const: "map_of (map (\<lambda>k. (k, f k)) ks) k = (if k \<in> set ks then Some (f k) else None)"
  by (induction ks) auto

lemma lookArea_initial:
  "d \<in> set ds \<Longrightarrow> p \<in> set (m_outputs s) \<Longrightarrow> lookArea (screenHash (initialAreas s ds)) d p = Some (fractionalOf s p)"
  by (simp add: lookArea_def initialAreas_def map_of_const)

lemma sameHash_map_of: "sameHash a b \<Longrightarrow> map_of a = map_of b"
proof
  fix k assume e: "sameHash a b"
  show "map_of a k = map_of b k"
  proof (cases "k \<in> set (map fst a @ map fst b)")
    case True
    then show ?thesis using e unfolding sameHash_def list_all_iff by blast
  next
    case False
    then have "map_of a k = None" "map_of b k = None" by (simp_all add: map_of_eq_None_iff)
    then show ?thesis by simp
  qed
qed

lemma sameHash2_look: "sameHash2 a b \<Longrightarrow> lookArea a d p = lookArea b d p"
proof -
  assume e: "sameHash2 a b"
  show ?thesis
  proof (cases "d \<in> set (map fst a @ map fst b)")
    case True
    then have "case (map_of a d, map_of b d) of (Some x, Some y) \<Rightarrow> sameHash x y | (None, None) \<Rightarrow> True | _ \<Rightarrow> False"
      using e unfolding sameHash2_def list_all_iff by blast
    then show ?thesis by (auto simp: lookArea_def sameHash_map_of split: option.splits)
  next
    case False
    then have "map_of a d = None" "map_of b d = None" by (simp_all add: map_of_eq_None_iff)
    then show ?thesis by (simp add: lookArea_def)
  qed
qed

lemma lookArea_updated:
  "lookArea (m_screenAreas (updateClientArea ds ws ri s)) d p = lookArea (screenHash (fold (addStruts s ds) ws (initialAreas s ds))) d p"
  using sameHash2_look by (auto simp: updateClientArea_def Let_def)

lemma clientArea_look: "lookArea (m_screenAreas s) d p = Some a \<Longrightarrow> clientArea s PlacementArea p d = a"
  by (auto simp: clientArea_def lookArea_def split: option.splits Option.bind_splits)


definition demo_output :: output_state where
  "demo_output = \<lparr>position = \<lparr>ipointX = 0, ipointY = 0\<rparr>, pixelWidth = 1366, pixelHeight = 768, outScale = 5 / 4\<rparr>"

definition demo_panel :: area_window where
  "demo_panel = \<lparr>awId = 7, awDesktops = [], awOutput = 0, awStrut = X11Client
     \<lparr>leftWidth = 0, leftStart = 0, leftEnd = 0, rightWidth = 0, rightStart = 0, rightEnd = 0, topWidth = 0, topStart = 0, topEnd = 0,
      bottomWidth = 40, bottomStart = 0, bottomEnd = 1093\<rparr> \<lparr>nsLeft = 0, nsRight = 0, nsTop = 0, nsBottom = 0\<rparr>\<rparr>"

definition demo_areas :: work_areas where
  "demo_areas = \<lparr>m_outputs = [0], outputState = (\<lambda>_. demo_output), m_geometry = outGeometry demo_output, m_workAreas = [],
     m_restrictedAreas = [], m_oldRestrictedAreas = [], m_screenAreas = [], areaCalls = []\<rparr>"


end
