(* ===== verification/Size_Constraints.thy ===== *)
theory Size_Constraints
  imports Rule_Book Client_Areas
begin

text \<open>
  Sizes of windows: the WM_NORMAL_HINTS of an X11 client (\<open>GeometryHints\<close> in \<open>src/src/utils/xcbutils.h\<close>), how a
  size is constrained by them and by window rules (\<open>constrainClientSize\<close>), the conversions between the frame and
  the client, and \<open>resizeWithChecks\<close>. A conversion to \<open>int\<close> of a number that is infinite, not a number or out
  of range is \<open>None\<close>.
\<close>

section \<open>Size hints\<close>

datatype size_flag = UserPosition | UserSize | ProgramPosition | ProgramSize | MinSizeFlag | MaxSizeFlag
  | ResizeIncrementsFlag | AspectFlag | BaseSizeFlag | WindowGravityFlag

record size_hints =
  hintFlags :: "size_flag list"
  minWidth :: int
  minHeight :: int
  maxWidth :: int
  maxHeight :: int
  widthInc :: int
  heightInc :: int
  minAspectNum :: int
  minAspectDen :: int
  maxAspectNum :: int
  maxAspectDen :: int
  baseWidth :: int
  baseHeight :: int
  winGravity :: int

text \<open>\<open>None\<close> when the property has not been read; \<open>xs\<close> is the scale of Xwayland.\<close>

type_synonym geometry_hints = "size_hints option"

definition testFlag :: "geometry_hints \<Rightarrow> size_flag \<Rightarrow> bool" where
  "testFlag g f = (case g of None \<Rightarrow> False | Some h \<Rightarrow> f \<in> set (hintFlags h))"

definition fromXNative :: "qreal \<Rightarrow> int \<Rightarrow> int \<Rightarrow> qsizef" where
  "fromXNative xs w h = \<lparr>sizeW = of_int w / xs, sizeH = of_int h / xs\<rparr>"

definition intMax :: int where "intMax = 2 ^ 31 - 1"

definition hintMaxSize :: "qreal \<Rightarrow> geometry_hints \<Rightarrow> qsizef" where
  "hintMaxSize xs g = (if \<not> testFlag g MaxSizeFlag then \<lparr>sizeW = of_int intMax, sizeH = of_int intMax\<rparr>
     else fromXNative xs (max (maxWidth (the g)) 1) (max (maxHeight (the g)) 1))"

definition hintBaseSize :: "qreal \<Rightarrow> geometry_hints \<Rightarrow> qsizef" where
  "hintBaseSize xs g = (if \<not> testFlag g BaseSizeFlag then \<lparr>sizeW = 0, sizeH = 0\<rparr>
     else fromXNative xs (baseWidth (the g)) (baseHeight (the g)))"

definition hintMinSize :: "qreal \<Rightarrow> geometry_hints \<Rightarrow> qsizef" where
  "hintMinSize xs g = (if \<not> testFlag g MinSizeFlag then hintBaseSize xs g
     else fromXNative xs (minWidth (the g)) (minHeight (the g)))"

definition hintIncrements :: "qreal \<Rightarrow> geometry_hints \<Rightarrow> qsizef" where
  "hintIncrements xs g = (if \<not> testFlag g ResizeIncrementsFlag then fromXNative xs 1 1
     else fromXNative xs (max (widthInc (the g)) 1) (max (heightInc (the g)) 1))"

definition hintGravity :: "geometry_hints \<Rightarrow> int" where
  "hintGravity g = (if \<not> testFlag g WindowGravityFlag then 1 else winGravity (the g))"

definition hintMinAspect :: "geometry_hints \<Rightarrow> int \<times> int" where
  "hintMinAspect g = (if \<not> testFlag g AspectFlag then (1, intMax) else (minAspectNum (the g), max (minAspectDen (the g)) 1))"

definition hintMaxAspect :: "geometry_hints \<Rightarrow> int \<times> int" where
  "hintMaxAspect g = (if \<not> testFlag g AspectFlag then (intMax, 1) else (maxAspectNum (the g), max (maxAspectDen (the g)) 1))"

section \<open>Windows and their sizes\<close>

record margins =
  marginLeft :: qreal
  marginTop :: qreal
  marginRight :: qreal
  marginBottom :: qreal

text \<open>What the functions read of a window; \<open>szX11\<close> tells an X11 window from a Wayland one, whose surface
  says the minimum and the maximum.\<close>

record sized_window =
  szX11 :: bool
  szDecorated :: bool
  szBorders :: margins
  szFrameExtents :: margins
  szHints :: geometry_hints
  szRules :: "rules list"
  szMinimum :: qsizef
  szMaximum :: qsizef
  szFullScreen :: bool
  szKeepAbove :: bool
  szDesktops :: "vd list"
  szOutput :: outp

text \<open>\<open>borderLeft\<close> and the like are 0 without a decoration.\<close>

definition borders :: "sized_window \<Rightarrow> margins" where
  "borders z = (if szDecorated z then szBorders z else \<lparr>marginLeft = 0, marginTop = 0, marginRight = 0, marginBottom = 0\<rparr>)"

definition minSize :: "qreal \<Rightarrow> sized_window \<Rightarrow> qsizef" where
  "minSize xs z = checkRules (applyForceRule vSizeF RMinSize) (szRules z)
     (if szX11 z then hintMinSize xs (szHints z) else szMinimum z)"

definition maxSize :: "qreal \<Rightarrow> sized_window \<Rightarrow> qsizef" where
  "maxSize xs z = checkRules (applyForceRule vSizeF RMaxSize) (szRules z)
     (if szX11 z then hintMaxSize xs (szHints z) else szMaximum z)"

definition resizeIncrements :: "qreal \<Rightarrow> sized_window \<Rightarrow> qsizef" where
  "resizeIncrements xs z = (if szX11 z then hintIncrements xs (szHints z) else \<lparr>sizeW = 1, sizeH = 1\<rparr>)"

definition x11FrameSizeToClientSize :: "sized_window \<Rightarrow> qsizef \<Rightarrow> qsizef" where
  "x11FrameSizeToClientSize z s = (if szDecorated z
     then (let b = borders z in \<lparr>sizeW = sizeW s - (marginLeft b + marginRight b), sizeH = sizeH s - (marginTop b + marginBottom b)\<rparr>)
     else (let e = szFrameExtents z in \<lparr>sizeW = sizeW s + (marginLeft e + marginRight e), sizeH = sizeH s + (marginTop e + marginBottom e)\<rparr>))"

definition x11ClientSizeToFrameSize :: "sized_window \<Rightarrow> qsizef \<Rightarrow> qsizef" where
  "x11ClientSizeToFrameSize z s = (if szDecorated z
     then (let b = borders z in \<lparr>sizeW = sizeW s + (marginLeft b + marginRight b), sizeH = sizeH s + (marginTop b + marginBottom b)\<rparr>)
     else (let e = szFrameExtents z in \<lparr>sizeW = sizeW s - (marginLeft e + marginRight e), sizeH = sizeH s - (marginTop e + marginBottom e)\<rparr>))"

definition x11FramePosToClientPos :: "sized_window \<Rightarrow> qpointf \<Rightarrow> qpointf" where
  "x11FramePosToClientPos z p = (if szDecorated z
     then \<lparr>pointX = pointX p + marginLeft (borders z), pointY = pointY p + marginTop (borders z)\<rparr>
     else \<lparr>pointX = pointX p - marginLeft (szFrameExtents z), pointY = pointY p - marginTop (szFrameExtents z)\<rparr>)"

definition x11ClientPosToFramePos :: "sized_window \<Rightarrow> qpointf \<Rightarrow> qpointf" where
  "x11ClientPosToFramePos z p = (if szDecorated z
     then \<lparr>pointX = pointX p - marginLeft (borders z), pointY = pointY p - marginTop (borders z)\<rparr>
     else \<lparr>pointX = pointX p + marginLeft (szFrameExtents z), pointY = pointY p + marginTop (szFrameExtents z)\<rparr>)"

definition frameSizeToClientSize :: "sized_window \<Rightarrow> qsizef \<Rightarrow> qsizef" where
  "frameSizeToClientSize z s = (if szX11 z then x11FrameSizeToClientSize z s
     else \<lparr>sizeW = sizeW s - marginLeft (borders z) - marginRight (borders z),
           sizeH = sizeH s - marginTop (borders z) - marginBottom (borders z)\<rparr>)"

definition clientSizeToFrameSize :: "sized_window \<Rightarrow> qsizef \<Rightarrow> qsizef" where
  "clientSizeToFrameSize z s = (if szX11 z then x11ClientSizeToFrameSize z s
     else \<lparr>sizeW = sizeW s + marginLeft (borders z) + marginRight (borders z),
           sizeH = sizeH s + marginTop (borders z) + marginBottom (borders z)\<rparr>)"

definition framePosToClientPos :: "sized_window \<Rightarrow> qpointf \<Rightarrow> qpointf" where
  "framePosToClientPos z p = (if szX11 z then x11FramePosToClientPos z p
     else \<lparr>pointX = pointX p + marginLeft (borders z), pointY = pointY p + marginTop (borders z)\<rparr>)"

definition clientPosToFramePos :: "sized_window \<Rightarrow> qpointf \<Rightarrow> qpointf" where
  "clientPosToFramePos z p = (if szX11 z then x11ClientPosToFramePos z p
     else \<lparr>pointX = pointX p - marginLeft (borders z), pointY = pointY p - marginTop (borders z)\<rparr>)"

definition frameRectToClientRect :: "sized_window \<Rightarrow> qrectf \<Rightarrow> qrectf" where
  "frameRectToClientRect z r = rectOf (framePosToClientPos z (rtopLeft r)) (frameSizeToClientSize z (rsize r))"

definition clientRectToFrameRect :: "sized_window \<Rightarrow> qrectf \<Rightarrow> qrectf" where
  "clientRectToFrameRect z r = rectOf (clientPosToFramePos z (rtopLeft r)) (clientSizeToFrameSize z (rsize r))"

section \<open>Constraining a size\<close>

datatype size_mode = SizeModeAny | SizeModeFixedW | SizeModeFixedH | SizeModeMax

definition toInt :: "qreal \<Rightarrow> int option" where
  "toInt x = (let n = trunc_int x in if - (2 ^ 31) \<le> n \<and> n \<le> intMax then Some n else None)"

definition divReal :: "qreal \<Rightarrow> qreal \<Rightarrow> qreal option" where
  "divReal a b = (if b = 0 then None else Some (a / b))"

text \<open>\<open>int delta = int(x) / inc * inc\<close>: the division is one of \<open>qreal\<close>s.\<close>

definition aspectDelta :: "qreal \<Rightarrow> qreal \<Rightarrow> qreal option" where
  "aspectDelta x inc = do { n \<leftarrow> toInt x; d \<leftarrow> toInt (of_int n / inc * inc); Some (of_int d) }"

record aspect =
  minAW :: qreal
  minAH :: qreal
  maxAW :: qreal
  maxAH :: qreal
  incW :: qreal
  incH :: qreal
  minClientW :: qreal
  minClientH :: qreal
  maxClientW :: qreal
  maxClientH :: qreal

definition growW :: "aspect \<Rightarrow> qreal \<times> qreal \<Rightarrow> (qreal \<times> qreal) option" where
  "growW a s = (case s of (w, h) \<Rightarrow> do {
     x \<leftarrow> divReal (minAW a * h) (minAH a);
     d \<leftarrow> aspectDelta (x - w) (incW a);
     Some (if w + d \<le> maxClientW a then (w + d, h) else (w, h)) })"

definition growH :: "aspect \<Rightarrow> qreal \<times> qreal \<Rightarrow> (qreal \<times> qreal) option" where
  "growH a s = (case s of (w, h) \<Rightarrow> do {
     x \<leftarrow> divReal (w * maxAH a) (maxAW a);
     d \<leftarrow> aspectDelta (x - h) (incH a);
     Some (if h + d \<le> maxClientH a then (w, h + d) else (w, h)) })"

definition tooNarrow :: "aspect \<Rightarrow> qreal \<times> qreal \<Rightarrow> bool" where
  "tooNarrow a s \<longleftrightarrow> minAH a * fst s < minAW a * snd s"

definition tooWide :: "aspect \<Rightarrow> qreal \<times> qreal \<Rightarrow> bool" where
  "tooWide a s \<longleftrightarrow> maxAW a * snd s < maxAH a * fst s"

definition aspectGrowW :: "aspect \<Rightarrow> qreal \<times> qreal \<Rightarrow> (qreal \<times> qreal) option" where
  "aspectGrowW a s = (if tooNarrow a s then growW a s else Some s)"

definition aspectGrowH :: "aspect \<Rightarrow> qreal \<times> qreal \<Rightarrow> (qreal \<times> qreal) option" where
  "aspectGrowH a s = (if tooWide a s then growH a s else Some s)"

definition aspectShrinkHGrowW :: "aspect \<Rightarrow> qreal \<times> qreal \<Rightarrow> (qreal \<times> qreal) option" where
  "aspectShrinkHGrowW a s = (if tooNarrow a s then (case s of (w, h) \<Rightarrow> do {
     x \<leftarrow> divReal (w * minAH a) (minAW a);
     d \<leftarrow> aspectDelta (h - x) (incH a);
     if minClientH a \<le> h - d then Some (w, h - d) else growW a s }) else Some s)"

definition aspectShrinkWGrowH :: "aspect \<Rightarrow> qreal \<times> qreal \<Rightarrow> (qreal \<times> qreal) option" where
  "aspectShrinkWGrowH a s = (if tooWide a s then (case s of (w, h) \<Rightarrow> do {
     x \<leftarrow> divReal (maxAW a * h) (maxAH a);
     d \<leftarrow> aspectDelta (w - x) (incW a);
     if minClientW a \<le> w - d then Some (w - d, h) else growH a s }) else Some s)"

definition aspectChecks :: "size_mode \<Rightarrow> aspect \<Rightarrow> qreal \<times> qreal \<Rightarrow> (qreal \<times> qreal) option" where
  "aspectChecks mode a s = (case mode of
       SizeModeFixedH \<Rightarrow> do {
         s \<leftarrow> aspectGrowW a s; s \<leftarrow> aspectShrinkWGrowH a s; s \<leftarrow> aspectShrinkHGrowW a s; aspectGrowH a s }
     | SizeModeMax \<Rightarrow> do {
         s \<leftarrow> aspectShrinkHGrowW a s; s \<leftarrow> aspectShrinkWGrowH a s; s \<leftarrow> aspectGrowW a s; aspectGrowH a s }
     | _ \<Rightarrow> do {
         s \<leftarrow> aspectGrowH a s; s \<leftarrow> aspectShrinkHGrowW a s; s \<leftarrow> aspectShrinkWGrowH a s; aspectGrowW a s })"

text \<open>The minimum of a decorated X11 window is at least the size of its borders.\<close>

definition x11MinSize :: "qreal \<Rightarrow> sized_window \<Rightarrow> qsizef" where
  "x11MinSize xs z = (let m = minSize xs z in if szDecorated z
     then (let b = borders z; dw = max 0 (marginLeft b + marginRight b); dh = max 0 (marginTop b + marginBottom b)
       in \<lparr>sizeW = max (sizeW m) dw, sizeH = max (sizeH m) dh\<rparr>)
     else m)"

definition withinHints :: "qreal \<Rightarrow> sized_window \<Rightarrow> qsizef \<Rightarrow> qsizef" where
  "withinHints xs z s = expandedTo (x11MinSize xs z) (boundedTo (maxSize xs z) (expandedTo s \<lparr>sizeW = 1, sizeH = 1\<rparr>))"

definition strictGeometry :: "sized_window \<Rightarrow> bool" where
  "strictGeometry z = checkRules (applyForceRule vBool RStrictGeometry) (szRules z) (\<not> szFullScreen z)"

definition incrementBase :: "qreal \<Rightarrow> sized_window \<Rightarrow> qsizef" where
  "incrementBase xs z = (if testFlag (szHints z) BaseSizeFlag then hintBaseSize xs (szHints z) else hintMinSize xs (szHints z))"

definition onGrid :: "qreal \<Rightarrow> qreal \<Rightarrow> qreal \<Rightarrow> qreal" where
  "onGrid base inc v = of_int \<lfloor>(v - base) / inc\<rfloor> * inc + base"

definition aspectOf :: "qreal \<Rightarrow> sized_window \<Rightarrow> aspect" where
  "aspectOf xs z = (let g = szHints z; base = hintBaseSize xs g; inc = hintIncrements xs g; mn = x11MinSize xs z; mx = maxSize xs z
     in \<lparr>minAW = of_int (fst (hintMinAspect g)), minAH = of_int (snd (hintMinAspect g)),
         maxAW = of_int (fst (hintMaxAspect g)), maxAH = of_int (snd (hintMaxAspect g)),
         incW = sizeW inc, incH = sizeH inc,
         minClientW = sizeW mn - sizeW base, minClientH = sizeH mn - sizeH base,
         maxClientW = sizeW mx - sizeW base, maxClientH = sizeH mx - sizeH base\<rparr>)"

definition x11ConstrainClientSize :: "qreal \<Rightarrow> sized_window \<Rightarrow> qsizef \<Rightarrow> size_mode \<Rightarrow> qsizef option" where
  "x11ConstrainClientSize xs z sz mode =
     (let s = withinHints xs z sz; g = szHints z; inc = hintIncrements xs g; ib = incrementBase xs z
      in if \<not> strictGeometry z then Some s
      else (let w = onGrid (sizeW ib) (sizeW inc) (sizeW s); h = onGrid (sizeH ib) (sizeH inc) (sizeH s)
        in if \<not> testFlag g AspectFlag then Some \<lparr>sizeW = w, sizeH = h\<rparr>
        else do {
          let base = hintBaseSize xs g;
          (w, h) \<leftarrow> aspectChecks mode (aspectOf xs z) (w - sizeW base, h - sizeH base);
          Some \<lparr>sizeW = w + sizeW base, sizeH = h + sizeH base\<rparr> }))"

text \<open>\<open>std::clamp\<close> asserts that its bounds are ordered.\<close>

definition constrainClientSize :: "qreal \<Rightarrow> sized_window \<Rightarrow> qsizef \<Rightarrow> size_mode \<Rightarrow> qsizef option" where
  "constrainClientSize xs z sz mode = (if szX11 z then x11ConstrainClientSize xs z sz mode
     else (let mn = minSize xs z; mx = maxSize xs z; s = expandedTo sz \<lparr>sizeW = 1, sizeH = 1\<rparr>
       in do {
         assertThat (sizeW mn \<le> sizeW mx \<and> sizeH mn \<le> sizeH mx);
         Some \<lparr>sizeW = clampTo (sizeW mn) (sizeW mx) (sizeW s), sizeH = clampTo (sizeH mn) (sizeH mx) (sizeH s)\<rparr> }))"

definition constrainFrameSize :: "qreal \<Rightarrow> sized_window \<Rightarrow> qsizef \<Rightarrow> size_mode \<Rightarrow> qsizef option" where
  "constrainFrameSize xs z sz mode = do {
     s \<leftarrow> constrainClientSize xs z (frameSizeToClientSize z sz) mode;
     Some (clientSizeToFrameSize z s) }"

section \<open>Resizing\<close>

text \<open>What stays in place when the size changes.\<close>

definition gravitate :: "int \<Rightarrow> qrectf \<Rightarrow> qsizef \<Rightarrow> qpointf" where
  "gravitate gravity r s =
     (let x = rectX r; y = rectY r; centerX = x + rectW r / 2 - sizeW s / 2; centerY = y + rectH r / 2 - sizeH s / 2;
          rightX = x + rectW r - sizeW s; bottomY = y + rectH r - sizeH s
      in if gravity = 2 then \<lparr>pointX = centerX, pointY = y\<rparr>
         else if gravity = 3 then \<lparr>pointX = rightX, pointY = y\<rparr>
         else if gravity = 4 then \<lparr>pointX = x, pointY = centerY\<rparr>
         else if gravity = 5 then \<lparr>pointX = centerX, pointY = centerY\<rparr>
         else if gravity = 6 then \<lparr>pointX = rightX, pointY = centerY\<rparr>
         else if gravity = 7 then \<lparr>pointX = x, pointY = bottomY\<rparr>
         else if gravity = 8 then \<lparr>pointX = centerX, pointY = bottomY\<rparr>
         else if gravity = 9 then \<lparr>pointX = rightX, pointY = bottomY\<rparr>
         else \<lparr>pointX = x, pointY = y\<rparr>)"

definition x11ResizeWithChecks :: "work_areas \<Rightarrow> vd \<Rightarrow> qreal \<Rightarrow> sized_window \<Rightarrow> qrectf \<Rightarrow> qsizef \<Rightarrow> int \<Rightarrow> qrectf option" where
  "x11ResizeWithChecks A cur xs z geometry sz gravity = do {
     area \<leftarrow> clientAreaAt A cur WorkArea (szDesktops z) (rcenter geometry);
     let area = (if szKeepAbove z then clientAreaOn A cur FullArea (szDesktops z) (szOutput z) else area);
     s \<leftarrow> constrainFrameSize xs z (boundedTo sz (rsize area)) SizeModeAny;
     let gravity = (if gravity = 0 then hintGravity (szHints z) else gravity);
     Some (rectOf (gravitate gravity geometry s) s) }"

definition resizeWithChecks :: "work_areas \<Rightarrow> vd \<Rightarrow> qreal \<Rightarrow> sized_window \<Rightarrow> qrectf \<Rightarrow> qsizef \<Rightarrow> qrectf option" where
  "resizeWithChecks A cur xs z geometry sz = (if szX11 z then x11ResizeWithChecks A cur xs z geometry sz 0
     else do {
       area \<leftarrow> clientAreaAt A cur WorkArea (szDesktops z) (rcenter geometry);
       Some (rectOf (rtopLeft geometry) (boundedTo sz (rsize area))) })"

text \<open>\<open>Window::keepInArea\<close>; \<open>moving\<close> is the current \<open>moveResizeGeometry\<close>.\<close>

definition keepInArea :: "work_areas \<Rightarrow> vd \<Rightarrow> qreal \<Rightarrow> sized_window \<Rightarrow> qrectf \<Rightarrow> qrectf \<Rightarrow> qrectf \<Rightarrow> bool \<Rightarrow> qrectf option" where
  "keepInArea A cur xs z moving geometry area partial = do {
     let area = (if partial then
         (let a = setLeft (min (rleft area - rectW moving + 100) (rleft area)) area;
              a = setTop (min (rtop a - rectH moving + 100) (rtop a)) a;
              a = setRight (max (rright a + rectW moving - 100) (rright a)) a
          in setBottom (max (rbottom a + rectH moving - 100) (rbottom a)) a)
       else area);
     g \<leftarrow> (if \<not> partial \<and> (rectW area < rectW geometry \<or> rectH area < rectH geometry)
       then resizeWithChecks A cur xs z geometry (boundedTo (rsize geometry) (rsize area)) else Some geometry);
     let g = (if rright area < rright g \<and> rectW g \<le> rectW area then moveRight (rright area) g else g);
     let g = (if rbottom area < rbottom g \<and> rectH g \<le> rectH area then moveBottom (rbottom area) g else g);
     let g = (if rleft g < rleft area then moveLeft (rleft area) g else g);
     Some (if rtop g < rtop area then moveTop (rtop area) g else g) }"

end
