(* ===== verification/Window_Moves.thy ===== *)
theory Window_Moves
  imports Size_Constraints
begin

text \<open>
  Moving and resizing windows (\<open>src/src/window.cpp\<close>): the geometry that is asked for, the updates that can be
  blocked, and what an X11 window (\<open>x11window.cpp\<close>) and an xdg-shell window (\<open>xdgshellwindow.cpp\<close>,
  \<open>waylandwindow.cpp\<close>) make of it. Calls to other objects and signals are appended to \<open>mwCalls\<close>.
\<close>

datatype move_mode = ModeNone | ModeMove | ModeResize | ModeMoveResize

definition orMode :: "move_mode \<Rightarrow> move_mode \<Rightarrow> move_mode" where
  "orMode a b = (if a = ModeNone then b else if b = ModeNone then a else if a = b then a else ModeMoveResize)"

datatype geo_call = GeometryAboutToChange | UpdateServerGeometry | RulesUpdated | SetActiveOutput "outp option"
  | StackingOrderUpdated | BufferGeometryChanged qrectf | ClientGeometryChanged qrectf | FrameGeometryChanged qrectf
  | ScreenChanged | GeometryShapeChanged qrectf | ScheduleConfigure | PlaceholderGeometry qrect

record moving_window =
  mwSized :: sized_window
  mwShade :: bool
  mwShadeGeometryChange :: bool
  mwActive :: bool
  mwToplevel :: bool
  mwTakenOver :: bool
  mwSurfaceSize :: qsizef
  mwWindowGeometry :: qrectf
  mwFrame :: qrectf
  mwClient :: qrectf
  mwBuffer :: qrectf
  mwLastFrame :: qrectf
  mwLastClient :: qrectf
  mwLastBuffer :: qrectf
  mwOutput :: "outp option"
  mwLastOutput :: "outp option"
  mwMoving :: qrectf
  mwMoveOutput :: "outp option"
  mwBlocked :: int
  mwPending :: move_mode
  mwConfigurePosition :: bool
  mwQueuedPositions :: "bool list"
  mwCalls :: "geo_call list"

definition geoCalls :: "geo_call list \<Rightarrow> moving_window \<Rightarrow> moving_window" where
  "geoCalls cs w = w\<lparr>mwCalls := mwCalls w @ cs\<rparr>"

definition changed :: "'a \<Rightarrow> 'a \<Rightarrow> ('a \<Rightarrow> geo_call) \<Rightarrow> geo_call list" where
  "changed old new c = (if old \<noteq> new then [c old] else [])"

section \<open>X11\<close>

text \<open>\<open>std::round\<close> rounds halves away from zero.\<close>

definition roundAway :: "qreal \<Rightarrow> int" where
  "roundAway x = (if 0 \<le> x then \<lfloor>x + 1 / 2\<rfloor> else \<lceil>x - 1 / 2\<rceil>)"

definition nativeRect :: "qreal \<Rightarrow> qrectf \<Rightarrow> qrectf" where
  "nativeRect xs r = (let f = (\<lambda>v. of_int (roundAway (xs * v)) / xs)
     in \<lparr>rectX = f (rectX r), rectY = f (rectY r), rectW = f (rectW r), rectH = f (rectH r)\<rparr>)"

definition x11FrameRectToBufferRect :: "sized_window \<Rightarrow> qrectf \<Rightarrow> qrectf" where
  "x11FrameRectToBufferRect z r = (if szDecorated z then r else frameRectToClientRect z r)"

text \<open>The frame and the client geometry; a shaded window only shows its borders.\<close>

definition x11Geometries :: "moving_window \<Rightarrow> qrectf \<Rightarrow> qrectf \<times> qrectf" where
  "x11Geometries w frame = (let z = mwSized w; bordersH = marginTop (borders z) + marginBottom (borders z) in
     if mwShadeGeometryChange w then (frame, mwClient w)
     else if mwShade w then (if rectH frame = bordersH then (frame, mwClient w)
       else (frame\<lparr>rectH := bordersH\<rparr>, frameRectToClientRect z frame))
     else (frame, frameRectToClientRect z frame))"

definition x11MoveResizeInternal :: "work_areas \<Rightarrow> qreal \<Rightarrow> qrectf \<Rightarrow> move_mode \<Rightarrow> moving_window \<Rightarrow> moving_window" where
  "x11MoveResizeInternal A xs rect mode w =
     (let (frame, client) = x11Geometries w (nativeRect xs rect);
          buffer = x11FrameRectToBufferRect (mwSized w) frame;
          w = w\<lparr>mwFrame := frame, mwClient := client, mwBuffer := buffer\<rparr>
      in if mwPending w = ModeNone \<and> mwLastBuffer w = buffer \<and> mwLastFrame w = frame \<and> mwLastClient w = client then w
      else (let w = w\<lparr>mwOutput := outputAt A (rcenter frame)\<rparr> in
        if mwBlocked w \<noteq> 0 then w\<lparr>mwPending := orMode (mwPending w) mode\<rparr>
        else geoCalls
          ([GeometryAboutToChange, UpdateServerGeometry, RulesUpdated]
            @ (if mwActive w then [SetActiveOutput (mwOutput w)] else [])
            @ [StackingOrderUpdated]
            @ changed (mwLastBuffer w) buffer BufferGeometryChanged
            @ changed (mwLastClient w) client ClientGeometryChanged
            @ changed (mwLastFrame w) frame FrameGeometryChanged
            @ (if mwLastOutput w \<noteq> mwOutput w then [ScreenChanged] else [])
            @ [GeometryShapeChanged (mwLastFrame w)])
          (w\<lparr>mwLastFrame := frame, mwLastClient := client, mwLastBuffer := buffer, mwLastOutput := mwOutput w\<rparr>)))"

section \<open>Wayland\<close>

definition xdgFrameRectToBufferRect :: "moving_window \<Rightarrow> qrectf \<Rightarrow> qrectf" where
  "xdgFrameRectToBufferRect w r =
     \<lparr>rectX = of_int (trunc_int (rleft r + marginLeft (borders (mwSized w)) - rleft (mwWindowGeometry w))),
      rectY = of_int (trunc_int (rtop r + marginTop (borders (mwSized w)) - rtop (mwWindowGeometry w))),
      rectW = sizeW (mwSurfaceSize w), rectH = sizeH (mwSurfaceSize w)\<rparr>"

definition updateGeometry :: "work_areas \<Rightarrow> qrectf \<Rightarrow> moving_window \<Rightarrow> moving_window" where
  "updateGeometry A rect w =
     (let client = frameRectToClientRect (mwSized w) rect; buffer = xdgFrameRectToBufferRect w rect;
          old = w; w = w\<lparr>mwFrame := rect, mwClient := client, mwBuffer := buffer\<rparr>
      in if mwClient old = client \<and> mwFrame old = rect \<and> mwBuffer old = buffer then w
      else (let w = w\<lparr>mwOutput := outputAt A (rcenter rect)\<rparr>
        in geoCalls ([RulesUpdated]
            @ changed (mwBuffer old) buffer BufferGeometryChanged
            @ changed (mwClient old) client ClientGeometryChanged
            @ changed (mwFrame old) rect FrameGeometryChanged
            @ (if mwOutput old \<noteq> mwOutput w then [ScreenChanged] else [])
            @ [GeometryShapeChanged (mwFrame old)]) w))"

definition xdgMoveResizeInternal :: "work_areas \<Rightarrow> qrectf \<Rightarrow> move_mode \<Rightarrow> moving_window \<Rightarrow> moving_window" where
  "xdgMoveResizeInternal A rect mode w =
     (if mwBlocked w \<noteq> 0 then w\<lparr>mwPending := orMode (mwPending w) mode\<rparr>
      else (let w = geoCalls [GeometryAboutToChange] w in
        if mode \<noteq> ModeMove
        then (if frameSizeToClientSize (mwSized w) (rsize rect) = rsize (mwClient w) then updateGeometry A rect w
              else geoCalls [ScheduleConfigure] (w\<lparr>mwConfigurePosition := True\<rparr>))
        else (let w = w\<lparr>mwConfigurePosition := False, mwQueuedPositions := map (\<lambda>_. False) (mwQueuedPositions w)\<rparr> in
          if rsize (mwFrame w) \<noteq> rsize rect \<and> mwToplevel w then w
          else updateGeometry A (rectOf (rtopLeft rect) (rsize (mwFrame w))) w)))"

section \<open>Moving and resizing\<close>

definition moveResizeInternal :: "work_areas \<Rightarrow> qreal \<Rightarrow> qrectf \<Rightarrow> move_mode \<Rightarrow> moving_window \<Rightarrow> moving_window" where
  "moveResizeInternal A xs rect mode w =
     (if szX11 (mwSized w) then x11MoveResizeInternal A xs rect mode w else xdgMoveResizeInternal A rect mode w)"

definition setMoveResizeGeometry :: "work_areas \<Rightarrow> qrectf \<Rightarrow> moving_window \<Rightarrow> moving_window" where
  "setMoveResizeGeometry A geo w = w\<lparr>mwMoving := geo, mwMoveOutput := outputAt A (rcenter geo)\<rparr>"

definition requestGeometry :: "work_areas \<Rightarrow> qreal \<Rightarrow> qrectf \<Rightarrow> move_mode \<Rightarrow> moving_window \<Rightarrow> moving_window" where
  "requestGeometry A xs rect mode w = (let w = setMoveResizeGeometry A rect w
     in if mwTakenOver w then geoCalls [PlaceholderGeometry (rtoRect rect)] w else moveResizeInternal A xs rect mode w)"

definition moveWindow :: "work_areas \<Rightarrow> qreal \<Rightarrow> qpointf \<Rightarrow> moving_window \<Rightarrow> moving_window" where
  "moveWindow A xs point w = requestGeometry A xs (rectOf point (rsize (mwMoving w))) ModeMove w"

definition resizeWindow :: "work_areas \<Rightarrow> qreal \<Rightarrow> qsizef \<Rightarrow> moving_window \<Rightarrow> moving_window" where
  "resizeWindow A xs s w = requestGeometry A xs (rectOf (rtopLeft (mwMoving w)) s) ModeResize w"

definition moveResizeWindow :: "work_areas \<Rightarrow> qreal \<Rightarrow> qrectf \<Rightarrow> moving_window \<Rightarrow> moving_window" where
  "moveResizeWindow A xs rect w = requestGeometry A xs rect ModeMoveResize w"

definition blockGeometryUpdates :: "work_areas \<Rightarrow> qreal \<Rightarrow> bool \<Rightarrow> moving_window \<Rightarrow> moving_window" where
  "blockGeometryUpdates A xs block w =
     (if block then (let w = (if mwBlocked w = 0 then w\<lparr>mwPending := ModeNone\<rparr> else w) in w\<lparr>mwBlocked := mwBlocked w + 1\<rparr>)
      else (let w = w\<lparr>mwBlocked := mwBlocked w - 1\<rparr> in
        if mwBlocked w = 0 \<and> mwPending w \<noteq> ModeNone
        then (moveResizeInternal A xs (mwMoving w) (mwPending w) w)\<lparr>mwPending := ModeNone\<rparr> else w))"

definition keepWindowInArea :: "work_areas \<Rightarrow> vd \<Rightarrow> qreal \<Rightarrow> qrectf \<Rightarrow> bool \<Rightarrow> moving_window \<Rightarrow> moving_window option" where
  "keepWindowInArea A cur xs area partial w = do {
     g \<leftarrow> keepInArea A cur xs (mwSized w) (mwMoving w) (mwMoving w) area partial;
     Some (moveResizeWindow A xs g w) }"

end
