(* ===== verification/Move_Properties.thy ===== *)
theory Move_Properties
  imports Window_Moves Size_Properties
begin

text \<open>
  Blocking the geometry updates of an X11 window, changing its geometry any number of times and unblocking has the
  effect of the same changes without the block: only the signals are fewer.
\<close>

datatype geo_op = Move qpointf | Resize qsizef | MoveResize qrectf

definition applyOp :: "work_areas \<Rightarrow> qreal \<Rightarrow> geo_op \<Rightarrow> moving_window \<Rightarrow> moving_window" where
  "applyOp A xs g w = (case g of Move p \<Rightarrow> moveWindow A xs p w | Resize s \<Rightarrow> resizeWindow A xs s w
     | MoveResize r \<Rightarrow> moveResizeWindow A xs r w)"

text \<open>The geometry an operation asks for, given the one asked for before, and its mode.\<close>

definition target :: "geo_op \<Rightarrow> qrectf \<Rightarrow> qrectf" where
  "target g r = (case g of Move p \<Rightarrow> rectOf p (rsize r) | Resize s \<Rightarrow> rectOf (rtopLeft r) s | MoveResize r' \<Rightarrow> r')"

definition opMode :: "geo_op \<Rightarrow> move_mode" where
  "opMode g = (case g of Move _ \<Rightarrow> ModeMove | Resize _ \<Rightarrow> ModeResize | MoveResize _ \<Rightarrow> ModeMoveResize)"

lemma applyOp_request: "applyOp A xs g w = requestGeometry A xs (target g (mwMoving w)) (opMode g) w"
  by (cases g) (simp_all add: applyOp_def target_def opMode_def moveWindow_def resizeWindow_def moveResizeWindow_def)

text \<open>A managed X11 window whose frame shows what was last announced.\<close>

definition plainX11 :: "moving_window \<Rightarrow> bool" where
  "plainX11 w \<longleftrightarrow> szX11 (mwSized w) \<and> \<not> mwShade w \<and> \<not> mwShadeGeometryChange w \<and> \<not> mwTakenOver w"

definition steady :: "moving_window \<Rightarrow> bool" where
  "steady w \<longleftrightarrow> mwLastFrame w = mwFrame w \<and> mwLastClient w = mwClient w \<and> mwLastBuffer w = mwBuffer w"

definition quiet :: "moving_window \<Rightarrow> moving_window" where "quiet w = w\<lparr>mwCalls := []\<rparr>"

text \<open>The window with all of its geometry set from a frame.\<close>

definition framed :: "qrectf \<Rightarrow> moving_window \<Rightarrow> moving_window" where
  "framed f w = w\<lparr>mwFrame := f, mwClient := frameRectToClientRect (mwSized w) f,
     mwBuffer := x11FrameRectToBufferRect (mwSized w) (f)\<rparr>"

definition announced :: "moving_window \<Rightarrow> moving_window" where
  "announced w = w\<lparr>mwLastFrame := mwFrame w, mwLastClient := mwClient w, mwLastBuffer := mwBuffer w, mwLastOutput := mwOutput w\<rparr>"

definition located :: "work_areas \<Rightarrow> moving_window \<Rightarrow> moving_window" where
  "located A w = w\<lparr>mwOutput := outputAt A (rcenter (mwFrame w))\<rparr>"

lemmas geo_defs = framed_def announced_def located_def quiet_def steady_def plainX11_def geoCalls_def

lemma x11_internal:
  assumes "plainX11 w"
  shows "quiet (x11MoveResizeInternal A xs rect mode w) = (let v = quiet (framed (nativeRect xs rect) w) in
    if mwPending w = ModeNone \<and> steady v then v
    else if mwBlocked w \<noteq> 0 then (located A v)\<lparr>mwPending := orMode (mwPending w) mode\<rparr>
    else announced (located A v))"
proof -
  let ?f = "nativeRect xs rect"
  let ?c = "frameRectToClientRect (mwSized w) ?f"
  let ?b = "x11FrameRectToBufferRect (mwSized w) ?f"
  have geo: "x11Geometries w ?f = (?f, ?c)" using assms by (simp add: x11Geometries_def plainX11_def Let_def)
  have still: "(mwPending w = ModeNone \<and> mwLastBuffer w = ?b \<and> mwLastFrame w = ?f \<and> mwLastClient w = ?c) =
      (mwPending w = ModeNone \<and> steady (quiet (framed ?f w)))" by (auto simp: geo_defs)
  show ?thesis
  proof (cases "mwPending w = ModeNone \<and> steady (quiet (framed ?f w))")
    case True
    then show ?thesis using still by (simp add: x11MoveResizeInternal_def geo Let_def framed_def quiet_def)
  next
    case False
    then have n: "(mwPending w = ModeNone \<and> mwLastBuffer w = ?b \<and> mwLastFrame w = ?f \<and> mwLastClient w = ?c) = False"
      using still by simp
    have "quiet (x11MoveResizeInternal A xs rect mode w) = (if mwBlocked w \<noteq> 0
        then (located A (quiet (framed ?f w)))\<lparr>mwPending := orMode (mwPending w) mode\<rparr>
        else announced (located A (quiet (framed ?f w))))"
      by (simp add: x11MoveResizeInternal_def geo Let_def n framed_def quiet_def located_def announced_def geoCalls_def)
    then show ?thesis unfolding Let_def if_not_P[OF False] .
  qed
qed

lemma plainX11_request:
  "plainX11 w \<Longrightarrow> requestGeometry A xs rect mode w = x11MoveResizeInternal A xs rect mode (setMoveResizeGeometry A rect w)"
  by (simp add: requestGeometry_def moveResizeInternal_def setMoveResizeGeometry_def plainX11_def)

lemma orMode_None [simp]: "orMode a b = ModeNone \<longleftrightarrow> a = ModeNone \<and> b = ModeNone"
  by (cases a; cases b) (simp_all add: orMode_def)

lemma opMode_None [simp]: "opMode g \<noteq> ModeNone"
  by (cases g) (simp_all add: opMode_def)

lemma quiet_fields [simp]:
  "mwMoving (quiet w) = mwMoving w" "mwPending (quiet w) = mwPending w" "mwBlocked (quiet w) = mwBlocked w"
  "mwSized (quiet w) = mwSized w" "plainX11 (quiet w) = plainX11 w" "steady (quiet w) = steady w" "quiet (quiet w) = quiet w"
  by (simp_all add: geo_defs)

lemma request_quiet:
  assumes "plainX11 w"
  shows "quiet (requestGeometry A xs rect mode w) = (let v = framed (nativeRect xs rect) (setMoveResizeGeometry A rect (quiet w)) in
    if mwPending w = ModeNone \<and> steady v then v
    else if mwBlocked w \<noteq> 0 then (located A v)\<lparr>mwPending := orMode (mwPending w) mode\<rparr>
    else announced (located A v))"
proof -
  have p: "plainX11 (setMoveResizeGeometry A rect w)" using assms by (simp add: plainX11_def setMoveResizeGeometry_def)
  have q: "quiet (framed f (setMoveResizeGeometry A rect w)) = framed f (setMoveResizeGeometry A rect (quiet w))" for f
    by (simp add: geo_defs setMoveResizeGeometry_def)
  have e: "mwPending (setMoveResizeGeometry A rect w) = mwPending w" "mwBlocked (setMoveResizeGeometry A rect w) = mwBlocked w"
    by (simp_all add: setMoveResizeGeometry_def)
  show ?thesis unfolding plainX11_request[OF assms] x11_internal[OF p] q e ..
qed

text \<open>The state of an unblocked window after any number of changes, and that of a blocked one: it has the same
  geometry, which is not announced yet if it changed.\<close>

definition settled :: "work_areas \<Rightarrow> qreal \<Rightarrow> moving_window \<Rightarrow> bool" where
  "settled A xs u \<longleftrightarrow> mwLastOutput u = mwOutput u \<and> mwFrame u = nativeRect xs (mwMoving u) \<and>
     mwClient u = frameRectToClientRect (mwSized u) (mwFrame u) \<and> mwBuffer u = x11FrameRectToBufferRect (mwSized u) (mwFrame u) \<and>
     mwOutput u = outputAt A (rcenter (mwFrame u))"

definition behind :: "move_mode \<Rightarrow> qrectf \<Rightarrow> qrectf \<Rightarrow> qrectf \<Rightarrow> outp option \<Rightarrow> moving_window \<Rightarrow> moving_window" where
  "behind m lf lc lb lo u = u\<lparr>mwLastFrame := lf, mwLastClient := lc, mwLastBuffer := lb, mwLastOutput := lo,
     mwBlocked := 1, mwPending := m\<rparr>"

definition lags :: "work_areas \<Rightarrow> qreal \<Rightarrow> moving_window \<Rightarrow> moving_window \<Rightarrow> bool" where
  "lags A xs u b \<longleftrightarrow> plainX11 u \<and> steady u \<and> mwBlocked u = 0 \<and> mwPending u = ModeNone \<and>
     (b = u\<lparr>mwBlocked := 1\<rparr> \<or> (\<exists>m lf lc lb lo. m \<noteq> ModeNone \<and> settled A xs u \<and> b = behind m lf lc lb lo u))"

text \<open>One change, without the signals.\<close>

definition quietStep :: "work_areas \<Rightarrow> qreal \<Rightarrow> geo_op \<Rightarrow> moving_window \<Rightarrow> moving_window" where
  "quietStep A xs g w = (let r = target g (mwMoving w); v = framed (nativeRect xs r) (setMoveResizeGeometry A r w) in
    if mwPending w = ModeNone \<and> steady v then v
    else if mwBlocked w \<noteq> 0 then (located A v)\<lparr>mwPending := orMode (mwPending w) (opMode g)\<rparr>
    else announced (located A v))"

lemma quiet_applyOp: "plainX11 w \<Longrightarrow> quiet (applyOp A xs g w) = quietStep A xs g (quiet w)"
  by (simp add: applyOp_request request_quiet quietStep_def Let_def)

lemma lagsI:
  "plainX11 u \<Longrightarrow> steady u \<Longrightarrow> mwBlocked u = 0 \<Longrightarrow> mwPending u = ModeNone \<Longrightarrow> m \<noteq> ModeNone \<Longrightarrow> settled A xs u \<Longrightarrow>
   lags A xs u (behind m lf lc lb lo u)"
  unfolding lags_def by blast

lemma lags_step:
  assumes "lags A xs u b"
  shows "lags A xs (quietStep A xs g u) (quietStep A xs g b)"
proof -
  have u: "plainX11 u" "steady u" "mwBlocked u = 0" "mwPending u = ModeNone" using assms by (simp_all add: lags_def)
  define r where "r = target g (mwMoving u)"
  define v where "v = framed (nativeRect xs r) (setMoveResizeGeometry A r u)"
  have vf: "plainX11 v" "mwBlocked v = 0" "mwPending v = ModeNone" "mwMoving v = r"
    using u by (simp_all add: v_def geo_defs setMoveResizeGeometry_def)
  have qu: "quietStep A xs g u = (if steady v then v else announced (located A v))"
    unfolding quietStep_def Let_def r_def[symmetric] v_def[symmetric] using u by simp
  have fin: "plainX11 (announced (located A v))" "steady (announced (located A v))" "settled A xs (announced (located A v))"
    "mwBlocked (announced (located A v)) = 0" "mwPending (announced (located A v)) = ModeNone"
    using vf by (simp_all add: geo_defs settled_def v_def setMoveResizeGeometry_def)
  consider (same) "b = u\<lparr>mwBlocked := 1\<rparr>"
    | (late) m lf lc lb lo where "m \<noteq> ModeNone" "settled A xs u" "b = behind m lf lc lb lo u"
    using assms by (auto simp: lags_def)
  then show ?thesis
  proof cases
    case same
    have vb: "framed (nativeRect xs r) (setMoveResizeGeometry A r b) = v\<lparr>mwBlocked := 1\<rparr>"
      by (simp add: same v_def framed_def setMoveResizeGeometry_def)
    have qb: "quietStep A xs g b = (if steady v then v\<lparr>mwBlocked := 1\<rparr> else (located A (v\<lparr>mwBlocked := 1\<rparr>))\<lparr>mwPending := opMode g\<rparr>)"
      using u vb unfolding quietStep_def Let_def by (simp add: same r_def[symmetric] orMode_def steady_def)
    show ?thesis
    proof (cases "steady v")
      case True
      then show ?thesis using vf by (simp add: qu qb lags_def)
    next
      case False
      have "(located A (v\<lparr>mwBlocked := 1\<rparr>))\<lparr>mwPending := opMode g\<rparr> = behind (opMode g) (mwLastFrame v) (mwLastClient v)
          (mwLastBuffer v) (mwLastOutput v) (announced (located A v))"
        by (simp add: behind_def announced_def located_def)
      then show ?thesis unfolding qu qb if_not_P[OF False]
        using lagsI[OF fin(1,2,4,5) _ fin(3)] by simp
    qed
  next
    case late
    have vb: "framed (nativeRect xs r) (setMoveResizeGeometry A r b) = behind m lf lc lb lo v"
      by (simp add: late v_def framed_def setMoveResizeGeometry_def behind_def)
    have qb: "quietStep A xs g b = (located A (behind m lf lc lb lo v))\<lparr>mwPending := orMode m (opMode g)\<rparr>"
      using late(1) vb unfolding quietStep_def Let_def by (simp add: late(3) behind_def r_def[symmetric])
    show ?thesis
    proof (cases "steady v")
      case True
      have fv: "mwFrame v = mwFrame u" using True u(2) by (simp add: v_def geo_defs setMoveResizeGeometry_def)
      have keep: "mwOutput v = mwOutput u" "mwLastOutput v = mwLastOutput u" "mwFrame v = nativeRect xs r"
        "mwClient v = frameRectToClientRect (mwSized v) (mwFrame v)" "mwBuffer v = x11FrameRectToBufferRect (mwSized v) (mwFrame v)"
        by (simp_all add: v_def framed_def setMoveResizeGeometry_def)
      have o: "mwOutput v = outputAt A (rcenter (mwFrame v))" "mwLastOutput v = mwOutput v"
        using late(2) fv keep(1,2) by (simp_all add: settled_def)
      have "settled A xs v" unfolding settled_def using o keep(3-5) vf(4) by simp
      moreover have "(located A (behind m lf lc lb lo v))\<lparr>mwPending := orMode m (opMode g)\<rparr> = behind (orMode m (opMode g)) lf lc lb lo v"
        by (intro moving_window.equality) (simp_all add: located_def behind_def o(1))
      ultimately show ?thesis unfolding qu qb if_P[OF True]
        using lagsI[OF vf(1) True vf(2,3)] late(1) by simp
    next
      case False
      have "(located A (behind m lf lc lb lo v))\<lparr>mwPending := orMode m (opMode g)\<rparr> = behind (orMode m (opMode g)) lf lc lb lo (announced (located A v))"
        by (simp add: behind_def announced_def located_def)
      then show ?thesis unfolding qu qb if_not_P[OF False]
        using lagsI[OF fin(1,2,4,5) _ fin(3)] late(1) by simp
    qed
  qed
qed

lemma plainX11_applyOp: "plainX11 w \<Longrightarrow> plainX11 (applyOp A xs g w)"
proof -
  assume p: "plainX11 w"
  have "plainX11 (quietStep A xs g (quiet w))"
    using p by (simp add: quietStep_def Let_def geo_defs setMoveResizeGeometry_def)
  then show ?thesis using quiet_applyOp[OF p, of A xs g] by (metis quiet_fields(5))
qed

definition applyOps :: "work_areas \<Rightarrow> qreal \<Rightarrow> geo_op list \<Rightarrow> moving_window \<Rightarrow> moving_window" where
  "applyOps A xs gs w = fold (applyOp A xs) gs w"

lemma quiet_applyOps:
  "plainX11 w \<Longrightarrow> quiet (applyOps A xs gs w) = fold (quietStep A xs) gs (quiet w) \<and> plainX11 (applyOps A xs gs w)"
  unfolding applyOps_def
proof (induction gs arbitrary: w)
  case (Cons g gs)
  from Cons.IH[OF plainX11_applyOp[OF Cons.prems]] show ?case using quiet_applyOp[OF Cons.prems] by simp
qed simp

lemma lags_steps: "lags A xs u b \<Longrightarrow> lags A xs (fold (quietStep A xs) gs u) (fold (quietStep A xs) gs b)"
  by (induction gs arbitrary: u b) (simp_all add: lags_step)

text \<open>Unblocking catches up.\<close>

lemma lags_unblock:
  assumes "lags A xs u (quiet b)" "plainX11 b"
  shows "quiet (blockGeometryUpdates A xs False b) = u"
proof -
  have u: "plainX11 u" "steady u" "mwBlocked u = 0" "mwPending u = ModeNone" using assms(1) by (simp_all add: lags_def)
  let ?b = "b\<lparr>mwBlocked := 0\<rparr>"
  have p: "plainX11 ?b" using assms(2) by (simp add: plainX11_def)
  have qb: "quiet ?b = (quiet b)\<lparr>mwBlocked := 0\<rparr>" by (simp add: quiet_def)
  consider (same) "quiet b = u\<lparr>mwBlocked := 1\<rparr>"
    | (late) m lf lc lb lo where "m \<noteq> ModeNone" "settled A xs u" "quiet b = behind m lf lc lb lo u"
    using assms(1) by (auto simp: lags_def)
  then show ?thesis
  proof cases
    case same
    then have "mwPending b = ModeNone" "mwBlocked b = 1" using u quiet_fields(2,3)[of b] by simp_all
    moreover have "quiet ?b = u" unfolding qb same using u(3) by (intro moving_window.equality) simp_all
    ultimately show ?thesis by (simp add: blockGeometryUpdates_def Let_def)
  next
    case late
    have b: "mwPending b = m" "mwBlocked b = 1" "mwMoving b = mwMoving u"
      using quiet_fields(1-3)[of b] by (simp_all add: late(3) behind_def)
    have x: "szX11 (mwSized ?b)" using p by (simp add: plainX11_def)
    have q: "quiet ?b = (behind m lf lc lb lo u)\<lparr>mwBlocked := 0\<rparr>" unfolding qb late(3) ..
    have "quiet (moveResizeInternal A xs (mwMoving ?b) m ?b) =
        announced (located A (quiet (framed (nativeRect xs (mwMoving u)) ?b)))"
      using x b late(1) by (simp add: moveResizeInternal_def x11_internal[OF p] Let_def)
    also have "quiet (framed (nativeRect xs (mwMoving u)) ?b) = framed (nativeRect xs (mwMoving u)) (quiet ?b)"
      by (simp add: framed_def quiet_def)
    finally have run: "quiet (moveResizeInternal A xs (mwMoving ?b) m ?b) =
        announced (located A (framed (nativeRect xs (mwMoving u)) ((behind m lf lc lb lo u)\<lparr>mwBlocked := 0\<rparr>)))" unfolding q .
    have "quiet (blockGeometryUpdates A xs False b) = (quiet (moveResizeInternal A xs (mwMoving ?b) m ?b))\<lparr>mwPending := ModeNone\<rparr>"
      using b late(1) by (simp add: blockGeometryUpdates_def Let_def quiet_def)
    also have "\<dots> = u" unfolding run
      using late(2) u by (intro moving_window.equality) (simp_all add: geo_defs settled_def behind_def)
    finally show ?thesis .
  qed
qed

text \<open>C35: moves and resizes of an X11 window while its geometry updates are blocked leave it, once they are unblocked, in
  the state in which the same changes leave it without the block; only the signals and calls differ.\<close>

theorem mv_blocked_equivalent:
  assumes "plainX11 w" "steady w" "mwBlocked w = 0" "mwPending w = ModeNone"
  shows "quiet (blockGeometryUpdates A xs False (applyOps A xs gs (blockGeometryUpdates A xs True w))) = quiet (applyOps A xs gs w)"
proof -
  let ?b = "blockGeometryUpdates A xs True w"
  have start: "quiet ?b = (quiet w)\<lparr>mwBlocked := 1\<rparr>" using assms by (simp add: blockGeometryUpdates_def quiet_def Let_def)
  have p: "plainX11 ?b" using assms by (simp add: blockGeometryUpdates_def plainX11_def Let_def)
  have "lags A xs (quiet w) (quiet ?b)" unfolding start lags_def using assms by simp
  from lags_steps[OF this, of gs] have "lags A xs (quiet (applyOps A xs gs w)) (quiet (applyOps A xs gs ?b))"
    using quiet_applyOps[OF assms(1)] quiet_applyOps[OF p] by simp
  from lags_unblock[OF this] show ?thesis using quiet_applyOps[OF p] by blast
qed

definition demo_moving :: moving_window where
  "demo_moving = \<lparr>mwSized = demo_sized demo_hints, mwShade = False, mwShadeGeometryChange = False, mwActive = True,
     mwToplevel = False, mwTakenOver = False, mwSurfaceSize = \<lparr>sizeW = 0, sizeH = 0\<rparr>, mwWindowGeometry = rnullRect,
     mwFrame = rnullRect, mwClient = rnullRect, mwBuffer = rnullRect, mwLastFrame = rnullRect, mwLastClient = rnullRect,
     mwLastBuffer = rnullRect, mwOutput = None, mwLastOutput = None, mwMoving = rnullRect, mwMoveOutput = None, mwBlocked = 0,
     mwPending = ModeNone, mwConfigurePosition = False, mwQueuedPositions = [], mwCalls = []\<rparr>"

theorem mv_blocked_equivalent_witness:
  "quiet (blockGeometryUpdates demo_areas 1 False (applyOps demo_areas 1 [Resize \<lparr>sizeW = 300, sizeH = 200\<rparr>, Move \<lparr>pointX = 5, pointY = 7\<rparr>]
     (blockGeometryUpdates demo_areas 1 True demo_moving))) =
   quiet (applyOps demo_areas 1 [Resize \<lparr>sizeW = 300, sizeH = 200\<rparr>, Move \<lparr>pointX = 5, pointY = 7\<rparr>] demo_moving)"
  by (rule mv_blocked_equivalent) (simp_all add: demo_moving_def demo_sized_def plainX11_def steady_def)

end
