(* ===== verification/Placement.thy ===== *)
theory Placement
  imports Window_Moves
begin

text \<open>
  The placement of windows (\<open>src/src/placement.cpp\<close>). The attributes of windows come from the environment, their
  geometry is part of the state. Every operation is partial: there may be no output, \<open>resizeWithChecks\<close> may be undefined
  and the loop of \<open>placeSmart\<close> may not end.
\<close>

datatype placement_policy = PlacementNone | PlacementDefault | PlacementUnknown | PlacementRandom | PlacementSmart
  | PlacementCentered | PlacementZeroCornered | PlacementUnderMouse | PlacementOnMainWindow | PlacementMaximizing

text \<open>The number that a window rule holds.\<close>

definition policyOf :: "int \<Rightarrow> placement_policy" where
  "policyOf n = (if n = 0 then PlacementNone else if n = 1 then PlacementDefault else if n = 2 then PlacementUnknown
     else if n = 3 then PlacementRandom else if n = 5 then PlacementCentered else if n = 6 then PlacementZeroCornered
     else if n = 7 then PlacementUnderMouse else if n = 8 then PlacementOnMainWindow
     else if n = 9 then PlacementMaximizing else PlacementSmart)"

definition policyNumber :: "placement_policy \<Rightarrow> int" where
  "policyNumber p = (case p of PlacementNone \<Rightarrow> 0 | PlacementDefault \<Rightarrow> 1 | PlacementUnknown \<Rightarrow> 2 | PlacementRandom \<Rightarrow> 3
     | PlacementSmart \<Rightarrow> 4 | PlacementCentered \<Rightarrow> 5 | PlacementZeroCornered \<Rightarrow> 6 | PlacementUnderMouse \<Rightarrow> 7
     | PlacementOnMainWindow \<Rightarrow> 8 | PlacementMaximizing \<Rightarrow> 9)"

record place_env =
  peEnv :: env
  peAreas :: work_areas
  peScale :: qreal
  peCurrent :: vd
  peCurrentNumber :: int
  peDesktopCount :: nat
  peStackingOrder :: "wid list"
  peAllClients :: "wid list"
  pePolicy :: placement_policy
  peMouse :: qpointf
  peMainWindows :: "wid \<Rightarrow> wid list"
  peTransientPlacement :: "wid \<Rightarrow> qrectf \<Rightarrow> qrectf"
  peSurface :: "wid \<Rightarrow> bool"
  peMaximizable :: "wid \<Rightarrow> bool"
  peMaximize :: "wid \<Rightarrow> moving_window \<Rightarrow> moving_window"
  peMovable :: "wid \<Rightarrow> bool"
  peResizable :: "wid \<Rightarrow> bool"
  peDesktopNumber :: "wid \<Rightarrow> int"
  peRequestedMaximize :: "wid \<Rightarrow> bool"

datatype place_call = FocusMousePosition | SendToOutput wid "outp option" | CheckPosition wid

record cascade_info =
  ciPos :: qpoint
  ciCol :: int
  ciRow :: int

record placing =
  plWindows :: "wid \<Rightarrow> moving_window"
  cci :: "cascade_info list"
  randomX :: int
  randomY :: int
  plCalls :: "place_call list"

abbreviation attrs :: "place_env \<Rightarrow> wid \<Rightarrow> window" where "attrs P w \<equiv> windowAt (peEnv P) w"
abbreviation frameOf :: "placing \<Rightarrow> wid \<Rightarrow> qrectf" where "frameOf s w \<equiv> mwFrame (plWindows s w)"
abbreviation movingOf :: "placing \<Rightarrow> wid \<Rightarrow> qrectf" where "movingOf s w \<equiv> mwMoving (plWindows s w)"
abbreviation sizedOf :: "placing \<Rightarrow> wid \<Rightarrow> sized_window" where "sizedOf s w \<equiv> mwSized (plWindows s w)"

definition onCurrentDesktop :: "place_env \<Rightarrow> wid \<Rightarrow> bool" where
  "onCurrentDesktop P w = isOnDesktop (attrs P w) (Some (peCurrent P))"

text \<open>\<open>isOnCurrentDesktop() ? currentDesktop() : desktops().front()\<close>.\<close>

definition placeDesktop :: "place_env \<Rightarrow> wid \<Rightarrow> vd" where
  "placeDesktop P w = (if onCurrentDesktop P w then peCurrent P else hd (desktops (attrs P w)))"

definition changeWindow :: "wid \<Rightarrow> (moving_window \<Rightarrow> moving_window) \<Rightarrow> placing \<Rightarrow> placing" where
  "changeWindow w f s = s\<lparr>plWindows := (plWindows s)(w := f (plWindows s w))\<rparr>"

definition placeAt :: "place_env \<Rightarrow> wid \<Rightarrow> qpointf \<Rightarrow> placing \<Rightarrow> placing" where
  "placeAt P w p = changeWindow w (moveWindow (peAreas P) (peScale P) p)"

definition placeGeometry :: "place_env \<Rightarrow> wid \<Rightarrow> qrectf \<Rightarrow> placing \<Rightarrow> placing" where
  "placeGeometry P w r = changeWindow w (moveResizeWindow (peAreas P) (peScale P) r)"

definition placeInArea :: "place_env \<Rightarrow> wid \<Rightarrow> qrectf \<Rightarrow> placing \<Rightarrow> placing option" where
  "placeInArea P w area s = do {
     m \<leftarrow> keepWindowInArea (peAreas P) (peCurrent P) (peScale P) area False (plWindows s w);
     Some (s\<lparr>plWindows := (plWindows s)(w := m)\<rparr>) }"

text \<open>\<open>Workspace::clientArea\<close> for a window on its own output, and at a point.\<close>

definition areaOf :: "place_env \<Rightarrow> placing \<Rightarrow> client_area_option \<Rightarrow> wid \<Rightarrow> qrectf option" where
  "areaOf P s opt w = map_option (clientAreaOn (peAreas P) (peCurrent P) opt (desktops (attrs P w))) (mwOutput (plWindows s w))"

definition areaAt :: "place_env \<Rightarrow> client_area_option \<Rightarrow> wid \<Rightarrow> qpointf \<Rightarrow> qrectf option" where
  "areaAt P opt w pos = clientAreaAt (peAreas P) (peCurrent P) opt (desktops (attrs P w)) pos"

definition pointF :: "int \<Rightarrow> int \<Rightarrow> qpointf" where "pointF x y = \<lparr>pointX = of_int x, pointY = of_int y\<rparr>"

section \<open>Smart placement\<close>

definition isIrrelevant :: "place_env \<Rightarrow> wid \<Rightarrow> wid \<Rightarrow> vd \<Rightarrow> bool" where
  "isIrrelevant P w regarding d = (let c = attrs P w in
     w = regarding \<or> \<not> isClient c \<or> \<not> isShown c \<or> isShade c \<or> \<not> isOnDesktop c (Some d)
     \<or> \<not> isOnCurrentActivity (peEnv P) c \<or> isDesktop c)"

text \<open>A window in the way: its integer edges and the weight of its overlap.\<close>

record obstacle =
  obLeft :: int
  obTop :: int
  obRight :: int
  obBottom :: int
  obWeight :: int

definition obstacleOf :: "place_env \<Rightarrow> placing \<Rightarrow> wid \<Rightarrow> obstacle" where
  "obstacleOf P s w = (let g = frameOf s w; c = attrs P w; x = trunc_int (rectX g); y = trunc_int (rectY g) in
     \<lparr>obLeft = x, obTop = y, obRight = trunc_int (of_int x + rectW g), obBottom = trunc_int (of_int y + rectH g),
      obWeight = (if keepAbove c then 16 else if keepBelow c \<and> \<not> isDock c then 0 else 1)\<rparr>)"

definition obstacles :: "place_env \<Rightarrow> placing \<Rightarrow> wid \<Rightarrow> vd \<Rightarrow> obstacle list" where
  "obstacles P s w d = map (obstacleOf P s) (filter (\<lambda>v. \<not> isIrrelevant P v w d) (peStackingOrder P))"

record smart_area =
  saArea :: qrectf
  saCw :: int
  saCh :: int
  saObstacles :: "obstacle list"

text \<open>The overlap at a position: -1 if the window is too high there, -2 if it is too wide.\<close>

definition overlapWith :: "smart_area \<Rightarrow> int \<Rightarrow> int \<Rightarrow> obstacle \<Rightarrow> int" where
  "overlapWith a x y b =
     (if x < obRight b \<and> obLeft b < x + saCw a \<and> y < obBottom b \<and> obTop b < y + saCh a
      then obWeight b * (min (x + saCw a) (obRight b) - max x (obLeft b)) * (min (y + saCh a) (obBottom b) - max y (obTop b))
      else 0)"

definition tooHigh :: "smart_area \<Rightarrow> int \<Rightarrow> bool" where
  "tooHigh a y \<longleftrightarrow> rbottom (saArea a) < of_int (y + saCh a) \<and> of_int (saCh a) < rectH (saArea a)"

definition tooFarRight :: "smart_area \<Rightarrow> int \<Rightarrow> bool" where
  "tooFarRight a x \<longleftrightarrow> rright (saArea a) < of_int (x + saCw a)"

definition overlapAt :: "smart_area \<Rightarrow> int \<Rightarrow> int \<Rightarrow> int" where
  "overlapAt a x y = (if tooHigh a y then -1 else if tooFarRight a x then -2
     else sum_list (map (overlapWith a x y) (saObstacles a)))"

text \<open>The next position to the right, and below.\<close>

definition closer :: "int \<Rightarrow> int \<Rightarrow> int \<Rightarrow> int" where
  "closer v candidate possible = (if v < candidate \<and> candidate < possible then candidate else possible)"

definition nextX :: "smart_area \<Rightarrow> int \<Rightarrow> int \<Rightarrow> int" where
  "nextX a x y = (let p = trunc_int (rright (saArea a)); p = (if x < p - saCw a then p - saCw a else p)
     in fold (\<lambda>b p. if y < obBottom b \<and> obTop b < saCh a + y
          then closer x (obLeft b - saCw a) (closer x (obRight b) p) else p) (saObstacles a) p)"

definition nextY :: "smart_area \<Rightarrow> int \<Rightarrow> int" where
  "nextY a y = (let p = trunc_int (rbottom (saArea a)); p = (if y < p - saCh a then p - saCh a else p)
     in fold (\<lambda>b p. closer y (obTop b - saCh a) (closer y (obBottom b) p)) (saObstacles a) p)"

record smart_state =
  ssX :: int
  ssY :: int
  ssFirst :: bool
  ssMin :: int
  ssBestX :: int
  ssBestY :: int

definition noteBest :: "int \<Rightarrow> smart_state \<Rightarrow> smart_state" where
  "noteBest overlap t =
     (if ssFirst t then t\<lparr>ssFirst := False, ssMin := overlap\<rparr>
      else if 0 \<le> overlap \<and> overlap < ssMin t then t\<lparr>ssMin := overlap, ssBestX := ssX t, ssBestY := ssY t\<rparr>
      else t)"

definition advance :: "smart_area \<Rightarrow> int \<Rightarrow> smart_state \<Rightarrow> smart_state" where
  "advance a overlap t =
     (if 0 < overlap then t\<lparr>ssX := nextX a (ssX t) (ssY t)\<rparr>
      else if overlap = -2 then t\<lparr>ssX := trunc_int (rleft (saArea a)), ssY := nextY a (ssY t)\<rparr>
      else t)"

partial_function (option) smartLoop :: "smart_area \<Rightarrow> smart_state \<Rightarrow> (int \<times> int) option" where
  "smartLoop a t = (let overlap = overlapAt a (ssX t) (ssY t) in
     if overlap = 0 then Some (ssX t, ssY t)
     else (let t = advance a overlap (noteBest overlap t) in
       if overlap \<noteq> -1 \<and> of_int (ssY t) < rbottom (saArea a) then smartLoop a t
       else Some (ssBestX t, ssBestY t)))"

definition smartStart :: "smart_area \<Rightarrow> smart_state" where
  "smartStart a = (let x = trunc_int (rleft (saArea a)); y = trunc_int (rtop (saArea a))
     in \<lparr>ssX = x, ssY = y, ssFirst = True, ssMin = 0, ssBestX = x, ssBestY = y\<rparr>)"

definition smartPosition :: "smart_area \<Rightarrow> (int \<times> int) option" where
  "smartPosition a = do {
     (x, y) \<leftarrow> smartLoop a (smartStart a);
     Some (x, if rectH (saArea a) \<le> of_int (saCh a) then trunc_int (rtop (saArea a)) else y) }"

definition smartArea :: "place_env \<Rightarrow> placing \<Rightarrow> wid \<Rightarrow> qrectf \<Rightarrow> smart_area" where
  "smartArea P s w area = \<lparr>saArea = area, saCw = trunc_int (rectW (frameOf s w) - 1), saCh = trunc_int (rectH (frameOf s w) - 1),
     saObstacles = obstacles P s w (placeDesktop P w)\<rparr>"

definition placeSmart :: "place_env \<Rightarrow> wid \<Rightarrow> qrectf \<Rightarrow> placing \<Rightarrow> placing option" where
  "placeSmart P w area s = do {
     assertThat (rvalid area);
     (if \<not> rvalid (frameOf s w) then Some s
      else do {
        (x, y) \<leftarrow> smartPosition (smartArea P s w area);
        Some (placeAt P w (pointF x y) s) }) }"

end
