(* ===== verification/Smart_Placement.thy ===== *)
theory Smart_Placement
  imports Placement Move_Properties Focus_Chain
begin

text \<open>
  The search of \<open>placeSmart\<close>: when it ends, where the window ends up, and when it never ends.
\<close>

section \<open>The next position\<close>

lemma closer_bounds: "v < p \<Longrightarrow> v < closer v c p" "closer v c p \<le> p"
  by (auto simp: closer_def)

lemma closer_twice: "closer v c (closer v d p) \<le> p"
  using closer_bounds(2) order.trans by blast

lemma fold_closer:
  assumes "\<And>b p. v < p \<Longrightarrow> v < f b p" "\<And>b p. f b p \<le> (p::int)"
  shows "(v < p \<longrightarrow> v < fold f bs p) \<and> fold f bs p \<le> p"
  by (induction bs arbitrary: p) (use assms in \<open>fastforce intro: order.trans\<close>)+

lemma trunc_bounds:
  "of_int n \<le> x \<Longrightarrow> n \<le> trunc_int x" "x = of_int n \<Longrightarrow> trunc_int x = n"
proof -
  show "of_int n \<le> x \<Longrightarrow> n \<le> trunc_int x" by (simp add: trunc_int_def) linarith
qed simp

definition edgeX :: "smart_area \<Rightarrow> int" where "edgeX a = trunc_int (rright (saArea a))"
definition edgeY :: "smart_area \<Rightarrow> int" where "edgeY a = trunc_int (rbottom (saArea a))"

lemma nextX_bounds:
  assumes "0 \<le> saCw a"
  shows "x < edgeX a \<Longrightarrow> x < nextX a x y" "nextX a x y \<le> edgeX a"
proof -
  let ?f = "\<lambda>b p. if y < obBottom b \<and> obTop b < saCh a + y then closer x (obLeft b - saCw a) (closer x (obRight b) p) else p"
  let ?p = "if x < edgeX a - saCw a then edgeX a - saCw a else edgeX a"
  have f: "(x < ?p \<longrightarrow> x < fold ?f (saObstacles a) ?p) \<and> fold ?f (saObstacles a) ?p \<le> ?p"
    by (rule fold_closer) (auto simp: closer_bounds closer_twice)
  have n: "nextX a x y = fold ?f (saObstacles a) ?p" by (simp only: nextX_def Let_def edgeX_def)
  show "x < edgeX a \<Longrightarrow> x < nextX a x y" unfolding n using f by (auto split: if_splits)
  show "nextX a x y \<le> edgeX a" unfolding n using f assms by (auto split: if_splits)
qed

lemma nextY_bounds:
  assumes "0 \<le> saCh a"
  shows "y < edgeY a \<Longrightarrow> y < nextY a y" "nextY a y \<le> edgeY a" "edgeY a \<le> y \<Longrightarrow> nextY a y = edgeY a"
proof -
  let ?f = "\<lambda>b p. closer y (obTop b - saCh a) (closer y (obBottom b) p)"
  let ?p = "if y < edgeY a - saCh a then edgeY a - saCh a else edgeY a"
  have f: "(y < ?p \<longrightarrow> y < fold ?f (saObstacles a) ?p) \<and> fold ?f (saObstacles a) ?p \<le> ?p"
    by (rule fold_closer) (auto simp: closer_bounds closer_twice)
  have n: "nextY a y = fold ?f (saObstacles a) ?p" by (simp only: nextY_def Let_def edgeY_def)
  show "y < edgeY a \<Longrightarrow> y < nextY a y" unfolding n using f by (auto split: if_splits)
  show "nextY a y \<le> edgeY a" unfolding n using f assms by (auto split: if_splits)
  show "nextY a y = edgeY a" if e: "edgeY a \<le> y"
  proof -
    have same: "fold ?f bs p = p" if "p \<le> y" for bs p using that by (induction bs) (auto simp: closer_def)
    show ?thesis unfolding n using e assms by (subst same) auto
  qed
qed

section \<open>Termination\<close>

definition goodSmart :: "smart_area \<Rightarrow> bool" where
  "goodSmart a \<longleftrightarrow> 0 \<le> saCw a \<and> 0 \<le> saCh a \<and> 
     (\<forall>b \<in> set (saObstacles a). 0 \<le> obWeight b \<and> obLeft b \<le> obRight b \<and> obTop b \<le> obBottom b)"

lemma overlap_positive:
  assumes "goodSmart a" "0 < overlapAt a x y"
  shows "x < edgeX a" "\<not> tooHigh a y" "\<not> tooFarRight a x"
proof -
  show wrong: "\<not> tooHigh a y" "\<not> tooFarRight a x" using assms(2) by (auto simp: overlapAt_def split: if_splits)
  then have "0 < sum_list (map (overlapWith a x y) (saObstacles a))" using assms(2) by (simp add: overlapAt_def)
  then obtain b where "overlapWith a x y b \<noteq> 0"
    by (metis (no_types, lifting) list.map_cong0 less_irrefl sum_list_0 map_eq_conv)
  then have "x < obRight b" "obLeft b < x + saCw a" "min (x + saCw a) (obRight b) \<noteq> max x (obLeft b)"
    by (auto simp: overlapWith_def split: if_splits)
  then have w: "0 < saCw a" using assms(1) by (cases "saCw a = 0") (auto simp: goodSmart_def)
  have "of_int (x + saCw a) \<le> rright (saArea a)" using wrong by (simp add: tooFarRight_def)
  then have "x + saCw a \<le> edgeX a" unfolding edgeX_def by (rule trunc_bounds)
  then show "x < edgeX a" using w by simp
qed

lemma overlapAt_range: "goodSmart a \<Longrightarrow> overlapAt a x y = -1 \<or> overlapAt a x y = -2 \<or> 0 \<le> overlapAt a x y"
proof -
  assume g: "goodSmart a"
  have "0 \<le> overlapWith a x y b" if "b \<in> set (saObstacles a)" for b
    using that g by (auto simp: overlapWith_def goodSmart_def intro!: mult_nonneg_nonneg)
  then have "0 \<le> sum_list (map (overlapWith a x y) (saObstacles a))" by (intro sum_list_nonneg) auto
  then show ?thesis by (simp add: overlapAt_def)
qed

lemma noteBest_pos [simp]: "ssX (noteBest n t) = ssX t" "ssY (noteBest n t) = ssY t"
  by (simp_all add: noteBest_def)

section \<open>Where the window goes\<close>

definition insideSmart :: "smart_area \<Rightarrow> int \<times> int \<Rightarrow> bool" where
  "insideSmart a p \<longleftrightarrow> trunc_int (rleft (saArea a)) \<le> fst p \<and> trunc_int (rtop (saArea a)) \<le> snd p \<and>
     (\<not> tooFarRight a (trunc_int (rleft (saArea a))) \<longrightarrow> \<not> tooFarRight a (fst p)) \<and>
     (\<not> tooHigh a (trunc_int (rtop (saArea a))) \<longrightarrow> \<not> tooHigh a (snd p))"

definition smartInv :: "smart_area \<Rightarrow> smart_state \<Rightarrow> bool" where
  "smartInv a t \<longleftrightarrow> trunc_int (rleft (saArea a)) \<le> ssX t \<and> trunc_int (rtop (saArea a)) \<le> ssY t \<and> insideSmart a (ssBestX t, ssBestY t)"

lemma smartInv_start: "smartInv a (smartStart a)"
  by (simp add: smartInv_def insideSmart_def smartStart_def Let_def)

lemma fits_of_overlap: "0 \<le> overlapAt a x y \<Longrightarrow> \<not> tooFarRight a x \<and> \<not> tooHigh a y"
  by (auto simp: overlapAt_def split: if_splits)

lemma smartInv_step:
  assumes "goodSmart a" "smartInv a t" "n = overlapAt a (ssX t) (ssY t)" "of_int (ssY (advance a n (noteBest n t))) < rbottom (saArea a)" "n \<noteq> 0" "n \<noteq> -1"
    "of_int (edgeY a) = rbottom (saArea a)"
  shows "smartInv a (advance a n (noteBest n t))"
proof -
  have sizes: "0 \<le> saCw a" "0 \<le> saCh a" using assms(1) by (simp_all add: goodSmart_def)
  have i: "trunc_int (rleft (saArea a)) \<le> ssX t" "trunc_int (rtop (saArea a)) \<le> ssY t" "insideSmart a (ssBestX t, ssBestY t)"
    using assms(2) by (simp_all add: smartInv_def)
  have best: "insideSmart a (ssBestX (noteBest n t), ssBestY (noteBest n t))"
    using i fits_of_overlap[of a "ssX t" "ssY t"] assms(3) by (auto simp: noteBest_def insideSmart_def)
  consider (right) "0 < n" | (down) "n = -2" using assms(3,5,6) overlapAt_range[OF assms(1), of "ssX t" "ssY t"] by force
  then show ?thesis
  proof cases
    case right
    have "ssX t < nextX a (ssX t) (ssY t)"
      using nextX_bounds[OF sizes(1)] overlap_positive(1)[OF assms(1)] right assms(3) by simp
    then show ?thesis using right i best by (simp add: smartInv_def advance_def)
  next
    case down
    have "nextY a (ssY t) < edgeY a" using assms(4) assms(7)[symmetric] down by (simp add: advance_def)
    then have "ssY t < nextY a (ssY t)" using nextY_bounds[OF sizes(2), of "ssY t"] by (cases "ssY t < edgeY a") auto
    then show ?thesis using down i best by (simp add: smartInv_def advance_def)
  qed
qed

lemma smartLoop_inside:
  assumes "goodSmart a" "of_int (edgeY a) = rbottom (saArea a)"
    "smartInv a t"
  shows "\<exists>p. smartLoop a t = Some p \<and> insideSmart a p"
  using assms(3)
proof (induction t rule: wf_induct[OF wf_measures[of "[\<lambda>t. nat (edgeY a - ssY t), \<lambda>t. nat (edgeX a - ssX t)]"]])
  case (1 t)
  let ?o = "overlapAt a (ssX t) (ssY t)"
  let ?t = "advance a ?o (noteBest ?o t)"
  have sizes: "0 \<le> saCw a" "0 \<le> saCh a" using assms(1) by (simp_all add: goodSmart_def)
  have less: "(?t, t) \<in> measures [\<lambda>t. nat (edgeY a - ssY t), \<lambda>t. nat (edgeX a - ssX t)]"
    if o: "?o \<noteq> 0" "?o \<noteq> -1" and y: "of_int (ssY ?t) < rbottom (saArea a)"
  proof -
    consider (right) "0 < ?o" | (down) "?o = -2" using o overlapAt_range[OF assms(1), of "ssX t" "ssY t"] by force
    then show ?thesis
    proof cases
      case right
      have "ssX t < nextX a (ssX t) (ssY t)" "nextX a (ssX t) (ssY t) \<le> edgeX a"
        using nextX_bounds[OF sizes(1)] overlap_positive(1)[OF assms(1) right] by simp_all
      then show ?thesis using right by (simp add: advance_def)
    next
      case down
      have "ssY ?t = nextY a (ssY t)" using down by (simp add: advance_def)
      then have "nextY a (ssY t) < edgeY a" using y assms(2) by (metis of_int_less_iff)
      moreover have "ssY t < nextY a (ssY t)"
        using nextY_bounds[OF sizes(2), of "ssY t"] calculation by (cases "ssY t < edgeY a") auto
      ultimately show ?thesis using down by (simp add: advance_def)
    qed
  qed
  show ?case
  proof (cases "?o \<noteq> 0 \<and> ?o \<noteq> -1 \<and> of_int (ssY ?t) < rbottom (saArea a)")
    case True
    then have "smartInv a ?t" using smartInv_step[OF assms(1) 1(2) refl] assms(2) by simp
    then have "\<exists>p. smartLoop a ?t = Some p \<and> insideSmart a p" using 1(1) less True by blast
    then show ?thesis using True by (subst smartLoop.simps) (simp add: Let_def)
  next
    case False
    have i: "trunc_int (rleft (saArea a)) \<le> ssX t" "trunc_int (rtop (saArea a)) \<le> ssY t" "insideSmart a (ssBestX t, ssBestY t)"
      using 1(2) by (simp_all add: smartInv_def)
    have "insideSmart a (ssX t, ssY t)" if "?o = 0"
      using i fits_of_overlap[of a "ssX t" "ssY t"] that by (simp add: insideSmart_def)
    moreover have "insideSmart a (ssBestX ?t, ssBestY ?t)"
      using i fits_of_overlap[of a "ssX t" "ssY t"] by (auto simp: noteBest_def advance_def insideSmart_def)
    ultimately show ?thesis using False by (subst smartLoop.simps) (auto simp: Let_def)
  qed
qed

section \<open>The loop that does not end\<close>

definition tooLarge :: "smart_area \<Rightarrow> bool" where
  "tooLarge a \<longleftrightarrow> 0 \<le> saCh a \<and> rectH (saArea a) \<le> of_int (saCh a) \<and> tooFarRight a (trunc_int (rleft (saArea a))) \<and>
     of_int (edgeY a) < rbottom (saArea a)"

lemma tooLarge_overlap:
  assumes "tooLarge a" "ssX t = trunc_int (rleft (saArea a))"
  shows "overlapAt a (ssX t) (ssY t) = -2" "of_int (nextY a (ssY t)) < rbottom (saArea a)"
proof -
  show "overlapAt a (ssX t) (ssY t) = -2" using assms by (simp add: overlapAt_def tooHigh_def tooLarge_def)
  have "nextY a (ssY t) \<le> edgeY a" using nextY_bounds(2) assms(1) by (simp add: tooLarge_def)
  then have "of_int (nextY a (ssY t)) \<le> (of_int (edgeY a) :: rat)" by simp
  then show "of_int (nextY a (ssY t)) < rbottom (saArea a)" using assms(1) unfolding tooLarge_def by linarith
qed

lemma smartLoop_not_large:
  assumes "smartLoop a t = Some q"
  shows "\<not> (tooLarge a \<and> ssX t = trunc_int (rleft (saArea a)))"
proof (rule smartLoop.raw_induct[OF _ assms])
  fix f b u p
  assume 1: "\<And>b u p. f b u = Some p \<Longrightarrow> \<not> (tooLarge b \<and> ssX u = trunc_int (rleft (saArea b)))"
    "(let overlap = overlapAt b (ssX u) (ssY u) in
       if overlap = 0 then Some (ssX u, ssY u)
       else let t = advance b overlap (noteBest overlap u) in
         if overlap \<noteq> -1 \<and> of_int (ssY t) < rbottom (saArea b) then f b t else Some (ssBestX t, ssBestY t)) = Some p"
  show "\<not> (tooLarge b \<and> ssX u = trunc_int (rleft (saArea b)))"
  proof
    assume h: "tooLarge b \<and> ssX u = trunc_int (rleft (saArea b))"
    then have "f b (advance b (- 2) (noteBest (- 2) u)) = Some p"
      using 1(2) tooLarge_overlap[of b u] by (simp add: Let_def advance_def)
    then have "\<not> (tooLarge b \<and> ssX (advance b (- 2) (noteBest (- 2) u)) = trunc_int (rleft (saArea b)))" by (rule 1(1))
    then show False using h by (simp add: advance_def)
  qed
qed

lemma smartLoop_diverges: "tooLarge a \<Longrightarrow> ssX t = trunc_int (rleft (saArea a)) \<Longrightarrow> smartLoop a t = None"
  using smartLoop_not_large by (cases "smartLoop a t") auto

section \<open>Placing a window\<close>

lemma goodSmart_area:
  assumes "rvalid (frameOf s w)" "\<forall>v \<in> set (peStackingOrder P) - {w}. 0 \<le> rectW (frameOf s v) \<and> 0 \<le> rectH (frameOf s v)"
  shows "goodSmart (smartArea P s w area)"
proof -
  have nat: "0 \<le> trunc_int (x - 1)" if "0 < x" for x :: qreal using that by (simp add: trunc_int_def)
  have up: "n \<le> trunc_int (of_int n + x)" if "0 \<le> x" for n :: int and x :: qreal using that by (intro trunc_bounds(1)) simp
  have "\<forall>b \<in> set (obstacles P s w d). 0 \<le> obWeight b \<and> obLeft b \<le> obRight b \<and> obTop b \<le> obBottom b" for d
    using assms(2) up by (auto simp: obstacles_def obstacleOf_def isIrrelevant_def Let_def)
  then show ?thesis using assms(1) nat by (simp add: goodSmart_def smartArea_def rvalid_def)
qed

text \<open>C36: when the bottom edge of the area is a whole number, the search for the place of a window with the least overlap
  ends, and the window is put to the right of the left edge and below the top edge; its last column and row of pixels are not
  beyond the right and the bottom edge if this is possible at all.\<close>

theorem smart_returns_inside:
  assumes "rvalid area" "rvalid (frameOf s w)" "\<forall>v \<in> set (peStackingOrder P). 0 \<le> rectW (frameOf s v) \<and> 0 \<le> rectH (frameOf s v)"
    "of_int (trunc_int (rbottom area)) = rbottom area" "cw = trunc_int (rectW (frameOf s w) - 1)" "ch = trunc_int (rectH (frameOf s w) - 1)"
  shows "\<exists>x y. placeSmart P w area s = Some (placeAt P w (pointF x y) s) \<and>
    trunc_int (rleft area) \<le> x \<and> trunc_int (rtop area) \<le> y \<and>
    (of_int (trunc_int (rleft area) + cw) \<le> rright area \<longrightarrow> of_int (x + cw) \<le> rright area) \<and>
    (of_int ch < rectH area \<and> of_int (trunc_int (rtop area) + ch) \<le> rbottom area \<longrightarrow> of_int (y + ch) \<le> rbottom area) \<and>
    (rectH area \<le> of_int ch \<longrightarrow> y = trunc_int (rtop area))"
proof -
  let ?a = "smartArea P s w area"
  have sa: "saArea ?a = area" "saCw ?a = cw" "saCh ?a = ch" using assms(5,6) by (simp_all add: smartArea_def)
  have "of_int (edgeY ?a) = rbottom (saArea ?a)" using assms(4) by (simp add: edgeY_def sa)
  from smartLoop_inside[OF goodSmart_area[OF assms(2)] this smartInv_start] assms(3)
  obtain x y where xy: "smartLoop ?a (smartStart ?a) = Some (x, y)" "insideSmart ?a (x, y)" by auto
  define y' where "y' = (if rectH area \<le> of_int ch then trunc_int (rtop area) else y)"
  have "placeSmart P w area s = Some (placeAt P w (pointF x y') s)"
    using assms(1,2) xy(1) by (simp add: placeSmart_def smartPosition_def sa y'_def)
  moreover have "of_int (y' + ch) \<le> rbottom area" if "of_int ch < rectH area" "of_int (trunc_int (rtop area) + ch) \<le> rbottom area"
    using xy(2) that by (simp add: y'_def insideSmart_def tooHigh_def sa)
  moreover have "of_int (x + cw) \<le> rright area" if "of_int (trunc_int (rleft area) + cw) \<le> rright area"
    using xy(2) that by (simp add: insideSmart_def tooFarRight_def sa)
  moreover have "trunc_int (rleft area) \<le> x" "trunc_int (rtop area) \<le> y'" using xy(2) by (simp_all add: insideSmart_def sa y'_def)
  ultimately show ?thesis by (intro exI[of _ x] exI[of _ y']) (auto simp: y'_def)
qed

text \<open>Whether or not the window fits.\<close>

lemma placeSmart_total:
  assumes "rvalid area" "of_int (trunc_int (rbottom area)) = rbottom area"
    "\<forall>v \<in> set (peStackingOrder P) - {w}. 0 \<le> rectW (frameOf s v) \<and> 0 \<le> rectH (frameOf s v)"
  shows "\<exists>t. placeSmart P w area s = Some t \<and> (t = s \<or> (\<exists>p. t = placeAt P w p s))"
proof (cases "rvalid (frameOf s w)")
  case True
  let ?a = "smartArea P s w area"
  have "of_int (edgeY ?a) = rbottom (saArea ?a)" using assms(2) by (simp add: edgeY_def smartArea_def)
  from smartLoop_inside[OF goodSmart_area[OF True assms(3)] this smartInv_start]
  obtain x y where "smartLoop ?a (smartStart ?a) = Some (x, y)" by auto
  then show ?thesis using assms(1) True by (auto simp: placeSmart_def smartPosition_def)
qed (use assms(1) in \<open>simp add: placeSmart_def\<close>)

text \<open>Two windows on the current desktop; window 3 is larger than the screen.\<close>

definition demo_place :: place_env where
  "demo_place = \<lparr>peEnv = demo_env, peAreas = demo_areas, peScale = 1, peCurrent = 7, peCurrentNumber = 1, peDesktopCount = 1,
     peStackingOrder = [1, 2], peAllClients = [1, 2], pePolicy = PlacementSmart, peMouse = \<lparr>pointX = 0, pointY = 0\<rparr>,
     peMainWindows = (\<lambda>_. []), peTransientPlacement = (\<lambda>_ r. r), peSurface = (\<lambda>_. True), peMaximizable = (\<lambda>_. True), peMaximize = (\<lambda>_ m. m),
     peMovable = (\<lambda>_. True), peResizable = (\<lambda>_. True), peDesktopNumber = (\<lambda>_. 1), peRequestedMaximize = (\<lambda>_. False)\<rparr>"

definition demo_placing :: placing where
  "demo_placing = \<lparr>plWindows = (\<lambda>w. demo_moving\<lparr>mwFrame := \<lparr>rectX = 0, rectY = 0, rectW = (if w = 3 then 1100 else 100),
     rectH = (if w = 3 then 800 else 100)\<rparr>\<rparr>), cci = [], randomX = 24, randomY = 48, plCalls = []\<rparr>"

theorem smart_returns_inside_witness:
  "\<exists>x y. placeSmart demo_place 1 \<lparr>rectX = 0, rectY = 0, rectW = 1000, rectH = 700\<rparr> demo_placing =
      Some (placeAt demo_place 1 (pointF x y) demo_placing) \<and> of_int (x + 99) \<le> (1000 :: qreal) \<and> of_int (y + 99) \<le> (700 :: qreal)"
proof -
  let ?a = "\<lparr>rectX = 0, rectY = 0, rectW = 1000, rectH = 700\<rparr> :: qrectf"
  have "rvalid ?a" "rvalid (frameOf demo_placing 1)"
    "\<forall>v \<in> set (peStackingOrder demo_place). 0 \<le> rectW (frameOf demo_placing v) \<and> 0 \<le> rectH (frameOf demo_placing v)"
    "of_int (trunc_int (rbottom ?a)) = rbottom ?a"
    "99 = trunc_int (rectW (frameOf demo_placing 1) - 1)" "99 = trunc_int (rectH (frameOf demo_placing 1) - 1)"
    by (simp_all add: demo_placing_def demo_place_def rect_ops trunc_int_def)
  from smart_returns_inside[OF this] obtain x y where
    place: "placeSmart demo_place 1 ?a demo_placing = Some (placeAt demo_place 1 (pointF x y) demo_placing)" and
    right: "of_int (trunc_int (rleft ?a) + 99) \<le> rright ?a \<longrightarrow> of_int (x + 99) \<le> rright ?a" and
    bottom: "of_int 99 < rectH ?a \<and> of_int (trunc_int (rtop ?a) + 99) \<le> rbottom ?a \<longrightarrow> of_int (y + 99) \<le> rbottom ?a" by blast
  have "of_int (x + 99) \<le> (1000 :: qreal)" using right by (simp add: rright_def trunc_int_def)
  moreover have "of_int (y + 99) \<le> (700 :: qreal)" using bottom by (simp add: rbottom_def trunc_int_def)
  ultimately show ?thesis using place by blast
qed

text \<open>a window larger in both directions than an area whose bottom edge is not a whole number - a scaled screen without a
  panel at its bottom - is never placed: the loop of \<open>placeSmart\<close> does not end.\<close>

theorem smart_never_returns:
  assumes "rvalid area" "rvalid (frameOf s w)" "rectH area \<le> of_int (trunc_int (rectH (frameOf s w) - 1))"
    "rright area < of_int (trunc_int (rleft area) + trunc_int (rectW (frameOf s w) - 1))"
    "of_int (trunc_int (rbottom area)) < rbottom area"
  shows "placeSmart P w area s = None"
proof -
  let ?a = "smartArea P s w area"
  have h: "0 \<le> trunc_int (rectH (frameOf s w) - 1)"
    using assms(1,3) by (simp add: rvalid_def)
  have "tooLarge ?a" using assms h by (simp add: tooLarge_def smartArea_def tooFarRight_def edgeY_def)
  then have "smartLoop ?a (smartStart ?a) = None" by (rule smartLoop_diverges) (simp add: smartStart_def Let_def)
  then show ?thesis using assms(1,2) by (simp add: placeSmart_def smartPosition_def)
qed

theorem smart_never_returns_witness:
  "placeSmart demo_place 3 \<lparr>rectX = 0, rectY = 0, rectW = 1000, rectH = 700 + 1 / 2\<rparr> demo_placing = None"
proof -
  have half: "\<lfloor>1401 / 2 :: qreal\<rfloor> = 700" by (simp add: floor_eq_iff)
  show ?thesis by (rule smart_never_returns) (simp_all add: demo_placing_def rect_ops trunc_int_def half)
qed

end
