(* ===== verification/Placement_Policies.thy ===== *)
theory Placement_Policies
  imports Placement
begin

text \<open>
  The placement policies other than the smart one, how they call each other, and the cascading and uncluttering of a whole
  desktop (\<open>src/src/placement.cpp\<close>). \<open>Window::maximize\<close> is the parameter \<open>peMaximize\<close>. The policies \<open>place\<close>,
  \<open>placeMaximizing\<close> and \<open>placeOnMainWindow\<close> call each other; the recursion ends because each of them passes on a simpler
  next policy.
\<close>

section \<open>Cascading away from covered windows\<close>

definition cascadeOffset :: "place_env \<Rightarrow> placing \<Rightarrow> wid \<Rightarrow> qpoint option" where
  "cascadeOffset P s w = do {
     a \<leftarrow> areaAt P PlacementArea w (rcenter (frameOf s w));
     let area = rtoRect a;
     Some \<lparr>ipointX = idiv (irectW area) 48, ipointY = idiv (irectH area) 48\<rparr> }"

definition moveBy :: "qpointf \<Rightarrow> qpoint \<Rightarrow> qpointf" where
  "moveBy p d = \<lparr>pointX = pointX p + of_int (ipointX d), pointY = pointY p + of_int (ipointY d)\<rparr>"

definition cascadeIfCovering :: "place_env \<Rightarrow> wid \<Rightarrow> qrectf \<Rightarrow> placing \<Rightarrow> placing option" where
  "cascadeIfCovering P w area s = do {
     offset \<leftarrow> cascadeOffset P s w;
     let d = placeDesktop P w;
     let geo = frameOf s w;
     case find (\<lambda>v. \<not> isIrrelevant P v w d \<and> rintersects (frameOf s v) geo) (rev (peStackingOrder P)) of
       None \<Rightarrow> Some (placeAt P w (rtopLeft geo) s)
     | Some v \<Rightarrow>
         (let moved = moveTopLeft (moveBy (rtopLeft (frameOf s v)) offset) geo
          in if rright area < rright moved \<or> rbottom area < rbottom moved then Some s
             else Some (placeAt P w (rtopLeft moved) s)) }"

section \<open>Policies that call no other\<close>

text \<open>One axis of the random placement: the next value of the counter, and the position with the counter after it.\<close>

definition randomNext :: "int \<Rightarrow> int \<Rightarrow> int \<Rightarrow> int \<Rightarrow> int" where
  "randomNext step start len v = (let v = (if v < start then start else v); v = v + step
     in if idiv len 2 < v then start + 24 else v)"

definition randomFit :: "int \<Rightarrow> int \<Rightarrow> qreal \<Rightarrow> int \<Rightarrow> int \<times> int" where
  "randomFit start edge len v = (if of_int edge < of_int v + len
     then (let t = trunc_int (of_int edge - len) in (if t < 0 then 0 else t, start)) else (v, v))"

definition placeAtRandom :: "place_env \<Rightarrow> wid \<Rightarrow> qrect \<Rightarrow> placing \<Rightarrow> placing option" where
  "placeAtRandom P w area s = do {
     assertThat (ivalid area);
     let (tx, px) = randomFit (irectX area) (iright area) (rectW (frameOf s w)) (randomNext 24 (irectX area) (irectW area) (randomX s));
     let (ty, py) = randomFit (irectY area) (ibottom area) (rectH (frameOf s w)) (randomNext 48 (irectY area) (irectH area) (randomY s));
     cascadeIfCovering P w (irect_to_rectf area) (placeAt P w (pointF tx ty) (s\<lparr>randomX := px, randomY := py\<rparr>)) }"

definition placeCentered :: "place_env \<Rightarrow> wid \<Rightarrow> qrectf \<Rightarrow> placing \<Rightarrow> placing option" where
  "placeCentered P w area s = do {
     assertThat (rvalid area);
     (let g = frameOf s w in if \<not> rvalid g then Some s
      else cascadeIfCovering P w area (placeAt P w (pointF (trunc_int (rleft area + (rectW area - rectW g) / 2))
        (trunc_int (rtop area + (rectH area - rectH g) / 2))) s)) }"

definition placeZeroCornered :: "place_env \<Rightarrow> wid \<Rightarrow> qrect \<Rightarrow> placing \<Rightarrow> placing option" where
  "placeZeroCornered P w area s = do {
     assertThat (ivalid area);
     cascadeIfCovering P w (irect_to_rectf area) (placeAt P w (pointF (irectX area) (irectY area)) s) }"

definition placeOnScreenDisplay :: "place_env \<Rightarrow> wid \<Rightarrow> qrect \<Rightarrow> placing \<Rightarrow> placing option" where
  "placeOnScreenDisplay P w area s = do {
     assertThat (ivalid area);
     let g = frameOf s w;
     Some (placeAt P w (pointF (trunc_int (of_int (irectX area) + (of_int (irectW area) - rectW g) / 2))
       (trunc_int (of_int (irectY area + idiv (2 * irectH area) 3) - rectH g / 2))) s) }"

definition placeTransient :: "place_env \<Rightarrow> wid \<Rightarrow> placing \<Rightarrow> placing option" where
  "placeTransient P w s = do {
     parent \<leftarrow> transientFor (attrs P w);
     screen \<leftarrow> areaOf P s (if isFullScreen (attrs P parent) then FullScreenArea else PlacementArea) parent;
     Some (placeGeometry P w (peTransientPlacement P w screen) s) }"

definition placeUnderMouse :: "place_env \<Rightarrow> wid \<Rightarrow> qrect \<Rightarrow> placing \<Rightarrow> placing option" where
  "placeUnderMouse P w area s = do {
     assertThat (ivalid area);
     let p = rtoPoint (rtopLeft (moveCenter (peMouse P) (frameOf s w)));
     s \<leftarrow> placeInArea P w (irect_to_rectf area) (placeAt P w (pointF (ipointX p) (ipointY p)) s);
     cascadeIfCovering P w (irect_to_rectf area) s }"

section \<open>Policies that call others\<close>

text \<open>The windows that a dialog can be placed on: \<open>None\<close> when two of them are on the current desktop, otherwise the one on
  the current desktop, the last one seen, and their number.\<close>

fun mainScan :: "place_env \<Rightarrow> bool \<Rightarrow> wid list \<Rightarrow> wid option \<times> wid option \<times> nat \<Rightarrow> (wid option \<times> wid option \<times> nat) option" where
  "mainScan P many [] acc = Some acc"
| "mainScan P many (m # ms) acc = (case acc of (placeOn, other, n) \<Rightarrow>
     if many \<and> isSpecialWindow (attrs P m) then mainScan P many ms acc
     else if onCurrentDesktop P m
       then (case placeOn of None \<Rightarrow> mainScan P many ms (Some m, Some m, n + 1) | Some _ \<Rightarrow> None)
     else mainScan P many ms (placeOn, Some m, n + 1))"

text \<open>The main window to place on, or \<open>None\<close> to centre the window.\<close>

definition placeOnTarget :: "place_env \<Rightarrow> wid \<Rightarrow> wid option" where
  "placeOnTarget P w = (case mainScan P (1 < length (peMainWindows P w)) (peMainWindows P w) (None, None, 0) of
       None \<Rightarrow> None
     | Some (placeOn, other, n) \<Rightarrow>
         (let t = (case placeOn of Some m \<Rightarrow> Some m | None \<Rightarrow> if n \<noteq> 1 then None else other)
          in case t of None \<Rightarrow> None | Some m \<Rightarrow> if isDesktop (attrs P m) then None else Some m))"

text \<open>\<open>QRect::moveCenter\<close>.\<close>

definition imoveCenter :: "qpoint \<Rightarrow> qrect \<Rightarrow> qrect" where
  "imoveCenter p r = r\<lparr>irectX := ipointX p - idiv (irectW r - 1) 2, irectY := ipointY p - idiv (irectH r - 1) 2\<rparr>"

definition placeOver :: "place_env \<Rightarrow> wid \<Rightarrow> wid \<Rightarrow> placing \<Rightarrow> placing option" where
  "placeOver P w m s = do {
     let geom = imoveCenter (rtoPoint (rcenter (frameOf s m))) (rtoRect (frameOf s w));
     let s = placeAt P w (pointF (irectX geom) (irectY geom)) s;
     a \<leftarrow> areaOf P s PlacementArea w;
     placeInArea P w (irect_to_rectf (rtoRect a)) s }"

definition resolvePolicy :: "place_env \<Rightarrow> placement_policy \<Rightarrow> placement_policy" where
  "resolvePolicy P p = (if p = PlacementUnknown \<or> p = PlacementDefault then pePolicy P else p)"

text \<open>\<open>placeMaximizing\<close> when the window can fill the area.\<close>

definition fillsArea :: "place_env \<Rightarrow> wid \<Rightarrow> qrect \<Rightarrow> placing \<Rightarrow> bool" where
  "fillsArea P w area s \<longleftrightarrow> peMaximizable P w \<and> of_int (irectW area) \<le> sizeW (maxSize (peScale P) (sizedOf s w)) \<and>
     of_int (irectH area) \<le> sizeH (maxSize (peScale P) (sizedOf s w))"

definition fillArea :: "place_env \<Rightarrow> wid \<Rightarrow> qrect \<Rightarrow> placing \<Rightarrow> placing option" where
  "fillArea P w area s = do {
     a \<leftarrow> areaOf P s MaximizeArea w;
     Some (if a = irect_to_rectf area then changeWindow w (peMaximize P w) s else placeGeometry P w (irect_to_rectf area) s) }"

definition growTowards :: "place_env \<Rightarrow> wid \<Rightarrow> qrect \<Rightarrow> placing \<Rightarrow> placing option" where
  "growTowards P w area s = do {
     g \<leftarrow> resizeWithChecks (peAreas P) (peCurrent P) (peScale P) (sizedOf s w) (movingOf s w)
       (boundedTo (maxSize (peScale P) (sizedOf s w)) \<lparr>sizeW = of_int (irectW area), sizeH = of_int (irectH area)\<rparr>);
     Some (placeGeometry P w g s) }"

text \<open>A bound on the calls that a policy leads to.\<close>

definition nextOr :: "placement_policy \<Rightarrow> placement_policy \<Rightarrow> placement_policy" where
  "nextOr d p = (if p = PlacementUnknown then d else p)"

definition simpleRank :: "place_env \<Rightarrow> placement_policy \<Rightarrow> nat" where
  "simpleRank P p = (case resolvePolicy P p of PlacementMaximizing \<Rightarrow> 2 | PlacementOnMainWindow \<Rightarrow> 5 | _ \<Rightarrow> 0)"

definition maximizeRank :: "place_env \<Rightarrow> placement_policy \<Rightarrow> nat" where
  "maximizeRank P p = 1 + simpleRank P (nextOr PlacementSmart p)"

definition mainRank :: "placement_policy \<Rightarrow> nat" where
  "mainRank p = (if nextOr PlacementCentered p = PlacementMaximizing then 3 else 1)"

definition placeRank :: "place_env \<Rightarrow> placement_policy \<Rightarrow> placement_policy \<Rightarrow> nat" where
  "placeRank P p next = (case resolvePolicy P p of PlacementMaximizing \<Rightarrow> 1 + maximizeRank P next
     | PlacementOnMainWindow \<Rightarrow> 1 + mainRank next | _ \<Rightarrow> 0)"

function placeWith :: "place_env \<Rightarrow> wid \<Rightarrow> placement_policy \<Rightarrow> placement_policy \<Rightarrow> qrectf \<Rightarrow> placing \<Rightarrow> placing option"
  and placeMaximizing :: "place_env \<Rightarrow> wid \<Rightarrow> placement_policy \<Rightarrow> qrect \<Rightarrow> placing \<Rightarrow> placing option"
  and placeOnMainWindow :: "place_env \<Rightarrow> wid \<Rightarrow> placement_policy \<Rightarrow> qrect \<Rightarrow> placing \<Rightarrow> placing option" where
  "placeWith P w p next area s = (let p = resolvePolicy P p in
     if p = PlacementNone then Some s
     else if p = PlacementRandom then placeAtRandom P w (rtoRect area) s
     else if p = PlacementCentered then placeCentered P w area s
     else if p = PlacementZeroCornered then placeZeroCornered P w (rtoRect area) s
     else if p = PlacementUnderMouse then placeUnderMouse P w (rtoRect area) s
     else if p = PlacementOnMainWindow then placeOnMainWindow P w next (rtoRect area) s
     else if p = PlacementMaximizing then placeMaximizing P w next (rtoRect area) s
     else placeSmart P w area s)"
| "placeMaximizing P w next area s = (if \<not> ivalid area then None
     else if fillsArea P w area s then fillArea P w area s
     else (case growTowards P w area s of None \<Rightarrow> None
       | Some t \<Rightarrow> placeWith P w (nextOr PlacementSmart next) PlacementUnknown (irect_to_rectf area) t))"
| "placeOnMainWindow P w next area s = (if \<not> ivalid area then None
     else (case (if nextOr PlacementCentered next = PlacementMaximizing then placeMaximizing P w PlacementNone area s else Some s) of
         None \<Rightarrow> None
       | Some t \<Rightarrow> (case placeOnTarget P w of
             None \<Rightarrow> placeWith P w PlacementCentered PlacementUnknown (irect_to_rectf area) t
           | Some m \<Rightarrow> placeOver P w m t)))"
  by pat_completeness auto

termination
  by (relation "measure (\<lambda>x. case x of Inl (P, w, p, next, area, s) \<Rightarrow> placeRank P p next
      | Inr (Inl (P, w, next, area, s)) \<Rightarrow> maximizeRank P next
      | Inr (Inr (P, w, next, area, s)) \<Rightarrow> mainRank next)")
    (auto simp: placeRank_def maximizeRank_def mainRank_def simpleRank_def resolvePolicy_def nextOr_def
      split: placement_policy.splits)

declare placeWith.simps [simp del] placeMaximizing.simps [simp del] placeOnMainWindow.simps [simp del]

definition placeUtility :: "place_env \<Rightarrow> wid \<Rightarrow> qrect \<Rightarrow> placing \<Rightarrow> placing option" where
  "placeUtility P w area = placeWith P w PlacementDefault PlacementUnknown (irect_to_rectf area)"

definition placeDialog :: "place_env \<Rightarrow> wid \<Rightarrow> qrect \<Rightarrow> placement_policy \<Rightarrow> placing \<Rightarrow> placing option" where
  "placeDialog P w area next = placeOnMainWindow P w next area"

definition checkPlacement :: "placing \<Rightarrow> wid \<Rightarrow> placement_policy \<Rightarrow> placement_policy" where
  "checkPlacement s w = checkRules (applyForceRule (\<lambda>v. policyOf (vInt v)) RPlacement) (szRules (sizedOf s w))"

definition place :: "place_env \<Rightarrow> wid \<Rightarrow> qrectf \<Rightarrow> placing \<Rightarrow> placing option" where
  "place P w area s = (let policy = checkPlacement s w PlacementDefault; c = attrs P w in
     if policy \<noteq> PlacementDefault then placeWith P w policy PlacementUnknown area s
     else if isUtility c then placeUtility P w (rtoRect area) s
     else if isDialog c then placeDialog P w (rtoRect area) (pePolicy P) s
     else if isSplash c then placeOnMainWindow P w PlacementUnknown (rtoRect area) s
     else if isOnScreenDisplay c \<or> isNotification c \<or> isCriticalNotification c then placeOnScreenDisplay P w (rtoRect area) s
     else if isTransient c \<and> hasTransientPlacementHint c then placeTransient P w s
     else if isTransient c \<and> peSurface P w then placeDialog P w (rtoRect area) (pePolicy P) s
     else placeWith P w (pePolicy P) PlacementUnknown area s)"

section \<open>A whole desktop\<close>

definition freshCascade :: cascade_info where
  "freshCascade = \<lparr>ciPos = \<lparr>ipointX = -1, ipointY = -1\<rparr>, ciCol = 0, ciRow = 0\<rparr>"

definition reinitCascading :: "place_env \<Rightarrow> int \<Rightarrow> placing \<Rightarrow> placing option" where
  "reinitCascading P d s = (if d = 0 then Some (s\<lparr>cci := replicate (peDesktopCount P) freshCascade\<rparr>)
     else do {
       old \<leftarrow> atIdx (cci s) (d - 1);
       Some (s\<lparr>cci := (cci s)[nat (d - 1) := freshCascade]\<rparr>) })"

definition cascadeIndex :: "place_env \<Rightarrow> wid \<Rightarrow> int" where
  "cascadeIndex P w = (if peDesktopNumber P w = 0 \<or> isOnAllDesktops (attrs P w) then peCurrentNumber P - 1 else peDesktopNumber P w - 1)"

text \<open>The entry to start from, the position wrapped to the area and the position of the next column or row.\<close>

definition cascadeFrom :: "qrect \<Rightarrow> cascade_info \<Rightarrow> cascade_info" where
  "cascadeFrom area i = (if ipointX (ciPos i) < 0 \<or> ipointX (ciPos i) < irectX area \<or> ipointY (ciPos i) < irectY area
     then \<lparr>ciPos = \<lparr>ipointX = irectX area, ipointY = irectY area\<rparr>, ciCol = 0, ciRow = 0\<rparr> else i)"

definition cascadeColumn :: "qrect \<Rightarrow> qpoint \<Rightarrow> int \<Rightarrow> int \<Rightarrow> cascade_info \<Rightarrow> int \<times> cascade_info" where
  "cascadeColumn area delta xp yp i = (if xp \<noteq> irectX area \<and> yp = irectY area
     then (ipointX delta * (ciCol i + 1), i\<lparr>ciCol := ciCol i + 1\<rparr>) else (xp, i))"

definition cascadeRow :: "qrect \<Rightarrow> qpoint \<Rightarrow> int \<Rightarrow> int \<Rightarrow> cascade_info \<Rightarrow> int \<times> cascade_info" where
  "cascadeRow area delta xp yp i = (if yp \<noteq> irectY area \<and> xp = irectX area
     then (ipointY delta * (ciRow i + 1), i\<lparr>ciRow := ciRow i + 1\<rparr>) else (yp, i))"

definition placeCascaded :: "place_env \<Rightarrow> wid \<Rightarrow> qrect \<Rightarrow> placement_policy \<Rightarrow> placing \<Rightarrow> placing option" where
  "placeCascaded P w area next s = do {
     assertThat (ivalid area);
     let g = frameOf s w;
     (if \<not> rvalid g then Some s
      else do {
        delta \<leftarrow> cascadeOffset P s w;
        let dn = cascadeIndex P w;
        let next = nextOr PlacementSmart next;
        i \<leftarrow> atIdx (cci s) dn;
        let i = cascadeFrom area i;
        let keep = (\<lambda>i s. s\<lparr>cci := (cci s)[nat dn := i]\<rparr>);
        let fallback = (\<lambda>i. placeWith P w next PlacementUnknown (irect_to_rectf area) (keep i s));
        let yp = (if of_int (irectH area) < of_int (ipointY (ciPos i)) + rectH g then irectY area else ipointY (ciPos i));
        (if of_int (irectW area) < of_int (ipointX (ciPos i)) + rectW g \<and> yp = 0 then fallback i
         else do {
           let xp = (if of_int (irectW area) < of_int (ipointX (ciPos i)) + rectW g then irectX area else ipointX (ciPos i));
           let finish = (\<lambda>xp yp i. Some (keep (i\<lparr>ciPos := \<lparr>ipointX = xp + ipointX delta, ipointY = yp + ipointY delta\<rparr>\<rparr>)
             (placeAt P w (pointF xp yp) s)));
           (if ipointX (ciPos i) \<noteq> irectX area \<and> ipointY (ciPos i) \<noteq> irectY area
            then (let (xp, i) = cascadeColumn area delta xp yp i; (yp, i) = cascadeRow area delta xp yp i
              in if of_int (irectW area - irectX area) < of_int xp + rectW g \<or> of_int (irectH area - irectY area) < of_int yp + rectH g
                 then fallback i else finish xp yp i)
            else finish xp yp i) }) }) }"

fun placeAll :: "(wid \<Rightarrow> placing \<Rightarrow> placing option) \<Rightarrow> wid list \<Rightarrow> placing \<Rightarrow> placing option" where
  "placeAll f [] s = Some s"
| "placeAll f (w # ws) s = Option.bind (f w s) (placeAll f ws)"

definition arrangeable :: "place_env \<Rightarrow> wid \<Rightarrow> bool" where
  "arrangeable P w \<longleftrightarrow> onCurrentDesktop P w \<and> \<not> isMinimized (attrs P w) \<and> \<not> isOnAllDesktops (attrs P w) \<and> peMovable P w"

definition cascadeDesktop :: "place_env \<Rightarrow> placing \<Rightarrow> placing option" where
  "cascadeDesktop P s = do {
     s \<leftarrow> reinitCascading P (peCurrentNumber P) s;
     placeAll (\<lambda>w s. do { a \<leftarrow> areaOf P s PlacementArea w; placeCascaded P w (rtoRect a) PlacementUnknown s })
       (filter (\<lambda>w. isClient (attrs P w) \<and> arrangeable P w) (peStackingOrder P)) s }"

definition unclutterDesktop :: "place_env \<Rightarrow> placing \<Rightarrow> placing option" where
  "unclutterDesktop P s =
     placeAll (\<lambda>w s. do { a \<leftarrow> areaOf P s PlacementArea w; placeSmart P w (irect_to_rectf (rtoRect a)) s })
       (filter (arrangeable P) (rev (peAllClients P))) s"

end
