(* ===== verification/Packing.thy ===== *)
theory Packing
  imports Placement_Policies
begin

text \<open>
  Moving, growing and shrinking a window up to the next window or edge, and the combination of two tiling commands
  (the second half of \<open>src/src/placement.cpp\<close>).
\<close>

section \<open>The next edge\<close>

definition overlapY :: "qrectf \<Rightarrow> qrectf \<Rightarrow> bool" where
  "overlapY a b \<longleftrightarrow> \<not> (rbottom b - 1 < rtop a \<or> rbottom a - 1 < rtop b)"

definition overlapX :: "qrectf \<Rightarrow> qrectf \<Rightarrow> bool" where
  "overlapX a b \<longleftrightarrow> \<not> (rright b - 1 < rleft a \<or> rright a - 1 < rleft b)"

definition packDown :: "qreal \<Rightarrow> (bool \<times> qreal) \<Rightarrow> qreal \<Rightarrow> qreal" where
  "packDown old c new = (if new < snd c \<and> snd c < old \<and> fst c then snd c else new)"

definition packUp :: "qreal \<Rightarrow> (bool \<times> qreal) \<Rightarrow> qreal \<Rightarrow> qreal" where
  "packUp old c new = (if snd c < new \<and> old < snd c \<and> fst c then snd c else new)"

text \<open>The windows that can be in the way.\<close>

definition packWindows :: "place_env \<Rightarrow> wid \<Rightarrow> wid list" where
  "packWindows P w = filter (\<lambda>v. \<not> isIrrelevant P v w (placeDesktop P w)) (peAllClients P)"

definition packPositionLeft :: "place_env \<Rightarrow> placing \<Rightarrow> wid \<Rightarrow> qreal \<Rightarrow> bool \<Rightarrow> qreal option" where
  "packPositionLeft P s w oldX leftEdge = do {
     let g = frameOf s w;
     a \<leftarrow> areaOf P s MaximizeArea w;
     a \<leftarrow> (if oldX \<le> rleft a then areaAt P MaximizeArea w \<lparr>pointX = rleft g - 1, pointY = pointY (rcenter g)\<rparr> else Some a);
     Some (if oldX \<le> rleft a then oldX
       else fold (\<lambda>v. packDown oldX (overlapY g (frameOf s v), if leftEdge then rright (frameOf s v) else rleft (frameOf s v) - 1))
         (packWindows P w) (rleft a)) }"

definition packPositionRight :: "place_env \<Rightarrow> placing \<Rightarrow> wid \<Rightarrow> qreal \<Rightarrow> bool \<Rightarrow> qreal option" where
  "packPositionRight P s w oldX rightEdge = do {
     let g = frameOf s w;
     a \<leftarrow> areaOf P s MaximizeArea w;
     a \<leftarrow> (if rright a \<le> oldX then areaAt P MaximizeArea w \<lparr>pointX = rright g, pointY = pointY (rcenter g)\<rparr> else Some a);
     Some (if rright a \<le> oldX then oldX
       else fold (\<lambda>v. packUp oldX (overlapY g (frameOf s v), if rightEdge then rleft (frameOf s v) else rright (frameOf s v) + 1))
         (packWindows P w) (rright a)) }"

definition packPositionUp :: "place_env \<Rightarrow> placing \<Rightarrow> wid \<Rightarrow> qreal \<Rightarrow> bool \<Rightarrow> qreal option" where
  "packPositionUp P s w oldY topEdge = do {
     let g = frameOf s w;
     a \<leftarrow> areaOf P s MaximizeArea w;
     a \<leftarrow> (if oldY \<le> rtop a then areaAt P MaximizeArea w \<lparr>pointX = pointX (rcenter g), pointY = rtop g - 1\<rparr> else Some a);
     Some (if oldY \<le> rtop a then oldY
       else fold (\<lambda>v. packDown oldY (overlapX g (frameOf s v), if topEdge then rbottom (frameOf s v) else rtop (frameOf s v) - 1))
         (packWindows P w) (rtop a)) }"

definition packPositionDown :: "place_env \<Rightarrow> placing \<Rightarrow> wid \<Rightarrow> qreal \<Rightarrow> bool \<Rightarrow> qreal option" where
  "packPositionDown P s w oldY bottomEdge = do {
     let g = frameOf s w;
     a \<leftarrow> areaOf P s MaximizeArea w;
     a \<leftarrow> (if rbottom a \<le> oldY then areaAt P MaximizeArea w \<lparr>pointX = pointX (rcenter g), pointY = rbottom g\<rparr> else Some a);
     Some (if rbottom a \<le> oldY then oldY
       else fold (\<lambda>v. packUp oldY (overlapX g (frameOf s v), if bottomEdge then rtop (frameOf s v) else rbottom (frameOf s v) + 1))
         (packWindows P w) (rbottom a)) }"

section \<open>Moving\<close>

definition placeCall :: "place_call list \<Rightarrow> placing \<Rightarrow> placing" where
  "placeCall cs s = s\<lparr>plCalls := plCalls s @ cs\<rparr>"

definition packTo :: "place_env \<Rightarrow> wid \<Rightarrow> qreal \<Rightarrow> qreal \<Rightarrow> placing \<Rightarrow> placing" where
  "packTo P w x y s =
     (let s = placeCall [FocusMousePosition] s; old = mwMoveOutput (plWindows s w);
          s = placeAt P w \<lparr>pointX = x, pointY = y\<rparr> s; new = mwMoveOutput (plWindows s w)
      in if new = old then s
         else placeCall ([SendToOutput w new] @ (if peRequestedMaximize P w then [CheckPosition w] else [])) s)"

text \<open>The slots for the active window.\<close>

definition forMovable :: "place_env \<Rightarrow> wid option \<Rightarrow> (wid \<Rightarrow> placing \<Rightarrow> placing option) \<Rightarrow> placing \<Rightarrow> placing option" where
  "forMovable P active f s = (case active of None \<Rightarrow> Some s | Some w \<Rightarrow> if peMovable P w then f w s else Some s)"

definition slotWindowMoveLeft :: "place_env \<Rightarrow> wid option \<Rightarrow> placing \<Rightarrow> placing option" where
  "slotWindowMoveLeft P active = forMovable P active (\<lambda>w s. do {
     let g = movingOf s w; x \<leftarrow> packPositionLeft P s w (rleft g) True; Some (packTo P w x (rtop g) s) })"

definition slotWindowMoveRight :: "place_env \<Rightarrow> wid option \<Rightarrow> placing \<Rightarrow> placing option" where
  "slotWindowMoveRight P active = forMovable P active (\<lambda>w s. do {
     let g = movingOf s w; x \<leftarrow> packPositionRight P s w (rright g) True; Some (packTo P w (x - rectW g) (rtop g) s) })"

definition slotWindowMoveUp :: "place_env \<Rightarrow> wid option \<Rightarrow> placing \<Rightarrow> placing option" where
  "slotWindowMoveUp P active = forMovable P active (\<lambda>w s. do {
     let g = movingOf s w; y \<leftarrow> packPositionUp P s w (rtop g) True; Some (packTo P w (rleft g) y s) })"

definition slotWindowMoveDown :: "place_env \<Rightarrow> wid option \<Rightarrow> placing \<Rightarrow> placing option" where
  "slotWindowMoveDown P active = forMovable P active (\<lambda>w s. do {
     let g = movingOf s w; y \<leftarrow> packPositionDown P s w (rbottom g) True; Some (packTo P w (rleft g) (y - rectH g) s) })"

definition slotWindowCenter :: "place_env \<Rightarrow> wid option \<Rightarrow> placing \<Rightarrow> placing option" where
  "slotWindowCenter P active = forMovable P active (\<lambda>w s. do {
     let g = movingOf s w; a \<leftarrow> areaOf P s MaximizeArea w;
     Some (packTo P w (pointX (rcenter a) - rectW g / 2) (pointY (rcenter a) - rectH g / 2) s) })"

section \<open>Growing and shrinking\<close>

definition constrained :: "place_env \<Rightarrow> placing \<Rightarrow> wid \<Rightarrow> size_mode \<Rightarrow> qrectf \<Rightarrow> qrectf option" where
  "constrained P s w mode g = map_option (\<lambda>z. setSize z g) (constrainFrameSize (peScale P) (sizedOf s w) (rsize g) mode)"

definition resizable :: "place_env \<Rightarrow> wid \<Rightarrow> bool" where
  "resizable P w \<longleftrightarrow> \<not> (\<not> peResizable P w \<or> isShade (attrs P w))"

text \<open>The second attempt takes the increments of the client into account.\<close>

definition growHorizontal :: "place_env \<Rightarrow> wid \<Rightarrow> placing \<Rightarrow> placing option" where
  "growHorizontal P w s = (if \<not> resizable P w then Some s
     else do {
       let m = movingOf s w;
       right \<leftarrow> packPositionRight P s w (rright m) True;
       let g = setRight right m;
       adj \<leftarrow> constrainFrameSize (peScale P) (sizedOf s w) (rsize g) SizeModeFixedW;
       let inc = sizeW (resizeIncrements (peScale P) (sizedOf s w));
       g \<leftarrow> (if rsize m = adj \<and> rsize g \<noteq> adj \<and> 1 < inc
         then do {
           newright \<leftarrow> packPositionRight P s w (rright g + inc - 1) True;
           a \<leftarrow> areaAt P MovementArea w (pointF (trunc_int ((rleft (frameOf s w) + newright) / 2)) (trunc_int (pointY (rcenter m))));
           Some (if newright \<le> rright a then setRight newright g else g) }
         else Some g);
       g \<leftarrow> constrained P s w SizeModeFixedW g;
       g \<leftarrow> constrained P s w SizeModeFixedH g;
       Some (placeGeometry P w g (placeCall [FocusMousePosition] s)) })"

definition growVertical :: "place_env \<Rightarrow> wid \<Rightarrow> placing \<Rightarrow> placing option" where
  "growVertical P w s = (if \<not> resizable P w then Some s
     else do {
       let m = movingOf s w;
       bottom \<leftarrow> packPositionDown P s w (rbottom m) True;
       let g = setBottom bottom m;
       adj \<leftarrow> constrainFrameSize (peScale P) (sizedOf s w) (rsize g) SizeModeFixedH;
       let inc = sizeH (resizeIncrements (peScale P) (sizedOf s w));
       g \<leftarrow> (if rsize m = adj \<and> rsize g \<noteq> adj \<and> 1 < inc
         then do {
           newbottom \<leftarrow> packPositionDown P s w (rbottom g + inc) True;
           a \<leftarrow> areaAt P MovementArea w (pointF (trunc_int (pointX (rcenter m))) (trunc_int ((rtop (frameOf s w) + newbottom) / 2)));
           Some (if newbottom \<le> rbottom a then setBottom newbottom g else g) }
         else Some g);
       g \<leftarrow> constrained P s w SizeModeFixedH g;
       Some (placeGeometry P w g (placeCall [FocusMousePosition] s)) })"

definition shrinkHorizontal :: "place_env \<Rightarrow> wid \<Rightarrow> placing \<Rightarrow> placing option" where
  "shrinkHorizontal P w s = (if \<not> resizable P w then Some s
     else do {
       left \<leftarrow> packPositionLeft P s w (rright (movingOf s w)) False;
       let g = setRight (left + 1) (movingOf s w);
       (if rectW g \<le> 1 then Some s
        else do {
          g \<leftarrow> constrained P s w SizeModeFixedW g;
          Some (if 20 < rectW g then placeGeometry P w g (placeCall [FocusMousePosition] s) else s) }) })"

definition shrinkVertical :: "place_env \<Rightarrow> wid \<Rightarrow> placing \<Rightarrow> placing option" where
  "shrinkVertical P w s = (if \<not> resizable P w then Some s
     else do {
       top \<leftarrow> packPositionUp P s w (rbottom (movingOf s w)) False;
       let g = setBottom (top + 1) (movingOf s w);
       (if rectH g \<le> 1 then Some s
        else do {
          g \<leftarrow> constrained P s w SizeModeFixedH g;
          Some (if 20 < rectH g then placeGeometry P w g (placeCall [FocusMousePosition] s) else s) }) })"

text \<open>The slots that apply them to the active window.\<close>

definition forActive :: "wid option \<Rightarrow> (wid \<Rightarrow> placing \<Rightarrow> placing option) \<Rightarrow> placing \<Rightarrow> placing option" where
  "forActive active f s = (case active of None \<Rightarrow> Some s | Some w \<Rightarrow> f w s)"

definition policyToString :: "placement_policy \<Rightarrow> string" where
  "policyToString p = [''NoPlacement'', ''Default'', ''XXX should never see'', ''Random'', ''Smart'', ''Centered'', ''ZeroCornered'',
     ''UnderMouse'', ''OnMainWindow'', ''Maximizing''] ! nat (policyNumber p)"

section \<open>Combined tiling\<close>

text \<open>A tiling mode is the set of its flags; the timer runs for a second after the first command.\<close>

datatype tile_flag = TileLeft | TileRight | TileTop | TileBottom | TileCustom

record tile_combine =
  timerActive :: bool
  lastTilingMode :: "tile_flag set"

definition combines :: "tile_flag set \<Rightarrow> tile_flag set \<Rightarrow> bool" where
  "combines old new \<longleftrightarrow> ((old = {TileLeft} \<or> old = {TileRight}) \<and> (new = {TileTop} \<or> new = {TileBottom})) \<or>
     ((old = {TileTop} \<or> old = {TileBottom}) \<and> (new = {TileLeft} \<or> new = {TileRight}))"

text \<open>The mode that the active window is set to, if there is one.\<close>

definition quickTileWindow :: "wid option \<Rightarrow> tile_flag set \<Rightarrow> tile_combine \<Rightarrow> (wid \<times> tile_flag set) option \<times> tile_combine" where
  "quickTileWindow active mode t = (case active of None \<Rightarrow> (None, t)
     | Some w \<Rightarrow> if \<not> timerActive t then (Some (w, mode), t\<lparr>timerActive := True, lastTilingMode := mode\<rparr>)
         else (Some (w, if combines (lastTilingMode t) mode then mode \<union> lastTilingMode t else mode), t\<lparr>timerActive := False\<rparr>))"

definition tileTimeout :: "tile_combine \<Rightarrow> tile_combine" where
  "tileTimeout t = t\<lparr>timerActive := False\<rparr>"

end
