(* ===== verification/Pack_Properties.thy ===== *)
theory Pack_Properties
  imports Packing Smart_Placement
begin

text \<open>
  Packing finds the nearest edge: each of the four searches is the extreme of a list of edges. Two tiling commands give
  an edge or a corner.
\<close>

section \<open>The nearest edge\<close>

lemma Max_insert_max: "finite A \<Longrightarrow> Max (insert (max (n::'a::linorder) c) A) = Max (insert n (insert c A))"
  by (cases "A = {}") (simp_all add: max.assoc)

lemma Min_insert_min: "finite A \<Longrightarrow> Min (insert (min (n::'a::linorder) c) A) = Min (insert n (insert c A))"
  by (cases "A = {}") (simp_all add: min.assoc)

lemma fold_packDown:
  "fold (\<lambda>v. packDown old (f v, c v)) vs n = Max (set (n # filter (\<lambda>e. e < old) (map c (filter f vs))))"
proof (induction vs arbitrary: n)
  case (Cons v vs)
  have "packDown old (f v, c v) n = (if f v \<and> c v < old then max n (c v) else n)" by (auto simp: packDown_def max_def)
  then show ?case using Cons.IH by (auto simp: Max_insert_max simp del: set_filter)
qed simp

lemma fold_packUp:
  "fold (\<lambda>v. packUp old (f v, c v)) vs n = Min (set (n # filter (\<lambda>e. old < e) (map c (filter f vs))))"
proof (induction vs arbitrary: n)
  case (Cons v vs)
  have "packUp old (f v, c v) n = (if f v \<and> old < c v then min n (c v) else n)" by (auto simp: packUp_def min_def)
  then show ?case using Cons.IH by (auto simp: Min_insert_min simp del: set_filter)
qed simp

text \<open>The windows beside and above or below a window.\<close>

definition besides :: "place_env \<Rightarrow> placing \<Rightarrow> wid \<Rightarrow> wid list" where
  "besides P s w = filter (\<lambda>v. overlapY (frameOf s w) (frameOf s v)) (packWindows P w)"

definition stackedWith :: "place_env \<Rightarrow> placing \<Rightarrow> wid \<Rightarrow> wid list" where
  "stackedWith P s w = filter (\<lambda>v. overlapX (frameOf s w) (frameOf s v)) (packWindows P w)"


text \<open>Window 1 with window 2 to its left, both on the output 0.\<close>

definition demo_packing :: placing where
  "demo_packing = demo_placing\<lparr>plWindows := (\<lambda>w. demo_moving\<lparr>mwFrame := \<lparr>rectX = (if w = 1 then 300 else 0), rectY = 0,
     rectW = 100, rectH = 100\<rparr>, mwOutput := Some 0\<rparr>)\<rparr>"

lemma demo_packing_simps:
  "areaOf demo_place demo_packing MaximizeArea 1 = Some (fractionalOf demo_areas 0)"
  "besides demo_place demo_packing 1 = [2]"
  by (simp_all add: areaOf_def demo_packing_def demo_place_def clientAreaOn_def clientArea_def demo_areas_def besides_def
    packWindows_def isIrrelevant_def placeDesktop_def onCurrentDesktop_def overlapY_def isOnCurrentActivity_def demo_env_def
    demo_window_def isOnDesktop_def isOnAllDesktops_def rect_ops)


section \<open>Tiling\<close>

definition edgeFlag :: "tile_flag \<Rightarrow> bool" where "edgeFlag f \<longleftrightarrow> f \<noteq> TileCustom"
definition sideFlag :: "tile_flag \<Rightarrow> bool" where "sideFlag f \<longleftrightarrow> f = TileLeft \<or> f = TileRight"

text \<open>Two commands within a second tile into the corner between the two edges, or else to the second edge alone.\<close>

lemma tile_two_commands:
  assumes "edgeFlag f" "edgeFlag g" "\<not> timerActive t"
  shows "fst (quickTileWindow (Some w) {g} (snd (quickTileWindow (Some w) {f} t))) =
    Some (w, if sideFlag f \<noteq> sideFlag g then {f, g} else {g})"
  using assms by (cases f; cases g) (auto simp: quickTileWindow_def combines_def edgeFlag_def sideFlag_def)

end
