(* ===== verification/Place_Properties.thy ===== *)
theory Place_Properties
  imports Pack_Properties
begin

text \<open>
  Placing a window: it moves no other window, it always ends, dialogs end over their main window and inside the work area, and
  what cascading does.
\<close>

section \<open>Only the window is moved\<close>

named_theorems moves_one "operations that change one window only"

definition onlyMoves :: "wid \<Rightarrow> placing \<Rightarrow> placing \<Rightarrow> bool" where
  "onlyMoves w s t \<longleftrightarrow> plWindows t = (plWindows s)(w := plWindows t w) \<and> cci t = cci s \<and> plCalls t = plCalls s"

lemma onlyMoves_refl [moves_one]: "onlyMoves w s s"
  by (simp add: onlyMoves_def)

lemma onlyMoves_trans: "onlyMoves w s t \<Longrightarrow> onlyMoves w t u \<Longrightarrow> onlyMoves w s u"
  unfolding onlyMoves_def by (metis fun_upd_upd)

lemma onlyMoves_change [moves_one]: "onlyMoves w s (changeWindow w f s)"
  by (simp add: onlyMoves_def changeWindow_def)

lemma onlyMoves_at [moves_one]: "onlyMoves w s (placeAt P w p s)" "onlyMoves w s (placeGeometry P w r s)"
  by (simp_all add: placeAt_def placeGeometry_def onlyMoves_change)

lemma onlyMoves_random [moves_one]: "onlyMoves w (s\<lparr>randomX := x, randomY := y\<rparr>) t \<Longrightarrow> onlyMoves w s t"
  by (simp add: onlyMoves_def)

lemma onlyMoves_inArea: "placeInArea P w area s = Some t \<Longrightarrow> onlyMoves w s t"
  by (auto simp: placeInArea_def onlyMoves_def split: bind_splits)

lemma onlyMoves_cascade: "cascadeIfCovering P w area s = Some t \<Longrightarrow> onlyMoves w s t"
  by (auto simp: cascadeIfCovering_def Let_def moves_one split: bind_splits option.splits if_splits)

lemma onlyMoves_policies:
  "placeAtRandom P w r s = Some t \<Longrightarrow> onlyMoves w s t"
  "placeCentered P w area s = Some t \<Longrightarrow> onlyMoves w s t"
  "placeZeroCornered P w r s = Some t \<Longrightarrow> onlyMoves w s t"
  "placeUnderMouse P w r s = Some t \<Longrightarrow> onlyMoves w s t"
  "placeSmart P w area s = Some t \<Longrightarrow> onlyMoves w s t"
  "placeOnScreenDisplay P w r s = Some t \<Longrightarrow> onlyMoves w s t"
  "placeTransient P w s = Some t \<Longrightarrow> onlyMoves w s t"
  "placeOver P w m s = Some t \<Longrightarrow> onlyMoves w s t"
  "fillArea P w r s = Some t \<Longrightarrow> onlyMoves w s t"
  "growTowards P w r s = Some t \<Longrightarrow> onlyMoves w s t"
  subgoal by (auto simp: placeAtRandom_def Let_def split: bind_splits prod.splits
      dest!: onlyMoves_cascade intro: onlyMoves_random onlyMoves_trans[OF onlyMoves_at(1)])
  subgoal by (auto simp: placeCentered_def Let_def moves_one split: bind_splits if_splits
      dest!: onlyMoves_cascade intro: onlyMoves_trans[OF onlyMoves_at(1)])
  subgoal by (auto simp: placeZeroCornered_def split: bind_splits dest!: onlyMoves_cascade intro: onlyMoves_trans[OF onlyMoves_at(1)])
  subgoal by (auto simp: placeUnderMouse_def Let_def split: bind_splits dest!: onlyMoves_cascade onlyMoves_inArea
      intro: onlyMoves_trans onlyMoves_trans[OF onlyMoves_at(1)])
  subgoal by (auto simp: placeSmart_def moves_one split: bind_splits if_splits)
  subgoal by (auto simp: placeOnScreenDisplay_def Let_def moves_one split: bind_splits)
  subgoal by (auto simp: placeTransient_def moves_one split: bind_splits)
  subgoal by (auto simp: placeOver_def Let_def split: bind_splits dest!: onlyMoves_inArea intro: onlyMoves_trans[OF onlyMoves_at(1)])
  subgoal by (auto simp: fillArea_def moves_one split: bind_splits)
  subgoal by (auto simp: growTowards_def moves_one split: bind_splits)
  done

lemma onlyMoves_with:
  "placeWith P w p nx area s = Some t \<Longrightarrow> onlyMoves w s t"
  "placeMaximizing P w nx r s = Some t \<Longrightarrow> onlyMoves w s t"
  "placeOnMainWindow P w nx r s = Some t \<Longrightarrow> onlyMoves w s t"
proof (induction P w p nx area s and P w nx r s and P w nx r s arbitrary: t and t and t
    rule: placeWith_placeMaximizing_placeOnMainWindow.induct)
  case (1 P w p nx area s)
  note run = 1(3)[unfolded placeWith.simps[of P w p] Let_def]
  then show ?case using 1(1,2) by (auto simp: moves_one split: if_splits dest: onlyMoves_policies)
next
  case (2 P w nx area s)
  show ?case
  proof (cases "fillsArea P w area s")
    case True
    then show ?thesis using 2(2)[unfolded placeMaximizing.simps[of P w]] by (auto split: if_splits dest: onlyMoves_policies)
  next
    case False
    then obtain u where u: "ivalid area" "growTowards P w area s = Some u"
      "placeWith P w (nextOr PlacementSmart nx) PlacementUnknown (irect_to_rectf area) u = Some t"
      using 2(2)[unfolded placeMaximizing.simps[of P w]] by (auto split: if_splits option.splits)
    from 2(1)[OF _ False u(2,3)] u(1) have "onlyMoves w u t" by simp
    then show ?thesis using onlyMoves_policies(10)[OF u(2)] by (rule onlyMoves_trans[rotated])
  qed
next
  case (3 P w nx area s)
  let ?grown = "if nextOr PlacementCentered nx = PlacementMaximizing then placeMaximizing P w PlacementNone area s else Some s"
  obtain u where u: "ivalid area" "?grown = Some u"
    and run: "(case placeOnTarget P w of None \<Rightarrow> placeWith P w PlacementCentered PlacementUnknown (irect_to_rectf area) u
        | Some m \<Rightarrow> placeOver P w m u) = Some t"
    using 3(3)[unfolded placeOnMainWindow.simps[of P w]] by (cases "ivalid area"; cases ?grown) simp_all
  have "onlyMoves w s u" using u 3(1) by (auto simp: moves_one split: if_splits)
  moreover have "onlyMoves w u t"
    using run u 3(2)[OF _ u(2)] by (auto split: option.splits dest: onlyMoves_policies(8))
  ultimately show ?case by (rule onlyMoves_trans)
qed


lemma moving_of_request:
  "mwMoving (requestGeometry A xs r mode m) = r"
proof -
  have up: "mwMoving (updateGeometry A r m) = mwMoving m" for r m by (simp add: updateGeometry_def geoCalls_def Let_def)
  have "mwMoving (moveResizeInternal A xs r mode m) = mwMoving m" for m
    by (simp add: moveResizeInternal_def x11MoveResizeInternal_def xdgMoveResizeInternal_def up geoCalls_def Let_def split: prod.split)
  then show ?thesis by (simp add: requestGeometry_def setMoveResizeGeometry_def geoCalls_def Let_def)
qed

lemma moving_of_move: "mwMoving (moveWindow A xs p m) = rectOf p (rsize (mwMoving m))" "mwMoving (moveResizeWindow A xs r m) = r"
  by (simp_all add: moveWindow_def moveResizeWindow_def moving_of_request)

section \<open>Placing always ends\<close>

lemma rtoRect_int [simp]: "rtoRect (irect_to_rectf r) = r"
proof -
  have "qRound (of_int a + of_int b) = a + b" for a b using qRound_of_int[of "a + b"] by simp
  then show ?thesis by (simp add: rtoRect_def irect_to_rectf_def rect_ops)
qed

lemma rvalid_int [simp]: "rvalid (irect_to_rectf r) = ivalid r"
  by (simp add: rvalid_def ivalid_def irect_to_rectf_def)

definition wholeBottom :: "qrectf \<Rightarrow> bool" where
  "wholeBottom r \<longleftrightarrow> of_int (trunc_int (rbottom r)) = rbottom r"

lemma wholeBottom_int [simp]: "wholeBottom (irect_to_rectf r)"
proof -
  have "rbottom (irect_to_rectf r) = of_int (irectY r + irectH r)" by (simp add: irect_to_rectf_def rect_ops)
  then show ?thesis by (simp only: wholeBottom_def trunc_int_of_int)
qed

lemma outputAt_some: "m_outputs A \<noteq> [] \<Longrightarrow> outputAt A p \<noteq> None"
  using nearestOutput_some[of None "m_outputs A" A p] by (simp add: outputAt_def)

lemma areaAt_some: "m_outputs (peAreas P) \<noteq> [] \<Longrightarrow> areaAt P opt w p \<noteq> None"
  using outputAt_some by (simp add: areaAt_def clientAreaAt_def)

text \<open>A move keeps that the window has an output, and does not touch what its sizes depend on.\<close>

definition settledOn :: "sized_window \<Rightarrow> moving_window \<Rightarrow> bool" where
  "settledOn z m \<longleftrightarrow> mwOutput m \<noteq> None \<and> mwSized m = z"

lemma settledOn_updates [simp]:
  "settledOn z (m\<lparr>mwCalls := a\<rparr>) = settledOn z m" "settledOn z (m\<lparr>mwConfigurePosition := b\<rparr>) = settledOn z m"
  "settledOn z (m\<lparr>mwQueuedPositions := c\<rparr>) = settledOn z m" "settledOn z (m\<lparr>mwPending := d\<rparr>) = settledOn z m"
  "settledOn z (m\<lparr>mwMoving := e\<rparr>) = settledOn z m" "settledOn z (m\<lparr>mwMoveOutput := f\<rparr>) = settledOn z m"
  by (simp_all add: settledOn_def)

lemma settledOn_request:
  assumes "m_outputs A \<noteq> []" "settledOn z m"
  shows "settledOn z (requestGeometry A xs r mode m)"
proof -
  have up: "settledOn z (updateGeometry A r m)" if "settledOn z m" for r m
    using that outputAt_some[OF assms(1)] by (simp add: updateGeometry_def settledOn_def geoCalls_def Let_def)
  have xdg: "settledOn z (xdgMoveResizeInternal A r mode m)" if "settledOn z m" for m
    unfolding xdgMoveResizeInternal_def Let_def using that by (simp add: up geoCalls_def)
  have x11: "settledOn z (x11MoveResizeInternal A xs r mode m)" if "settledOn z m" for m
    unfolding x11MoveResizeInternal_def Let_def using that outputAt_some[OF assms(1)]
    by (simp add: settledOn_def geoCalls_def split: prod.split)
  have "settledOn z (setMoveResizeGeometry A r m)" using assms(2) by (simp add: setMoveResizeGeometry_def)
  then show ?thesis unfolding requestGeometry_def Let_def moveResizeInternal_def using xdg x11
    by (simp add: geoCalls_def)
qed

lemma settledOn_moves:
  assumes "m_outputs A \<noteq> []" "settledOn z m"
  shows "settledOn z (moveWindow A xs p m)" "settledOn z (moveResizeWindow A xs r m)"
  unfolding moveWindow_def moveResizeWindow_def by (rule settledOn_request[OF assms])+

definition sizable :: "sized_window \<Rightarrow> bool" where
  "sizable z \<longleftrightarrow> szX11 z \<longrightarrow> \<not> testFlag (szHints z) AspectFlag"

lemma resizeWithChecks_some:
  assumes "sizable z" "m_outputs A \<noteq> []"
  shows "\<exists>g. resizeWithChecks A cur xs z r sz = Some g"
proof -
  obtain p where p: "outputAt A (rcenter r) = Some p" using outputAt_some[OF assms(2)] by blast
  have "\<exists>t. constrainClientSize xs z u mode = Some t" if "szX11 z" for u mode
    using that assms(1) by (simp add: constrainClientSize_def x11ConstrainClientSize_def sizable_def Let_def)
  then have "\<exists>t. constrainFrameSize xs z u mode = Some t" if "szX11 z" for u mode
    using that unfolding constrainFrameSize_def by (metis bind.bind_lunit)
  then obtain t where t: "szX11 z \<Longrightarrow> constrainFrameSize xs z (boundedTo sz (rsize (if szKeepAbove z
      then clientAreaOn A cur FullArea (szDesktops z) (szOutput z) else clientAreaOn A cur WorkArea (szDesktops z) p))) SizeModeAny = Some t"
    by blast
  show ?thesis
  proof (cases "szX11 z")
    case True
    then show ?thesis using p t[OF True]
      by (cases "szKeepAbove z") (simp_all add: resizeWithChecks_def x11ResizeWithChecks_def clientAreaAt_def Let_def)
  qed (use p in \<open>simp add: resizeWithChecks_def clientAreaAt_def\<close>)
qed

lemma keepInArea_some:
  assumes "sizable z" "m_outputs A \<noteq> []"
  shows "\<exists>g. keepInArea A cur xs z m r area False = Some g"
proof -
  obtain g where "resizeWithChecks A cur xs z r (boundedTo (rsize r) (rsize area)) = Some g" using resizeWithChecks_some[OF assms] by blast
  then show ?thesis by (simp add: keepInArea_def Let_def)
qed

definition placeable :: "place_env \<Rightarrow> wid \<Rightarrow> sized_window \<Rightarrow> placing \<Rightarrow> bool" where
  "placeable P w z s \<longleftrightarrow> m_outputs (peAreas P) \<noteq> [] \<and> settledOn z (plWindows s w) \<and> sizable z \<and>
     (\<forall>v \<in> set (peStackingOrder P) - {w}. 0 \<le> rectW (frameOf s v) \<and> 0 \<le> rectH (frameOf s v))"

definition keepsWindow :: "place_env \<Rightarrow> bool" where
  "keepsWindow P \<longleftrightarrow> (\<forall>w m. mwOutput m \<noteq> None \<longrightarrow> settledOn (mwSized m) (peMaximize P w m))"

lemma keepsWindow: "keepsWindow P \<Longrightarrow> settledOn z m \<Longrightarrow> settledOn z (peMaximize P w m)"
  by (auto simp: keepsWindow_def settledOn_def)

lemma placeable_change: "placeable P w z s \<Longrightarrow> settledOn z (f (plWindows s w)) \<Longrightarrow> placeable P w z (changeWindow w f s)"
  by (auto simp: placeable_def changeWindow_def)

lemma placeable_random [simp]: "placeable P w z (s\<lparr>randomX := x, randomY := y\<rparr>) = placeable P w z s"
  by (simp add: placeable_def)

lemma placeable_at:
  assumes "placeable P w z s"
  shows "placeable P w z (placeAt P w p s)" "placeable P w z (placeGeometry P w r s)"
proof -
  have h: "m_outputs (peAreas P) \<noteq> []" "settledOn z (plWindows s w)" using assms by (simp_all add: placeable_def)
  show "placeable P w z (placeAt P w p s)" "placeable P w z (placeGeometry P w r s)"
    unfolding placeAt_def placeGeometry_def by (intro placeable_change[OF assms] settledOn_moves[OF h])+
qed

text \<open>A result that the next operation can start from.\<close>

definition goesOn :: "place_env \<Rightarrow> wid \<Rightarrow> sized_window \<Rightarrow> placing option \<Rightarrow> bool" where
  "goesOn P w z r \<longleftrightarrow> (case r of None \<Rightarrow> False | Some t \<Rightarrow> placeable P w z t)"

lemma goesOn_simps [simp]: "goesOn P w z (Some t) = placeable P w z t" "\<not> goesOn P w z None"
  by (simp_all add: goesOn_def)

lemma goesOn_E: "goesOn P w z r \<Longrightarrow> (\<And>t. r = Some t \<Longrightarrow> placeable P w z t \<Longrightarrow> thesis) \<Longrightarrow> thesis"
  by (cases r) auto

lemma goesOn_bind: "goesOn P w z r \<Longrightarrow> (\<And>t. placeable P w z t \<Longrightarrow> goesOn P w z (f t)) \<Longrightarrow> goesOn P w z (Option.bind r f)"
  by (cases r) auto

lemma goesOn_bind_some: "r \<noteq> None \<Longrightarrow> (\<And>a. goesOn P w z (f a)) \<Longrightarrow> goesOn P w z (Option.bind r f)"
  by (cases r) auto

lemma goesOn_inArea:
  assumes "placeable P w z s"
  shows "goesOn P w z (placeInArea P w area s)"
proof -
  have h: "m_outputs (peAreas P) \<noteq> []" "settledOn z (plWindows s w)" "sizable z" "mwSized (plWindows s w) = z"
    using assms by (simp_all add: placeable_def settledOn_def)
  obtain g where g: "keepWindowInArea (peAreas P) (peCurrent P) (peScale P) area False (plWindows s w) =
      Some (moveResizeWindow (peAreas P) (peScale P) g (plWindows s w))"
    using keepInArea_some[OF h(3,1), of "peCurrent P" "peScale P" "movingOf s w" "movingOf s w" area] h(4)
    unfolding keepWindowInArea_def by auto
  then show ?thesis using placeable_at(2)[OF assms, of g]
    by (simp add: placeInArea_def placeGeometry_def changeWindow_def)
qed

lemma goesOn_cascade:
  assumes "placeable P w z s"
  shows "goesOn P w z (cascadeIfCovering P w area s)"
proof -
  have "m_outputs (peAreas P) \<noteq> []" using assms by (simp add: placeable_def)
  from areaAt_some[OF this] obtain a where "areaAt P PlacementArea w (rcenter (frameOf s w)) = Some a" by blast
  then show ?thesis using placeable_at(1)[OF assms] assms
    by (auto simp: cascadeIfCovering_def cascadeOffset_def Let_def split: option.split)
qed

lemma goesOn_smart:
  assumes "placeable P w z s" "rvalid area" "wholeBottom area"
  shows "goesOn P w z (placeSmart P w area s)"
  using placeSmart_total[of area P w s] assms placeable_at(1)[OF assms(1)] by (auto simp: placeable_def wholeBottom_def)

lemma goesOn_policies:
  assumes "placeable P w z s"
  shows "ivalid r \<Longrightarrow> goesOn P w z (placeAtRandom P w r s)" "rvalid area \<Longrightarrow> goesOn P w z (placeCentered P w area s)"
    "ivalid r \<Longrightarrow> goesOn P w z (placeZeroCornered P w r s)" "ivalid r \<Longrightarrow> goesOn P w z (placeUnderMouse P w r s)"
    "ivalid r \<Longrightarrow> goesOn P w z (placeOnScreenDisplay P w r s)"
  subgoal using assms by (simp add: placeAtRandom_def Let_def goesOn_cascade placeable_at split: prod.split)
  subgoal using assms by (simp add: placeCentered_def Let_def goesOn_cascade placeable_at)
  subgoal using assms by (simp add: placeZeroCornered_def goesOn_cascade placeable_at)
  subgoal using goesOn_inArea[OF placeable_at(1)[OF assms]] by (simp add: placeUnderMouse_def Let_def goesOn_bind goesOn_cascade)
  subgoal using assms by (simp add: placeOnScreenDisplay_def Let_def placeable_at)
  done

lemma areaOf_some: "placeable P w z s \<Longrightarrow> areaOf P s opt w \<noteq> None"
  by (simp add: placeable_def settledOn_def areaOf_def)

lemma goesOn_over:
  assumes "placeable P w z s"
  shows "goesOn P w z (placeOver P w m s)"
  unfolding placeOver_def Let_def
  by (rule goesOn_bind_some[OF areaOf_some[OF placeable_at(1)[OF assms]]]) (rule goesOn_inArea[OF placeable_at(1)[OF assms]])

lemma goesOn_fill:
  assumes "placeable P w z s" "keepsWindow P"
  shows "goesOn P w z (fillArea P w r s)"
proof -
  obtain a where "areaOf P s MaximizeArea w = Some a" using areaOf_some[OF assms(1)] by blast
  moreover have "settledOn z (plWindows s w)" using assms(1) by (simp add: placeable_def)
  ultimately show ?thesis using placeable_at(2)[OF assms(1)] placeable_change[OF assms(1) keepsWindow[OF assms(2)]]
    by (simp add: fillArea_def)
qed

lemma goesOn_grow:
  assumes "placeable P w z s"
  shows "goesOn P w z (growTowards P w r s)"
proof -
  have h: "sizable z" "m_outputs (peAreas P) \<noteq> []" "sizedOf s w = z" using assms by (simp_all add: placeable_def settledOn_def)
  obtain g where "resizeWithChecks (peAreas P) (peCurrent P) (peScale P) z (movingOf s w)
       (boundedTo (maxSize (peScale P) z) \<lparr>sizeW = of_int (irectW r), sizeH = of_int (irectH r)\<rparr>) = Some g"
    using resizeWithChecks_some[OF h(1,2)] by blast
  then show ?thesis using placeable_at(2)[OF assms] h(3) by (simp add: growTowards_def)
qed

lemma goesOn_with:
  "placeable P w z s \<Longrightarrow> keepsWindow P \<Longrightarrow> rvalid area \<Longrightarrow> ivalid (rtoRect area) \<Longrightarrow> wholeBottom area \<Longrightarrow>
     goesOn P w z (placeWith P w p nx area s)"
  "placeable P w z s \<Longrightarrow> keepsWindow P \<Longrightarrow> ivalid r \<Longrightarrow> goesOn P w z (placeMaximizing P w nx r s)"
  "placeable P w z s \<Longrightarrow> keepsWindow P \<Longrightarrow> ivalid r \<Longrightarrow> goesOn P w z (placeOnMainWindow P w nx r s)"
proof (induction P w p nx area s and P w nx r s and P w nx r s rule: placeWith_placeMaximizing_placeOnMainWindow.induct)
  case (1 P w p nx area s)
  then show ?case unfolding placeWith.simps[of P w p] Let_def by (simp add: goesOn_policies goesOn_smart)
next
  case (2 P w nx area s)
  show ?case
  proof (cases "fillsArea P w area s")
    case True
    then show ?thesis using 2 by (simp add: placeMaximizing.simps[of P w] goesOn_fill)
  next
    case False
    obtain t where t: "growTowards P w area s = Some t" "placeable P w z t" using goesOn_grow[OF 2(2)] by (rule goesOn_E)
    have "goesOn P w z (placeWith P w (nextOr PlacementSmart nx) PlacementUnknown (irect_to_rectf area) t)"
      using 2(1)[OF _ False t(1,2)] 2(3,4) by simp
    then show ?thesis using False t 2(4) by (simp add: placeMaximizing.simps[of P w])
  qed
next
  case (3 P w nx area s)
  let ?grown = "if nextOr PlacementCentered nx = PlacementMaximizing then placeMaximizing P w PlacementNone area s else Some s"
  have "goesOn P w z ?grown" using 3 by simp
  then obtain t where t: "?grown = Some t" "placeable P w z t" by (rule goesOn_E)
  have "goesOn P w z (placeWith P w PlacementCentered PlacementUnknown (irect_to_rectf area) t)" if "placeOnTarget P w = None"
    using 3(2)[OF _ t(1) that t(2)] 3(4,5) by simp
  then show ?case using t goesOn_over[OF t(2)] 3(5) by (simp add: placeOnMainWindow.simps[of P w] split: option.split)
qed

lemma place_total:
  assumes "m_outputs (peAreas P) \<noteq> []" "mwOutput (plWindows s w) \<noteq> None" "sizable (sizedOf s w)"
    "\<forall>v \<in> set (peStackingOrder P). 0 \<le> rectW (frameOf s v) \<and> 0 \<le> rectH (frameOf s v)"
    "\<forall>w m. mwOutput m \<noteq> None \<longrightarrow> settledOn (mwSized m) (peMaximize P w m)"
    "rvalid area" "ivalid (rtoRect area)" "of_int (trunc_int (rbottom area)) = rbottom area"
    "isTransient (attrs P w) \<and> hasTransientPlacementHint (attrs P w) \<Longrightarrow>
       \<exists>p. transientFor (attrs P w) = Some p \<and> mwOutput (plWindows s p) \<noteq> None"
  shows "\<exists>t. place P w area s = Some t"
proof -
  have start: "placeable P w (sizedOf s w) s" using assms(1-4) by (auto simp: placeable_def settledOn_def)
  have keep: "keepsWindow P" using assms(5) by (simp add: keepsWindow_def)
  have whole: "wholeBottom area" using assms(8) by (simp add: wholeBottom_def)
  note any = goesOn_with[OF start keep]
  have transient: "\<exists>t. placeTransient P w s = Some t" if "isTransient (attrs P w)" "hasTransientPlacementHint (attrs P w)"
    using assms(9) that by (auto simp: placeTransient_def areaOf_def)
  have "\<exists>t. r = Some t" if "goesOn P w (sizedOf s w) r" for r using that by (rule goesOn_E) blast
  note some = this[OF any(1)] this[OF any(3)] this[OF goesOn_policies(5)[OF start]]
  show ?thesis using some transient assms(6,7) whole
    by (simp add: place_def placeUtility_def placeDialog_def Let_def)
qed


lemma demo_area_at: "\<exists>a. areaAt demo_place opt w q = Some a"
  using areaAt_some[of demo_place opt w q] by (auto simp: demo_place_def demo_areas_def)

text \<open>A window 1 over the window 2, with window 3 at the next position of the cascade; window 1 as a dialog of window 2.\<close>

definition demo_cascade :: placing where
  "demo_cascade = demo_placing\<lparr>plWindows := (\<lambda>w. demo_moving\<lparr>mwFrame := \<lparr>rectX = (if w = 3 then 22 else 0),
     rectY = (if w = 3 then 12 else 0), rectW = 100, rectH = 100\<rparr>, mwMoving := \<lparr>rectX = 0, rectY = 0, rectW = 100, rectH = 100\<rparr>,
     mwOutput := Some 0\<rparr>)\<rparr>"

definition demo_dialog :: place_env where
  "demo_dialog = demo_place\<lparr>peEnv := demo_env\<lparr>windowAt := (\<lambda>w. demo_window\<lparr>windowType := (if w = 1 then NETDialog else NETNormal)\<rparr>)\<rparr>,
     peMainWindows := (\<lambda>_. [2])\<rparr>"

lemma demo_place_some:
  assumes "P = demo_place \<or> P = demo_dialog"
  shows "\<exists>t. place P 1 (irect_to_rectf \<lparr>irectX = 0, irectY = 0, irectW = 1000, irectH = 700\<rparr>) demo_cascade = Some t"
  using assms by (intro place_total) (auto simp: demo_dialog_def demo_place_def demo_areas_def demo_cascade_def sizable_def
    demo_moving_def demo_sized_def demo_hints_def testFlag_def settledOn_def ivalid_def
    wholeBottom_int[unfolded wholeBottom_def] demo_env_def demo_window_def)



section \<open>Dialogs\<close>

lemma output_of_request:
  "mwOutput (requestGeometry A xs r mode m) = mwOutput m \<or> (\<exists>q. mwOutput (requestGeometry A xs r mode m) = outputAt A q)"
proof -
  have up: "mwOutput (updateGeometry A r m) = mwOutput m \<or> (\<exists>q. mwOutput (updateGeometry A r m) = outputAt A q)" for r m
    by (auto simp: updateGeometry_def geoCalls_def Let_def)
  have "mwOutput (moveResizeInternal A xs r mode m) = mwOutput m \<or> (\<exists>q. mwOutput (moveResizeInternal A xs r mode m) = outputAt A q)" for m
  proof (cases "szX11 (mwSized m)")
    case True
    then show ?thesis by (auto simp: moveResizeInternal_def x11MoveResizeInternal_def geoCalls_def Let_def split: prod.split)
  next
    case False
    have "mwOutput (updateGeometry A r (m\<lparr>mwCalls := c, mwConfigurePosition := b, mwQueuedPositions := l\<rparr>)) = mwOutput m \<or>
       (\<exists>q. mwOutput (updateGeometry A r (m\<lparr>mwCalls := c, mwConfigurePosition := b, mwQueuedPositions := l\<rparr>)) = outputAt A q)"
      for r b c l using up[of r "m\<lparr>mwCalls := c, mwConfigurePosition := b, mwQueuedPositions := l\<rparr>"] by simp
    moreover have "mwOutput (updateGeometry A r (m\<lparr>mwCalls := c\<rparr>)) = mwOutput m \<or>
       (\<exists>q. mwOutput (updateGeometry A r (m\<lparr>mwCalls := c\<rparr>)) = outputAt A q)"
      for r c using up[of r "m\<lparr>mwCalls := c\<rparr>"] by simp
    ultimately show ?thesis using False by (simp add: moveResizeInternal_def xdgMoveResizeInternal_def geoCalls_def Let_def)
  qed
  from this[of "setMoveResizeGeometry A r m"] show ?thesis
    by (auto simp: requestGeometry_def setMoveResizeGeometry_def geoCalls_def Let_def)
qed

lemma single_output:
  assumes "m_outputs (peAreas P) = [p]" "mwOutput (plWindows s w) = Some p"
  shows "mwOutput (plWindows (placeAt P w q s) w) = Some p"
proof -
  have "outputAt (peAreas P) q = Some p" for q using assms(1) by (simp add: outputAt_def Let_def)
  then show ?thesis using output_of_request[of "peAreas P" "peScale P" _ ModeMove "plWindows s w"] assms(2)
    by (auto simp: placeAt_def changeWindow_def moveWindow_def)
qed

lemma placeInArea_moving:
  assumes "placeInArea P w area s = Some t" "rectW (movingOf s w) \<le> rectW area" "rectH (movingOf s w) \<le> rectH area"
  shows "rwithin (movingOf t w) area" "rsize (movingOf t w) = rsize (movingOf s w)"
    "rwithin (movingOf s w) area \<Longrightarrow> movingOf t w = movingOf s w"
proof -
  obtain g where g: "keepInArea (peAreas P) (peCurrent P) (peScale P) (sizedOf s w) (movingOf s w) (movingOf s w) area False = Some g"
    and t: "movingOf t w = g"
    using assms(1) by (auto simp: placeInArea_def keepWindowInArea_def moving_of_move split: bind_splits)
  have "rwithin g area \<and> rsize g = rsize (movingOf s w) \<and> (rwithin (movingOf s w) area \<longrightarrow> g = movingOf s w)"
    using assms(2,3) g by (auto simp: keepInArea_def Let_def rect_ops rwithin_def)
  then show "rwithin (movingOf t w) area" "rsize (movingOf t w) = rsize (movingOf s w)"
    "rwithin (movingOf s w) area \<Longrightarrow> movingOf t w = movingOf s w" using t by simp_all
qed



section \<open>Cascading\<close>

text \<open>cascading looks at one window only. When the window that is covered has another one behind it at the next position
  of the cascade, the placed window ends exactly over that one.\<close>

theorem cascade_covers_next:
  assumes "find (\<lambda>v. \<not> isIrrelevant P v w (placeDesktop P w) \<and> rintersects (frameOf s v) (frameOf s w)) (rev (peStackingOrder P)) = Some v"
    "cascadeOffset P s w = Some d" "rsize (frameOf s u) = rsize (frameOf s w)" "rsize (movingOf s w) = rsize (frameOf s w)"
    "rtopLeft (frameOf s u) = moveBy (rtopLeft (frameOf s v)) d" "rright (frameOf s u) \<le> rright area" "rbottom (frameOf s u) \<le> rbottom area"
  shows "\<exists>t. cascadeIfCovering P w area s = Some t \<and> movingOf t w = frameOf s u"
proof -
  let ?to = "moveTopLeft (moveBy (rtopLeft (frameOf s v)) d) (frameOf s w)"
  have to: "?to = frameOf s u" using assms(3) unfolding assms(5)[symmetric]
    by (intro qrectf.equality) (auto simp: moveTopLeft_def rsize_def rtopLeft_def)
  have "cascadeIfCovering P w area s = Some (placeAt P w (rtopLeft (frameOf s u)) s)"
    using assms(1,2,6,7) to by (simp add: cascadeIfCovering_def Let_def)
  moreover have "movingOf (placeAt P w p s) w = rectOf p (rsize (frameOf s w))" for p
    using assms(4) by (simp add: placeAt_def changeWindow_def moving_of_move)
  moreover have "rectOf (rtopLeft (frameOf s u)) (rsize (frameOf s w)) = frameOf s u"
    using assms(3) by (intro qrectf.equality) (auto simp: rectOf_def rsize_def rtopLeft_def)
  ultimately show ?thesis by simp
qed

theorem cascade_covers_next_witness:
  "\<exists>t. cascadeIfCovering demo_place 1 \<lparr>rectX = 0, rectY = 0, rectW = 1000, rectH = 700\<rparr> demo_cascade = Some t \<and>
    movingOf t 1 = frameOf demo_cascade 3"
proof -
  have round: "\<lfloor>(5469 :: qreal) / 5\<rfloor> = 1093" "\<lfloor>(3077 :: qreal) / 5\<rfloor> = 615" "\<lfloor>(11073 :: qreal) / 10\<rfloor> = 1107" "\<lfloor>(10933 :: qreal) / 10\<rfloor> = 1093"
    "\<lfloor>(6149 :: qreal) / 10\<rfloor> = 614" "\<lfloor>(1 :: qreal) / 2\<rfloor> = 0" by (simp_all add: floor_eq_iff)
  have find: "find (\<lambda>v. \<not> isIrrelevant demo_place v 1 (placeDesktop demo_place 1) \<and> rintersects (frameOf demo_cascade v) (frameOf demo_cascade 1))
      (rev (peStackingOrder demo_place)) = Some 2"
    by (simp add: demo_place_def demo_cascade_def isIrrelevant_def placeDesktop_def onCurrentDesktop_def isOnCurrentActivity_def
      demo_env_def demo_window_def isOnDesktop_def isOnAllDesktops_def rintersects_def rlow_def rhigh_def rect_ops)
  have offset: "cascadeOffset demo_place demo_cascade 1 = Some \<lparr>ipointX = 22, ipointY = 12\<rparr>"
    by (simp add: cascadeOffset_def areaAt_def clientAreaAt_def outputAt_def demo_place_def demo_areas_def Let_def clientAreaOn_def
      clientArea_def outFractional_def demo_output_def rtoRect_def qRound_def rect_ops round idiv_nonneg)
  show ?thesis
    by (rule cascade_covers_next[OF find offset])
      (simp_all add: demo_cascade_def rsize_def rtopLeft_def moveBy_def rect_ops)
qed

text \<open>on an output to the right of the first one windows are never cascaded: the code compares positions in the
  workspace with the size of the area, so each window is handed to smart placement and the cascade stays at its start.\<close>

theorem cascade_right_output:
  assumes "ivalid area" "rvalid (frameOf s w)" "cascadeOffset P s w = Some d" "atIdx (cci s) (cascadeIndex P w) = Some i"
    "i = freshCascade \<or> ciPos i = \<lparr>ipointX = irectX area, ipointY = 0\<rparr>" "0 \<le> irectX area" "irectY area = 0"
    "of_int (irectW area) < of_int (irectX area) + rectW (frameOf s w)"
  shows "\<exists>u. placeCascaded P w area PlacementUnknown s = placeSmart P w (irect_to_rectf area) u \<and> plWindows u = plWindows s \<and>
    map_option ciPos (atIdx (cci u) (cascadeIndex P w)) = Some \<lparr>ipointX = irectX area, ipointY = 0\<rparr>"
proof -
  let ?i = "cascadeFrom area i"
  let ?u = "s\<lparr>cci := (cci s)[nat (cascadeIndex P w) := ?i]\<rparr>"
  have pos: "ciPos ?i = \<lparr>ipointX = irectX area, ipointY = 0\<rparr>"
    using assms(5-7) by (auto simp: cascadeFrom_def freshCascade_def)
  have "placeCascaded P w area PlacementUnknown s = placeWith P w PlacementSmart PlacementUnknown (irect_to_rectf area) ?u"
    using assms(1-4,7,8) pos by (simp add: placeCascaded_def Let_def nextOr_def)
  then have smart: "placeCascaded P w area PlacementUnknown s = placeSmart P w (irect_to_rectf area) ?u"
    by (simp add: placeWith.simps resolvePolicy_def)
  have "atIdx (cci ?u) (cascadeIndex P w) = Some ?i" using assms(4) by (auto simp: atIdx_def split: if_splits)
  with smart pos show ?thesis by (intro exI[of _ ?u]) simp
qed

theorem cascade_right_output_witness:
  "\<exists>u. placeCascaded demo_place 1 \<lparr>irectX = 1000, irectY = 0, irectW = 800, irectH = 600\<rparr> PlacementUnknown
       (demo_packing\<lparr>cci := [freshCascade]\<rparr>) = placeSmart demo_place 1 (irect_to_rectf \<lparr>irectX = 1000, irectY = 0, irectW = 800, irectH = 600\<rparr>) u"
proof -
  let ?s = "demo_packing\<lparr>cci := [freshCascade]\<rparr>" and ?a = "\<lparr>irectX = 1000, irectY = 0, irectW = 800, irectH = 600\<rparr>"
  obtain a where "areaAt demo_place PlacementArea 1 (rcenter (frameOf ?s 1)) = Some a" using demo_area_at by blast
  note d = cascadeOffset_def[of demo_place ?s 1, unfolded this bind.bind_lunit Let_def]
  have "ivalid ?a" "rvalid (frameOf ?s 1)" "atIdx (cci ?s) (cascadeIndex demo_place 1) = Some freshCascade"
    "freshCascade = freshCascade \<or> ciPos freshCascade = \<lparr>ipointX = irectX ?a, ipointY = 0\<rparr>" "0 \<le> irectX ?a" "irectY ?a = 0"
    "of_int (irectW ?a) < of_int (irectX ?a) + rectW (frameOf ?s 1)"
    by (simp_all add: ivalid_def demo_packing_def rvalid_def atIdx_def cascadeIndex_def demo_place_def isOnAllDesktops_def demo_window_def demo_env_def)
  from cascade_right_output[OF this(1,2) d this(3-7)] show ?thesis by blast
qed

end
