(* ===== verification/Snapping.thy ===== *)
theory Snapping
  imports Placement
begin

text \<open>
  Snapping while a window is moved or resized by the user (\<open>adjustWindowPosition\<close> and \<open>adjustWindowSize\<close> of
  \<open>src/src/workspace.cpp\<close>). Moving computes in integers, resizing in \<open>qreal\<close>.
\<close>

record snap_options =
  soBorder :: int
  soWindow :: int
  soCenter :: int
  soOverlapping :: bool

section \<open>Moving\<close>

text \<open>The window being moved: its position when the loop starts and its size, and the best position so far with the distances
  it is at.\<close>

record snap_box =
  sbX :: int
  sbY :: int
  sbW :: int
  sbH :: int

abbreviation sbRight :: "snap_box \<Rightarrow> int" where "sbRight b \<equiv> sbX b + sbW b"
abbreviation sbBottom :: "snap_box \<Rightarrow> int" where "sbBottom b \<equiv> sbY b + sbH b"

record snap_state =
  snX :: int
  snY :: int
  snDeltaX :: int
  snDeltaY :: int

text \<open>The zone in which the borders attract, and the axes on which the window is maximized along them.\<close>

record snap_guide =
  sgHorizontal :: bool
  sgVertical :: bool
  sgZone :: qsizef

definition snapGuide :: "snap_options \<Rightarrow> bool \<times> bool \<Rightarrow> qrectf \<Rightarrow> qrectf \<Rightarrow> snap_guide" where
  "snapGuide opt mode maxRect geo =
     (let z = of_int (soBorder opt);
          h = (fst mode \<and> (rleft geo = rleft maxRect \<or> rright geo = rright maxRect));
          v = (snd mode \<and> (rtop geo = rtop maxRect \<or> rbottom geo = rbottom maxRect))
      in \<lparr>sgHorizontal = h, sgVertical = v, sgZone = \<lparr>sizeW = (if h then max (z + 2) (rectW maxRect / 16) else z),
        sizeH = (if v then max (z + 2) (rectH maxRect / 16) else z)\<rparr>\<rparr>)"

text \<open>Snapping to the borders of the area keeps the sign of the distance.\<close>

definition borderSnapX :: "bool \<Rightarrow> int \<Rightarrow> int \<Rightarrow> int \<Rightarrow> snap_box \<Rightarrow> snap_state \<Rightarrow> snap_state" where
  "borderSnapX sowo xmin xmax zone b t =
     (let t = (if (sowo \<longrightarrow> sbX b < xmin) \<and> \<bar>xmin - sbX b\<bar> < zone then t\<lparr>snDeltaX := xmin - sbX b, snX := xmin\<rparr> else t)
      in if (sowo \<longrightarrow> xmax < sbRight b) \<and> \<bar>sbRight b - xmax\<bar> < zone \<and> \<bar>xmax - sbRight b\<bar> < snDeltaX t
         then t\<lparr>snDeltaX := sbRight b - xmax, snX := xmax - sbW b\<rparr> else t)"

definition borderSnapY :: "bool \<Rightarrow> int \<Rightarrow> int \<Rightarrow> int \<Rightarrow> snap_box \<Rightarrow> snap_state \<Rightarrow> snap_state" where
  "borderSnapY sowo ymin ymax zone b t =
     (let t = (if (sowo \<longrightarrow> sbY b < ymin) \<and> \<bar>ymin - sbY b\<bar> < zone then t\<lparr>snDeltaY := ymin - sbY b, snY := ymin\<rparr> else t)
      in if (sowo \<longrightarrow> ymax < sbBottom b) \<and> \<bar>sbBottom b - ymax\<bar> < zone \<and> \<bar>ymax - sbBottom b\<bar> < snDeltaY t
         then t\<lparr>snDeltaY := sbBottom b - ymax, snY := ymax - sbH b\<rparr> else t)"

text \<open>One test of an edge against the edge of a window.\<close>

definition snapX :: "bool \<Rightarrow> int \<Rightarrow> int \<Rightarrow> int \<Rightarrow> snap_state \<Rightarrow> snap_state" where
  "snapX ok zone d x t = (if ok \<and> \<bar>d\<bar> < zone \<and> \<bar>d\<bar> < snDeltaX t then t\<lparr>snDeltaX := \<bar>d\<bar>, snX := x\<rparr> else t)"

definition snapY :: "bool \<Rightarrow> int \<Rightarrow> int \<Rightarrow> int \<Rightarrow> snap_state \<Rightarrow> snap_state" where
  "snapY ok zone d y t = (if ok \<and> \<bar>d\<bar> < zone \<and> \<bar>d\<bar> < snDeltaY t then t\<lparr>snDeltaY := \<bar>d\<bar>, snY := y\<rparr> else t)"

text \<open>Two ranges overlap, ends included.\<close>

definition meets :: "'a::linorder \<Rightarrow> 'a \<Rightarrow> 'a \<Rightarrow> 'a \<Rightarrow> bool" where
  "meets c r l lr \<longleftrightarrow> (c \<le> lr \<and> l \<le> c) \<or> (l \<le> r \<and> r \<le> lr) \<or> (c \<le> l \<and> lr \<le> r)"

definition snapToWindow :: "bool \<Rightarrow> int \<Rightarrow> snap_guide \<Rightarrow> snap_box \<Rightarrow> snap_box \<Rightarrow> snap_state \<Rightarrow> snap_state" where
  "snapToWindow sowo zone g b l t =
     (let cx = sbX b; cy = sbY b; cw = sbW b; ch = sbH b; rx = sbRight b; ry = sbBottom b;
          lx = sbX l; ly = sbY l; lrx = sbRight l; lry = sbBottom l;
          t = (if \<not> sgHorizontal g \<and> meets cy ry ly lry
            then snapX (sowo \<longrightarrow> lx < rx) zone (rx - lx) (lx - cw) (snapX (sowo \<longrightarrow> cx < lrx) zone (lrx - cx) lrx t) else t);
          t = (if \<not> sgVertical g \<and> meets cx rx lx lrx
            then snapY (sowo \<longrightarrow> ly < ry) zone (ry - ly) (ly - ch) (snapY (sowo \<longrightarrow> cy < lry) zone (lry - cy) lry t) else t);
          t = (if \<not> sgVertical g \<and> (snX t = lrx \<or> snX t + cw = lx)
            then snapY (sowo \<longrightarrow> cy < ly) zone (cy - ly) ly (snapY (sowo \<longrightarrow> lry < ry) zone (lry - ry) (lry - ch) t) else t)
      in if \<not> sgHorizontal g \<and> (snY t = lry \<or> snY t + ch = ly)
         then snapX (sowo \<longrightarrow> cx < lx) zone (cx - lx) lx (snapX (sowo \<longrightarrow> lrx < rx) zone (lrx - rx) (lrx - cw) t) else t)"

definition snapsTo :: "place_env \<Rightarrow> wid \<Rightarrow> wid \<Rightarrow> bool" where
  "snapsTo P w v = (let c = attrs P v in
     v \<noteq> w \<and> \<not> isMinimized c \<and> isShown c \<and> onCurrentDesktop P v \<and> isOnCurrentActivity (peEnv P) c
     \<and> \<not> (isDesktop c \<or> isSplash c \<or> isNotification c \<or> isCriticalNotification c \<or> isOnScreenDisplay c \<or> isAppletPopup c))"

definition boxOf :: "qrectf \<Rightarrow> snap_box" where
  "boxOf g = (let x = trunc_int (rectX g); y = trunc_int (rectY g)
     in \<lparr>sbX = x, sbY = y, sbW = trunc_int (of_int x + rectW g) - x, sbH = trunc_int (of_int y + rectH g) - y\<rparr>)"

text \<open>The centre of the area, and the middle of an edge for a window at a border.\<close>

definition centerSnap :: "snap_options \<Rightarrow> bool \<Rightarrow> int \<Rightarrow> int \<times> int \<times> int \<times> int \<Rightarrow> snap_box \<Rightarrow> snap_state \<Rightarrow> snap_state" where
  "centerSnap opt unrestricted zone area b t = (case area of (xmin, xmax, ymin, ymax) \<Rightarrow>
     (let midX = idiv (xmin + xmax) 2; midY = idiv (ymin + ymax) 2;
          diffX = \<bar>midX - (sbX b + idiv (sbW b) 2)\<bar>; diffY = \<bar>midY - (sbY b + idiv (sbH b) 2)\<bar>
      in if diffX < zone \<and> diffY < zone \<and> diffX < snDeltaX t \<and> diffY < snDeltaY t
         then t\<lparr>snX := midX - idiv (sbW b) 2, snY := midY - idiv (sbH b) 2\<rparr>
         else if 0 < soBorder opt
         then (if (snX t = xmin \<or> snX t = xmax - sbW b) \<and> diffY < zone \<and> diffY < snDeltaY t
               then t\<lparr>snY := midY - idiv (sbH b) 2\<rparr>
               else if ((if unrestricted then snY t = ymin else snY t \<le> ymin) \<or> snY t = ymax - sbH b) \<and> diffX < zone \<and> diffX < snDeltaX t
               then t\<lparr>snX := midX - idiv (sbW b) 2\<rparr> else t)
         else t))"

text \<open>The position with the zones as integers; the windows are given by their boxes.\<close>

definition snapPosition :: "snap_options \<Rightarrow> bool \<Rightarrow> snap_guide \<Rightarrow> int \<times> int \<Rightarrow> int \<Rightarrow> int \<Rightarrow> int \<times> int \<times> int \<times> int \<Rightarrow>
    snap_box list \<Rightarrow> snap_box \<Rightarrow> snap_state" where
  "snapPosition opt unrestricted g border win center area ls b = (case area of (xmin, xmax, ymin, ymax) \<Rightarrow>
     (let sowo = soOverlapping opt;
          t = \<lparr>snX = sbX b, snY = sbY b, snDeltaX = xmax, snDeltaY = ymax\<rparr>;
          t = (if 0 < fst border \<or> 0 < snd border
            then borderSnapY sowo ymin ymax (snd border) b (borderSnapX sowo xmin xmax (fst border) b t) else t);
          t = (if 0 < win then fold (snapToWindow sowo win g b) ls t else t)
      in if 0 < center then centerSnap opt unrestricted center area b t else t))"

definition scaled :: "qreal \<Rightarrow> qreal \<Rightarrow> int" where
  "scaled adjust zone = trunc_int (zone * adjust)"

definition adjustWindowPosition :: "place_env \<Rightarrow> placing \<Rightarrow> snap_options \<Rightarrow> bool \<times> bool \<Rightarrow> wid \<Rightarrow> qpointf \<Rightarrow> bool \<Rightarrow> qreal \<Rightarrow> qpointf option" where
  "adjustWindowPosition P s opt mode w pos unrestricted adjust = do {
     let geo = frameOf s w;
     let mid = \<lparr>pointX = pointX pos + rectW geo / 2, pointY = pointY pos + rectH geo / 2\<rparr>;
     maxRect \<leftarrow> (if fst mode \<or> snd mode then areaAt P MaximizeArea w mid else Some rnullRect);
     let g = snapGuide opt mode maxRect geo;
     (if soWindow opt \<noteq> 0 \<or> \<not> (sizeW (sgZone g) = 0 \<and> sizeH (sgZone g) = 0) \<or> soCenter opt \<noteq> 0
      then do {
        maxRect \<leftarrow> (if rnull maxRect then areaAt P MaximizeArea w mid else Some maxRect);
        let t = snapPosition opt unrestricted g (scaled adjust (sizeW (sgZone g)), scaled adjust (sizeH (sgZone g)))
          (scaled adjust (of_int (soWindow opt))) (scaled adjust (of_int (soCenter opt)))
          (trunc_int (rleft maxRect), trunc_int (rright maxRect), trunc_int (rtop maxRect), trunc_int (rbottom maxRect))
          (map (\<lambda>v. boxOf (frameOf s v)) (filter (snapsTo P w) (peAllClients P)))
          \<lparr>sbX = trunc_int (pointX pos), sbY = trunc_int (pointY pos), sbW = trunc_int (rectW geo), sbH = trunc_int (rectH geo)\<rparr>;
        Some (pointF (snX t) (snY t)) }
      else Some pos) }"

section \<open>Resizing\<close>

datatype gravity = GravityNone | GravityLeft | GravityRight | GravityTop | GravityBottom
  | GravityTopLeft | GravityTopRight | GravityBottomLeft | GravityBottomRight

text \<open>The edges that follow the pointer.\<close>

definition pullsTop :: "gravity \<Rightarrow> bool" where "pullsTop g \<longleftrightarrow> g = GravityTop \<or> g = GravityTopLeft \<or> g = GravityTopRight"
definition pullsBottom :: "gravity \<Rightarrow> bool" where "pullsBottom g \<longleftrightarrow> g = GravityBottom \<or> g = GravityBottomLeft \<or> g = GravityBottomRight"
definition pullsLeft :: "gravity \<Rightarrow> bool" where "pullsLeft g \<longleftrightarrow> g = GravityLeft \<or> g = GravityTopLeft \<or> g = GravityBottomLeft"
definition pullsRight :: "gravity \<Rightarrow> bool" where "pullsRight g \<longleftrightarrow> g = GravityRight \<or> g = GravityTopRight \<or> g = GravityBottomRight"

record edge_snap =
  esLeft :: qreal
  esTop :: qreal
  esRight :: qreal
  esBottom :: qreal
  esDeltaX :: qreal
  esDeltaY :: qreal

text \<open>One edge of the window against one line, as each of the macros does it.\<close>

definition snapTop :: "bool \<Rightarrow> qreal \<Rightarrow> edge_snap \<Rightarrow> edge_snap" where
  "snapTop ok y e = (if ok \<and> \<bar>y - esTop e\<bar> < esDeltaY e then e\<lparr>esDeltaY := \<bar>y - esTop e\<bar>, esTop := y\<rparr> else e)"

definition snapBottom :: "bool \<Rightarrow> qreal \<Rightarrow> edge_snap \<Rightarrow> edge_snap" where
  "snapBottom ok y e = (if ok \<and> \<bar>y - esBottom e\<bar> < esDeltaY e then e\<lparr>esDeltaY := \<bar>y - esBottom e\<bar>, esBottom := y\<rparr> else e)"

definition snapLeft :: "bool \<Rightarrow> qreal \<Rightarrow> edge_snap \<Rightarrow> edge_snap" where
  "snapLeft ok x e = (if ok \<and> \<bar>x - esLeft e\<bar> < esDeltaX e then e\<lparr>esDeltaX := \<bar>x - esLeft e\<bar>, esLeft := x\<rparr> else e)"

definition snapRight :: "bool \<Rightarrow> qreal \<Rightarrow> edge_snap \<Rightarrow> edge_snap" where
  "snapRight ok x e = (if ok \<and> \<bar>x - esRight e\<bar> < esDeltaX e then e\<lparr>esDeltaX := \<bar>x - esRight e\<bar>, esRight := x\<rparr> else e)"

text \<open>The bottom border notes the distance of the top edge.\<close>

definition snapBorderBottom :: "bool \<Rightarrow> qreal \<Rightarrow> edge_snap \<Rightarrow> edge_snap" where
  "snapBorderBottom ok y e = (if ok \<and> \<bar>y - esBottom e\<bar> < esDeltaY e then e\<lparr>esDeltaY := \<bar>y - esTop e\<bar>, esBottom := y\<rparr> else e)"

definition snapBorders :: "bool \<Rightarrow> qrectf \<Rightarrow> gravity \<Rightarrow> edge_snap \<Rightarrow> edge_snap" where
  "snapBorders sowo area g e =
     (let e = (if pullsTop g then snapTop (sowo \<longrightarrow> esTop e < rtop area) (rtop area) e else e);
          e = (if pullsBottom g then snapBorderBottom (sowo \<longrightarrow> rbottom area < esBottom e) (rbottom area) e else e);
          e = (if pullsLeft g then snapLeft (sowo \<longrightarrow> esLeft e < rleft area) (rleft area) e else e)
      in if pullsRight g then snapRight (sowo \<longrightarrow> rright area < esRight e) (rright area) e else e)"

text \<open>The edges of another window. \<open>start\<close> is the geometry that was asked for.\<close>

definition withinWidth :: "qrectf \<Rightarrow> qrectf \<Rightarrow> bool" where
  "withinWidth start l = meets (rleft start) (rright start) (rleft l) (rright l)"

definition withinHeight :: "edge_snap \<Rightarrow> qrectf \<Rightarrow> bool" where
  "withinHeight e l = meets (esTop e) (esBottom e) (rtop l) (rbottom l)"

definition snapEdges :: "bool \<Rightarrow> qrectf \<Rightarrow> gravity \<Rightarrow> qrectf \<Rightarrow> edge_snap \<Rightarrow> edge_snap" where
  "snapEdges sowo start g l e =
     (let e = (if pullsTop g then snapTop ((sowo \<longrightarrow> esTop e < rbottom l) \<and> withinWidth start l) (rbottom l) e else e);
          e = (if pullsBottom g then snapBottom ((sowo \<longrightarrow> rtop l < esBottom e) \<and> withinWidth start l) (rtop l) e else e);
          e = (if pullsLeft g then snapLeft ((sowo \<longrightarrow> esLeft e < rright l) \<and> withinHeight e l) (rright l) e else e)
      in if pullsRight g then snapRight ((sowo \<longrightarrow> rleft l < esRight e) \<and> withinHeight e l) (rleft l) e else e)"

definition snapCorners :: "bool \<Rightarrow> gravity \<Rightarrow> qrectf \<Rightarrow> edge_snap \<Rightarrow> edge_snap" where
  "snapCorners sowo g l e =
     (let beside = (\<lambda>e. esLeft e = rright l \<or> esRight e = rleft l); above = (\<lambda>e. esTop e = rbottom l \<or> esBottom e = rtop l);
          e = (if pullsTop g then snapTop ((sowo \<longrightarrow> esTop e < rtop l) \<and> beside e) (rtop l) e else e);
          e = (if pullsBottom g then snapBottom ((sowo \<longrightarrow> rbottom l < esBottom e) \<and> beside e) (rbottom l) e else e);
          e = (if pullsLeft g then snapLeft ((sowo \<longrightarrow> esLeft e < rleft l) \<and> above e) (rleft l) e else e)
      in if pullsRight g then snapRight ((sowo \<longrightarrow> rright l < esRight e) \<and> above e) (rright l) e else e)"

definition withDeltas :: "int \<Rightarrow> edge_snap \<Rightarrow> edge_snap" where
  "withDeltas snap e = e\<lparr>esDeltaX := of_int snap, esDeltaY := of_int snap\<rparr>"

definition snapSize :: "snap_options \<Rightarrow> qrectf \<Rightarrow> qrectf list \<Rightarrow> gravity \<Rightarrow> qrectf \<Rightarrow> edge_snap" where
  "snapSize opt area ls g start =
     (let sowo = soOverlapping opt;
          e = \<lparr>esLeft = rleft start, esTop = rtop start, esRight = rright start, esBottom = rbottom start,
            esDeltaX = rright area, esDeltaY = rbottom area\<rparr>;
          e = (if soBorder opt \<noteq> 0 then snapBorders sowo area g (withDeltas (soBorder opt) e) else e)
      in if soWindow opt \<noteq> 0
         then fold (\<lambda>l e. snapCorners sowo g l (snapEdges sowo start g l e)) ls (withDeltas (soWindow opt) e) else e)"

text \<open>The area is the one at the centre of \<open>window->rect()\<close>, which starts at the origin. A gravity of \<open>None\<close> is only reached
  when there is a border zone or a window to snap to.\<close>

definition adjustWindowSize :: "place_env \<Rightarrow> placing \<Rightarrow> snap_options \<Rightarrow> wid \<Rightarrow> qrectf \<Rightarrow> gravity \<Rightarrow> qrectf option" where
  "adjustWindowSize P s opt w geo g = (if soWindow opt = 0 \<and> soBorder opt = 0 then Some geo
     else do {
       area \<leftarrow> areaAt P MovementArea w \<lparr>pointX = rectW (frameOf s w) / 2, pointY = rectH (frameOf s w) / 2\<rparr>;
       let vs = filter (\<lambda>v. onCurrentDesktop P v \<and> \<not> isMinimized (attrs P v) \<and> v \<noteq> w) (peAllClients P);
       assertThat (g \<noteq> GravityNone \<or> (soBorder opt = 0 \<and> vs = []));
       let e = snapSize opt area (map (frameOf s) vs) g geo;
       Some \<lparr>rectX = esLeft e, rectY = esTop e, rectW = esRight e - esLeft e, rectH = esBottom e - esTop e\<rparr> })"

end
