(* ===== verification/Snap_Properties.thy ===== *)
theory Snap_Properties
  imports Snapping Place_Properties
begin

text \<open>
  What snapping does: a moved window stays within the snap zones of where the user put it, and its edges end on edges; a resize
  changes only the edges that are pulled; and three cases in which the code does not do what it means to.
\<close>

section \<open>Moving\<close>

text \<open>The places on one axis that a window with the extent \<open>n\<close> can be put at, from the edges and the extent of another one.\<close>

definition alignX :: "int \<Rightarrow> snap_box \<Rightarrow> int list" where
  "alignX n l = [sbRight l, sbX l - n, sbRight l - n, sbX l]"

definition alignY :: "int \<Rightarrow> snap_box \<Rightarrow> int list" where
  "alignY n l = [sbBottom l, sbY l - n, sbBottom l - n, sbY l]"

definition placesX :: "int \<Rightarrow> int \<Rightarrow> snap_box list \<Rightarrow> snap_box \<Rightarrow> int list" where
  "placesX lo hi ls b = sbX b # lo # (hi - sbW b) # (idiv (lo + hi) 2 - idiv (sbW b) 2) # concat (map (alignX (sbW b)) ls)"

definition placesY :: "int \<Rightarrow> int \<Rightarrow> snap_box list \<Rightarrow> snap_box \<Rightarrow> int list" where
  "placesY lo hi ls b = sbY b # lo # (hi - sbH b) # (idiv (lo + hi) 2 - idiv (sbH b) 2) # concat (map (alignY (sbH b)) ls)"

text \<open>One of the places, and nearer than \<open>z\<close> if it is not the first.\<close>

definition nearPlace :: "int \<Rightarrow> int \<Rightarrow> int list \<Rightarrow> int \<Rightarrow> bool" where
  "nearPlace z v ps x \<longleftrightarrow> x \<in> set ps \<and> (x = v \<or> \<bar>x - v\<bar> < z)"

definition snapGood :: "int \<Rightarrow> int list \<Rightarrow> int list \<Rightarrow> snap_box \<Rightarrow> snap_state \<Rightarrow> bool" where
  "snapGood z xs ys b t \<longleftrightarrow> nearPlace z (sbX b) xs (snX t) \<and> nearPlace z (sbY b) ys (snY t)"

lemma nearPlaceI: "x \<in> set ps \<Longrightarrow> \<bar>x - v\<bar> < z \<Longrightarrow> nearPlace z v ps x"
  by (simp add: nearPlace_def)

lemma snapX_good:
  assumes "snapGood z xs ys b t" "zone \<le> z" "x \<in> set xs" "\<bar>x - sbX b\<bar> = \<bar>d\<bar>"
  shows "snapGood z xs ys b (snapX ok zone d x t)"
  using assms by (auto simp: snapX_def snapGood_def nearPlace_def)

lemma snapY_good:
  assumes "snapGood z xs ys b t" "zone \<le> z" "y \<in> set ys" "\<bar>y - sbY b\<bar> = \<bar>d\<bar>"
  shows "snapGood z xs ys b (snapY ok zone d y t)"
  using assms by (auto simp: snapY_def snapGood_def nearPlace_def)

lemma snapToWindow_good:
  assumes "snapGood z (placesX lo hi ls b) (placesY lo' hi' ls b) b t" "zone \<le> z" "l \<in> set ls"
  shows "snapGood z (placesX lo hi ls b) (placesY lo' hi' ls b) b (snapToWindow sowo zone g b l t)"
proof -
  have x: "x \<in> set (placesX lo hi ls b)" if "x \<in> set (alignX (sbW b) l)" for x using that assms(3) by (auto simp: placesX_def)
  have y: "y \<in> set (placesY lo' hi' ls b)" if "y \<in> set (alignY (sbH b) l)" for y using that assms(3) by (auto simp: placesY_def)
  have px: "sbRight l \<in> set (placesX lo hi ls b)" "sbX l - sbW b \<in> set (placesX lo hi ls b)"
    "sbRight l - sbW b \<in> set (placesX lo hi ls b)" "sbX l \<in> set (placesX lo hi ls b)"
    by (rule x, simp add: alignX_def)+
  have py: "sbBottom l \<in> set (placesY lo' hi' ls b)" "sbY l - sbH b \<in> set (placesY lo' hi' ls b)"
    "sbBottom l - sbH b \<in> set (placesY lo' hi' ls b)" "sbY l \<in> set (placesY lo' hi' ls b)"
    by (rule y, simp add: alignY_def)+
  note sx = snapX_good[OF _ assms(2)] and sy = snapY_good[OF _ assms(2)]
  show ?thesis unfolding snapToWindow_def Let_def
    using assms(1) by (auto intro!: sx[OF _ px(1)] sx[OF _ px(2)] sx[OF _ px(3)] sx[OF _ px(4)]
      sy[OF _ py(1)] sy[OF _ py(2)] sy[OF _ py(3)] sy[OF _ py(4)])
qed

lemma borderSnap_good:
  assumes "snapGood z (placesX xmin xmax ls b) (placesY ymin ymax ls b) b t" "zx \<le> z" "zy \<le> z"
  shows "snapGood z (placesX xmin xmax ls b) (placesY ymin ymax ls b) b (borderSnapY sowo ymin ymax zy b (borderSnapX sowo xmin xmax zx b t))"
proof -
  have ends: "xmin \<in> set (placesX xmin xmax ls b)" "xmax - sbW b \<in> set (placesX xmin xmax ls b)"
    "ymin \<in> set (placesY ymin ymax ls b)" "ymax - sbH b \<in> set (placesY ymin ymax ls b)"
    by (simp_all add: placesX_def placesY_def)
  have "snapGood z (placesX xmin xmax ls b) (placesY ymin ymax ls b) b (borderSnapX sowo xmin xmax zx b t)"
    if "snapGood z (placesX xmin xmax ls b) (placesY ymin ymax ls b) b t" for t
    using that ends(1,2) assms(2) by (auto simp: borderSnapX_def Let_def snapGood_def intro!: nearPlaceI)
  from this[OF assms(1)] show ?thesis
    using ends(3,4) assms(3) by (auto simp: borderSnapY_def Let_def snapGood_def intro!: nearPlaceI)
qed

lemma centerSnap_good:
  assumes "snapGood z (placesX xmin xmax ls b) (placesY ymin ymax ls b) b t" "zone \<le> z"
  shows "snapGood z (placesX xmin xmax ls b) (placesY ymin ymax ls b) b (centerSnap opt u zone (xmin, xmax, ymin, ymax) b t)"
proof -
  have ends: "idiv (xmin + xmax) 2 - idiv (sbW b) 2 \<in> set (placesX xmin xmax ls b)"
    "idiv (ymin + ymax) 2 - idiv (sbH b) 2 \<in> set (placesY ymin ymax ls b)"
    by (simp_all add: placesX_def placesY_def)
  show ?thesis using assms ends by (auto simp: centerSnap_def Let_def snapGood_def intro!: nearPlaceI)
qed

lemma snapPosition_good:
  assumes "z = max (max (fst border) (snd border)) (max win center)"
  shows "snapGood z (placesX xmin xmax ls b) (placesY ymin ymax ls b) b (snapPosition opt u g border win center (xmin, xmax, ymin, ymax) ls b)"
proof -
  let ?good = "snapGood z (placesX xmin xmax ls b) (placesY ymin ymax ls b) b"
  let ?t = "\<lparr>snX = sbX b, snY = sbY b, snDeltaX = xmax, snDeltaY = ymax\<rparr>"
  have zs: "fst border \<le> z" "snd border \<le> z" "win \<le> z" "center \<le> z" using assms by simp_all
  have start: "?good ?t" by (simp add: snapGood_def nearPlace_def placesX_def placesY_def)
  have fold: "?good (fold (snapToWindow sowo win g b) vs t)" if "?good t" "set vs \<subseteq> set ls" for sowo vs t
    using that by (induction vs arbitrary: t) (simp_all add: snapToWindow_good[OF _ zs(3)])
  show ?thesis unfolding snapPosition_def Let_def prod.case
    by (simp add: start fold borderSnap_good[OF _ zs(1,2)] centerSnap_good[OF _ zs(4)])
qed

text \<open>C20: a window that is not maximized and is moved is put less than the largest snap zone away from where the user moved
  it, on each axis, and if it is put elsewhere at all one of its edges is on an edge of the area or of another window, or it is
  in the middle of the area.\<close>

theorem snap_position_near:
  assumes "adjustWindowPosition P s opt (False, False) w pos unrestricted adjust = Some r"
    "z = max (scaled adjust (of_int (soBorder opt))) (max (scaled adjust (of_int (soWindow opt))) (scaled adjust (of_int (soCenter opt))))"
    "areaAt P MaximizeArea w \<lparr>pointX = pointX pos + rectW (frameOf s w) / 2, pointY = pointY pos + rectH (frameOf s w) / 2\<rparr> = Some a"
    "b = \<lparr>sbX = trunc_int (pointX pos), sbY = trunc_int (pointY pos), sbW = trunc_int (rectW (frameOf s w)), sbH = trunc_int (rectH (frameOf s w))\<rparr>"
    "ls = map (\<lambda>v. boxOf (frameOf s v)) (filter (snapsTo P w) (peAllClients P))"
  shows "r = pos \<or> (\<exists>x y. r = pointF x y \<and>
    nearPlace z (sbX b) (placesX (trunc_int (rleft a)) (trunc_int (rright a)) ls b) x \<and>
    nearPlace z (sbY b) (placesY (trunc_int (rtop a)) (trunc_int (rbottom a)) ls b) y)"
proof (cases "r = pos")
  case False
  let ?g = "snapGuide opt (False, False) rnullRect (frameOf s w)"
  let ?zone = "scaled adjust (of_int (soBorder opt))"
  let ?t = "snapPosition opt unrestricted ?g (?zone, ?zone) (scaled adjust (of_int (soWindow opt))) (scaled adjust (of_int (soCenter opt)))
    (trunc_int (rleft a), trunc_int (rright a), trunc_int (rtop a), trunc_int (rbottom a)) ls b"
  have zone: "sizeW (sgZone ?g) = of_int (soBorder opt)" "sizeH (sgZone ?g) = of_int (soBorder opt)"
    by (simp_all add: snapGuide_def Let_def)
  have "rnull rnullRect" by (simp add: rnull_def rnullRect_def)
  then have "r = pointF (snX ?t) (snY ?t)"
    using assms(1,3) False unfolding assms(4,5) by (simp add: adjustWindowPosition_def Let_def zone split: if_splits)
  moreover have "snapGood z (placesX (trunc_int (rleft a)) (trunc_int (rright a)) ls b) (placesY (trunc_int (rtop a)) (trunc_int (rbottom a)) ls b) b ?t"
    by (rule snapPosition_good) (simp add: assms(2))
  ultimately show ?thesis unfolding snapGood_def by blast
qed simp

definition demo_snap :: snap_options where
  "demo_snap = \<lparr>soBorder = 10, soWindow = 10, soCenter = 0, soOverlapping = False\<rparr>"

theorem snap_position_near_witness:
  "\<exists>r. adjustWindowPosition demo_place demo_cascade demo_snap (False, False) 1 (pointF 305 207) True 1 = Some r \<and>
    (r = pointF 305 207 \<or> (\<exists>x y. r = pointF x y \<and> \<bar>x - 305\<bar> < 10 \<and> \<bar>y - 207\<bar> < 10))"
proof -
  let ?pos = "pointF 305 207"
  obtain a where a: "areaAt demo_place MaximizeArea 1 \<lparr>pointX = pointX ?pos + rectW (frameOf demo_cascade 1) / 2,
      pointY = pointY ?pos + rectH (frameOf demo_cascade 1) / 2\<rparr> = Some a"
    using demo_area_at by blast
  have null: "rnull rnullRect" by (simp add: rnull_def rnullRect_def)
  obtain r where r: "adjustWindowPosition demo_place demo_cascade demo_snap (False, False) 1 ?pos True 1 = Some r"
    using a null unfolding adjustWindowPosition_def Let_def by (simp add: demo_snap_def)
  have pos: "trunc_int (pointX ?pos) = 305" "trunc_int (pointY ?pos) = 207" by (simp_all add: pointF_def trunc_int_def)
  have z: "10 = max (scaled 1 (of_int (soBorder demo_snap))) (max (scaled 1 (of_int (soWindow demo_snap))) (scaled 1 (of_int (soCenter demo_snap))))"
    by (simp add: scaled_def demo_snap_def trunc_int_def)
  from snap_position_near[OF r z a refl refl] show ?thesis
    unfolding pos nearPlace_def snap_box.simps using r by fastforce
qed

section \<open>A border beats a nearer window\<close>

lemma snapX_settled: "snDeltaX t \<le> 0 \<Longrightarrow> snapX ok zone d x t = t"
  by (auto simp: snapX_def)

lemma snapY_x [simp]: "snX (snapY ok zone d y t) = snX t" "snDeltaX (snapY ok zone d y t) = snDeltaX t"
  by (simp_all add: snapY_def)

lemma snapToWindow_settled:
  "snDeltaX t \<le> 0 \<Longrightarrow> snX (snapToWindow sowo zone g b l t) = snX t \<and> snDeltaX (snapToWindow sowo zone g b l t) = snDeltaX t"
  by (simp add: snapToWindow_def Let_def snapX_settled)

lemma fold_settled:
  "snDeltaX t \<le> 0 \<Longrightarrow> snX (fold (snapToWindow sowo zone g b) ls t) = snX t"
  by (induction ls arbitrary: t) (simp_all add: snapToWindow_settled)

text \<open>A window that is moved to at most the border zone to the right of the left edge of the area is put on that edge,
  however near other windows are: the distance is noted with its sign, and no window is nearer than that.\<close>

theorem snap_border_wins:
  assumes "\<not> soOverlapping opt" "xmin \<le> sbX b" "sbX b - xmin < fst border" "center \<le> 0"
  shows "snX (snapPosition opt u g border win center (xmin, xmax, ymin, ymax) ls b) = xmin"
proof -
  let ?t = "\<lparr>snX = sbX b, snY = sbY b, snDeltaX = xmax, snDeltaY = ymax\<rparr>"
  let ?b = "borderSnapX (soOverlapping opt) xmin xmax (fst border) b ?t"
  have "snX ?b = xmin \<and> snDeltaX ?b \<le> 0" using assms(1-3) by (auto simp: borderSnapX_def Let_def)
  moreover have "snX (borderSnapY w ymin ymax zy b t) = snX t \<and> snDeltaX (borderSnapY w ymin ymax zy b t) = snDeltaX t" for w zy t
    by (simp add: borderSnapY_def Let_def)
  moreover have "0 < fst border" using assms(2,3) by simp
  ultimately show ?thesis using assms(4) by (simp add: snapPosition_def Let_def fold_settled)
qed

theorem snap_border_wins_witness:
  "snX (snapPosition demo_snap True \<lparr>sgHorizontal = False, sgVertical = False, sgZone = \<lparr>sizeW = 10, sizeH = 10\<rparr>\<rparr> (10, 10) 10 0
     (0, 1000, 0, 700) [\<lparr>sbX = 110, sbY = 0, sbW = 100, sbH = 100\<rparr>] \<lparr>sbX = 9, sbY = 0, sbW = 100, sbH = 100\<rparr>) = 0"
  by (rule snap_border_wins) (simp_all add: demo_snap_def)

section \<open>Resizing\<close>

definition edgeGood :: "qreal list \<Rightarrow> qreal list \<Rightarrow> qreal list \<Rightarrow> qreal list \<Rightarrow> edge_snap \<Rightarrow> bool" where
  "edgeGood ls ts rs bs e \<longleftrightarrow> esLeft e \<in> set ls \<and> esTop e \<in> set ts \<and> esRight e \<in> set rs \<and> esBottom e \<in> set bs"

lemma edgeGood_steps:
  assumes "edgeGood ls ts rs bs e"
  shows "y \<in> set ts \<Longrightarrow> edgeGood ls ts rs bs (snapTop ok y e)" "y \<in> set bs \<Longrightarrow> edgeGood ls ts rs bs (snapBottom ok y e)"
    "x \<in> set ls \<Longrightarrow> edgeGood ls ts rs bs (snapLeft ok x e)" "x \<in> set rs \<Longrightarrow> edgeGood ls ts rs bs (snapRight ok x e)"
    "y \<in> set bs \<Longrightarrow> edgeGood ls ts rs bs (snapBorderBottom ok y e)" "edgeGood ls ts rs bs (withDeltas n e)"
  using assms by (simp_all add: edgeGood_def snapTop_def snapBottom_def snapLeft_def snapRight_def snapBorderBottom_def withDeltas_def)

text \<open>The lines that an edge may be put on, if it is pulled.\<close>

definition lines :: "bool \<Rightarrow> qreal \<Rightarrow> qreal \<Rightarrow> (qrectf \<Rightarrow> qreal list) \<Rightarrow> qrectf list \<Rightarrow> qreal list" where
  "lines pulled start border f ls = start # (if pulled then border # concat (map f ls) else [])"

lemma lines_window: "pulled \<Longrightarrow> l \<in> set ls \<Longrightarrow> x \<in> set (f l) \<Longrightarrow> x \<in> set (lines pulled start border f ls)"
  by (auto simp: lines_def)

lemma lines_border: "pulled \<Longrightarrow> border \<in> set (lines pulled start border f ls)"
  by (simp add: lines_def)

text \<open>C21: a resize that snaps leaves the edges that are not pulled where they are, and puts each pulled edge on the border of
  the area, on an edge of another window, or leaves it.\<close>

theorem snap_size_edges:
  "esLeft (snapSize opt area ls g start) \<in> set (lines (pullsLeft g) (rleft start) (rleft area) (\<lambda>l. [rright l, rleft l]) ls) \<and>
   esTop (snapSize opt area ls g start) \<in> set (lines (pullsTop g) (rtop start) (rtop area) (\<lambda>l. [rbottom l, rtop l]) ls) \<and>
   esRight (snapSize opt area ls g start) \<in> set (lines (pullsRight g) (rright start) (rright area) (\<lambda>l. [rleft l, rright l]) ls) \<and>
   esBottom (snapSize opt area ls g start) \<in> set (lines (pullsBottom g) (rbottom start) (rbottom area) (\<lambda>l. [rtop l, rbottom l]) ls)"
proof -
  define L where "L = lines (pullsLeft g) (rleft start) (rleft area) (\<lambda>l. [rright l, rleft l]) ls"
  define T where "T = lines (pullsTop g) (rtop start) (rtop area) (\<lambda>l. [rbottom l, rtop l]) ls"
  define R where "R = lines (pullsRight g) (rright start) (rright area) (\<lambda>l. [rleft l, rright l]) ls"
  define B where "B = lines (pullsBottom g) (rbottom start) (rbottom area) (\<lambda>l. [rtop l, rbottom l]) ls"
  note defs = L_def T_def R_def B_def
  have border: "pullsLeft g \<Longrightarrow> rleft area \<in> set L" "pullsTop g \<Longrightarrow> rtop area \<in> set T" "pullsRight g \<Longrightarrow> rright area \<in> set R"
    "pullsBottom g \<Longrightarrow> rbottom area \<in> set B"
    by (simp_all add: defs lines_border)
  have windows: "pullsLeft g \<Longrightarrow> rright l \<in> set L" "pullsLeft g \<Longrightarrow> rleft l \<in> set L" "pullsTop g \<Longrightarrow> rbottom l \<in> set T"
    "pullsTop g \<Longrightarrow> rtop l \<in> set T" "pullsRight g \<Longrightarrow> rleft l \<in> set R" "pullsRight g \<Longrightarrow> rright l \<in> set R"
    "pullsBottom g \<Longrightarrow> rtop l \<in> set B" "pullsBottom g \<Longrightarrow> rbottom l \<in> set B" if "l \<in> set ls" for l
    using that by (simp_all add: defs lines_window)
  let ?good = "edgeGood L T R B"
  have borders: "?good (snapBorders w area g e)" if "?good e" for w e
    unfolding snapBorders_def Let_def using that by (simp add: edgeGood_steps border)
  have edges: "?good (snapEdges w start g l e)" if "?good e" "l \<in> set ls" for w l e
    unfolding snapEdges_def Let_def using that by (simp add: edgeGood_steps windows)
  have corners: "?good (snapCorners w g l e)" if "?good e" "l \<in> set ls" for w l e
    unfolding snapCorners_def Let_def using that by (simp add: edgeGood_steps windows)
  have fold: "?good (fold (\<lambda>l e. snapCorners w g l (snapEdges w start g l e)) vs e)" if "?good e" "set vs \<subseteq> set ls" for w vs e
    using that by (induction vs arbitrary: e) (simp_all add: edges corners)
  have start: "?good \<lparr>esLeft = rleft start, esTop = rtop start, esRight = rright start, esBottom = rbottom start, esDeltaX = x, esDeltaY = y\<rparr>"
    for x y by (simp add: edgeGood_def defs lines_def)
  have "?good (snapSize opt area ls g start)"
    unfolding snapSize_def Let_def by (simp add: fold borders edgeGood_steps start)
  then show ?thesis by (simp add: edgeGood_def defs)
qed

text \<open>Other windows can pull an edge further than the snap zone: each is compared with the edge where the one before has put
  it, so two windows move the right edge by the sum of two distances.\<close>

theorem snap_size_drifts:
  assumes "soBorder opt = 0" "\<not> soOverlapping opt" "0 < far" "far < near" "near < of_int (soWindow opt)" "0 < rectH start"
    "one = \<lparr>rectX = rright start + near, rectY = rtop start, rectW = width, rectH = rectH start\<rparr>" "near \<le> width"
    "two = \<lparr>rectX = rright start + near + far, rectY = rtop start, rectW = width, rectH = rectH start\<rparr>"
  shows "esRight (snapSize opt area [one, two] GravityRight start) = rright start + (near + far)"
proof -
  have g: "\<not> pullsLeft GravityRight" "\<not> pullsTop GravityRight" "\<not> pullsBottom GravityRight" "pullsRight GravityRight"
    by (simp_all add: pullsLeft_def pullsTop_def pullsBottom_def pullsRight_def)
  let ?e = "\<lambda>x d. \<lparr>esLeft = rleft start, esTop = rtop start, esRight = x, esBottom = rbottom start, esDeltaX = d, esDeltaY = of_int (soWindow opt)\<rparr>"
  have pull: "snapCorners False GravityRight l (snapEdges False start GravityRight l (?e x d)) = ?e (rleft l) \<bar>rleft l - x\<bar>"
    if "\<bar>rleft l - x\<bar> < d" "rtop l = rtop start" "rectH l = rectH start" for l x d
    using that assms(6) g by (simp add: snapCorners_def snapEdges_def Let_def snapRight_def withinHeight_def meets_def rbottom_def)
  have "snapSize opt area [one, two] GravityRight start = ?e (rleft two) \<bar>rleft two - rleft one\<bar>"
    using assms(1-6) by (simp add: snapSize_def Let_def withDeltas_def pull assms(7,9))
  then show ?thesis by (simp add: assms(9))
qed

theorem snap_size_drifts_witness:
  "esRight (snapSize (demo_snap\<lparr>soBorder := 0\<rparr>) rnullRect [\<lparr>rectX = 109, rectY = 0, rectW = 50, rectH = 100\<rparr>, \<lparr>rectX = 117, rectY = 0, rectW = 50, rectH = 100\<rparr>]
     GravityRight \<lparr>rectX = 0, rectY = 0, rectW = 100, rectH = 100\<rparr>) = 117"
  by (subst snap_size_drifts[where near = 9 and far = 8 and width = 50]) (simp_all add: demo_snap_def rright_def)

text \<open>The area that a resize snaps to does not depend on where the window is: it is taken at the centre of
  \<open>window->rect()\<close>, whose corner is always the origin.\<close>

lemma snap_size_ignores_place:
  assumes "rsize (frameOf s w) = rsize (frameOf t w)" "\<And>v. v \<noteq> w \<Longrightarrow> frameOf s v = frameOf t v"
  shows "adjustWindowSize P s opt w geo g = adjustWindowSize P t opt w geo g"
proof -
  have "map (frameOf s) (filter (\<lambda>v. onCurrentDesktop P v \<and> \<not> isMinimized (attrs P v) \<and> v \<noteq> w) vs) =
      map (frameOf t) (filter (\<lambda>v. onCurrentDesktop P v \<and> \<not> isMinimized (attrs P v) \<and> v \<noteq> w) vs)" for vs
    using assms(2) by (induction vs) simp_all
  moreover have "rectW (frameOf s w) = rectW (frameOf t w)" "rectH (frameOf s w) = rectH (frameOf t w)"
    using assms(1) by (simp_all add: rsize_def)
  ultimately show ?thesis by (simp only: adjustWindowSize_def Let_def)
qed

end
