(* ===== verification/Focus_Stealing.thy ===== *)
theory Focus_Stealing
  imports Rule_Book Window_Model "HOL-Library.Word"
begin

text \<open>
  Focus stealing prevention (\<open>src/src/activation.cpp\<close>, with \<open>RootInfo::changeActiveWindow\<close> of \<open>src/src/netinfo.cpp\<close>): the
  times of the last interaction with windows and groups, and whether a window may activate itself or raise itself. Timestamps
  are 32 bits wide and wrap around; they are compared by \<open>NET::timestampCompare\<close> of the library, a field of the environment.
  The time 0 is \<open>XCB_TIME_CURRENT_TIME\<close>, and \<open>-1U\<close> stands for no time.
\<close>

type_synonym timestamp = "32 word"

abbreviation noTime :: timestamp where "noTime \<equiv> -1"

text \<open>The windows as these functions see them. \<open>fwX11\<close> tells the X11 windows, the only ones with a user time of their own.\<close>

record focus_window =
  fwX11 :: bool
  fwRules :: "rules list"
  fwGroup :: nat
  fwDesktop :: bool
  fwSplash :: bool
  fwToolbar :: bool
  fwUtility :: bool
  fwMenu :: bool
  fwTransient :: bool
  fwGroupTransient :: bool
  fwOnCurrentDesktop :: bool
  fwMainWindows :: "wid list"

record focus_env =
  timestampCompare :: "timestamp \<Rightarrow> timestamp \<Rightarrow> int"
  feWindow :: "wid \<Rightarrow> focus_window"
  feX11Clients :: "wid list"
  feSameApplication :: "wid \<Rightarrow> wid \<Rightarrow> bool"
  feHasTransient :: "wid \<Rightarrow> wid \<Rightarrow> bool"
  fePreventionLevel :: int
  feSaving :: bool
  feActive :: "wid option"
  feLastActive :: "wid option"
  feShouldGetFocus :: "wid list"
  feXTime :: timestamp

record user_times =
  m_userTime :: "wid \<Rightarrow> timestamp"
  group_user_time :: "nat \<Rightarrow> timestamp"
  shade_below :: "wid option"

definition mostRecentlyActivatedWindow :: "focus_env \<Rightarrow> wid option" where
  "mostRecentlyActivatedWindow E = (if feShouldGetFocus E \<noteq> [] then Some (last (feShouldGetFocus E)) else feActive E)"

section \<open>User times\<close>

text \<open>The step that windows and groups share: a later time replaces the one that is known; \<open>feXTime\<close> is the time after
  \<open>updateXTime\<close>.\<close>

definition currentOr :: "focus_env \<Rightarrow> timestamp \<Rightarrow> timestamp" where
  "currentOr E t = (if t = 0 then feXTime E else t)"

definition newer :: "focus_env \<Rightarrow> timestamp \<Rightarrow> timestamp \<Rightarrow> bool" where
  "newer E t old \<longleftrightarrow> t \<noteq> noTime \<and> (old = 0 \<or> 0 < timestampCompare E t old)"

definition groupUpdateUserTime :: "focus_env \<Rightarrow> nat \<Rightarrow> timestamp \<Rightarrow> user_times \<Rightarrow> user_times" where
  "groupUpdateUserTime E g time s = (let t = currentOr E time in
     if newer E t (group_user_time s g) then s\<lparr>group_user_time := (group_user_time s)(g := t)\<rparr> else s)"

definition updateUserTime :: "focus_env \<Rightarrow> wid \<Rightarrow> timestamp \<Rightarrow> user_times \<Rightarrow> user_times" where
  "updateUserTime E w time s = (let t = currentOr E time;
       s = (if newer E t (m_userTime s w) then s\<lparr>m_userTime := (m_userTime s)(w := t), shade_below := None\<rparr> else s)
     in groupUpdateUserTime E (fwGroup (feWindow E w)) (m_userTime s w) s)"

definition x11UserTime :: "focus_env \<Rightarrow> user_times \<Rightarrow> wid \<Rightarrow> timestamp" where
  "x11UserTime E s w = (let time = m_userTime s w; group = group_user_time s (fwGroup (feWindow E w)) in
     if time = 0 then 0
     else if time = noTime \<or> (group \<noteq> noTime \<and> 0 < timestampCompare E group time) then group
     else time)"

text \<open>\<open>Window::userTime\<close> of the other windows is \<open>XCB_TIME_CURRENT_TIME\<close>.\<close>

definition userTime :: "focus_env \<Rightarrow> user_times \<Rightarrow> wid \<Rightarrow> timestamp" where
  "userTime E s w = (if fwX11 (feWindow E w) then x11UserTime E s w else 0)"

definition groupStartup :: "focus_env \<Rightarrow> nat \<Rightarrow> timestamp option \<Rightarrow> user_times \<Rightarrow> user_times" where
  "groupStartup E g asn s = (case asn of None \<Rightarrow> s | Some t \<Rightarrow>
     if t \<noteq> 0 \<and> group_user_time s g \<noteq> noTime \<and> 0 < timestampCompare E t (group_user_time s g)
     then s\<lparr>group_user_time := (group_user_time s)(g := t)\<rparr> else s)"

section \<open>Levels\<close>

definition checkFSP :: "focus_env \<Rightarrow> wid \<Rightarrow> int" where
  "checkFSP E w = checkRules (applyForceRule vInt RFspLevel) (fwRules (feWindow E w)) (fePreventionLevel E)"

definition checkFPP :: "focus_env \<Rightarrow> wid \<Rightarrow> int" where
  "checkFPP E w = checkRules (applyForceRule vInt RFppLevel) (fwRules (feWindow E w)) 2"

definition acceptsFocusByRule :: "focus_env \<Rightarrow> wid \<Rightarrow> bool" where
  "acceptsFocusByRule E w = checkRules (applyForceRule vBool RAcceptFocus) (fwRules (feWindow E w)) False"

text \<open>Whether an application may raise its window.\<close>

definition allowFullClientRaising :: "focus_env \<Rightarrow> user_times \<Rightarrow> wid \<Rightarrow> timestamp \<Rightarrow> bool" where
  "allowFullClientRaising E s w time = (let level = checkFSP E w in
     if feSaving E \<and> level \<le> 2 then True
     else if level = 0 then True
     else if level = 4 then False
     else (case mostRecentlyActivatedWindow E of None \<Rightarrow> True | Some ac \<Rightarrow>
       if fwDesktop (feWindow E ac) then True
       else if feSameApplication E w ac then True
       else if level = 3 then False
       else 0 \<le> timestampCompare E time (userTime E s ac)))"

text \<open>The decision about the activation once the level, the protection by the active window \<open>ac\<close> and the time are known.\<close>

definition allowBetween :: "focus_env \<Rightarrow> user_times \<Rightarrow> int \<Rightarrow> int \<Rightarrow> wid option \<Rightarrow> wid \<Rightarrow> timestamp \<Rightarrow> bool \<Rightarrow> bool" where
  "allowBetween E s level protection ac w time ignoreDesktop = (let here = fwOnCurrentDesktop (feWindow E w) in
     if level = 0 \<or> protection = 0 then True
     else if level = 4 \<or> protection = 4 then False
     else if \<not> ignoreDesktop \<and> \<not> here then False
     else (case ac of None \<Rightarrow> True | Some a \<Rightarrow>
       if fwDesktop (feWindow E a) then True
       else if feSameApplication E w a \<and> protection < 3 then True
       else if \<not> here then False
       else if 2 < level \<and> 1 < protection then False
       else if time = noTime then level < 2 \<and> protection < 3
       else 0 \<le> timestampCompare E time (userTime E s a)))"

definition protectionOf :: "focus_env \<Rightarrow> wid option \<Rightarrow> int" where
  "protectionOf E ac = (case ac of None \<Rightarrow> 0 | Some a \<Rightarrow> checkFPP E a)"

definition allowWindowActivation :: "focus_env \<Rightarrow> user_times \<Rightarrow> wid \<Rightarrow> timestamp \<Rightarrow> bool \<Rightarrow> bool \<Rightarrow> bool" where
  "allowWindowActivation E s w time focusIn ignoreDesktop =
     (let time = (if time = noTime then userTime E s w else time); level = checkFSP E w in
      if feSaving E \<and> level \<le> 2 then True
      else if focusIn \<and> w \<in> set (feShouldGetFocus E) then True
      else (let ac = (if focusIn then feLastActive E else mostRecentlyActivatedWindow E) in
        if time = 0 \<and> \<not> acceptsFocusByRule E w then False
        else allowBetween E s level (protectionOf E ac) ac w time ignoreDesktop))"

section \<open>The time of a new window\<close>

text \<open>A window of the same application that was there before.\<close>

definition sameApplicationBefore :: "focus_env \<Rightarrow> wid \<Rightarrow> wid \<Rightarrow> bool" where
  "sameApplicationBefore E w c = (let cl = feWindow E c in
     \<not> fwSplash cl \<and> \<not> fwToolbar cl \<and> \<not> fwUtility cl \<and> \<not> fwMenu cl \<and> c \<noteq> w \<and> feSameApplication E c w)"

definition firstWindow :: "focus_env \<Rightarrow> wid \<Rightarrow> wid \<Rightarrow> bool" where
  "firstWindow E act w = (let c = feWindow E w in
     if fwTransient c
     then (if feHasTransient E act w then True
       else fwGroupTransient c \<and> find (sameApplicationBefore E w) (filter (\<lambda>m. fwX11 (feWindow E m)) (fwMainWindows c)) = None)
     else find (sameApplicationBefore E w) (feX11Clients E) = None)"

definition readUserTimeMapTimestamp :: "focus_env \<Rightarrow> wid \<Rightarrow> timestamp \<Rightarrow> timestamp option \<Rightarrow> bool \<Rightarrow> timestamp \<Rightarrow> timestamp" where
  "readUserTimeMapTimestamp E w hint asn session creation =
     (let time = (case asn of None \<Rightarrow> hint | Some t \<Rightarrow>
        if hint \<noteq> 0 \<and> t \<noteq> 0 \<and> (hint = noTime \<or> 0 < timestampCompare E t hint) then t else hint)
      in if time \<noteq> noTime then time
      else (let refused = (case mostRecentlyActivatedWindow E of None \<Rightarrow> False | Some act \<Rightarrow>
          fwX11 (feWindow E act) \<and> \<not> feSameApplication E act w \<and> \<not> firstWindow E act w \<and> 0 < checkFSP E w)
        in if refused then 0 else if session then noTime else creation))"

text \<open>The user time that \<open>X11Window::manage\<close> starts with, and the replacement of an unknown one at its end.\<close>

definition initialUserTime :: "focus_env \<Rightarrow> wid \<Rightarrow> timestamp \<Rightarrow> timestamp option \<Rightarrow> bool \<Rightarrow> timestamp \<Rightarrow> user_times \<Rightarrow> user_times" where
  "initialUserTime E w hint asn session creation s =
     (let t = readUserTimeMapTimestamp E w hint asn session creation
      in groupUpdateUserTime E (fwGroup (feWindow E w)) t (s\<lparr>m_userTime := (m_userTime s)(w := t)\<rparr>))"

definition settleUserTime :: "focus_env \<Rightarrow> wid \<Rightarrow> user_times \<Rightarrow> user_times" where
  "settleUserTime E w s = (if m_userTime s w = 0 \<or> m_userTime s w = noTime
     then (let t = feXTime E - 1000000 in
       s\<lparr>m_userTime := (m_userTime s)(w := if t = 0 \<or> t = noTime then feXTime E - 1000000 + 10 else t)\<rparr>)
     else s)"

section \<open>Requests of clients\<close>

datatype request_source = FromApplication | FromTool | FromUnknown

datatype activation_answer = ActivateForced | Activated | KeptActive | DemandsAttention

text \<open>\<open>RootInfo::changeActiveWindow\<close> for the window \<open>c\<close>; \<open>requestor\<close> is the X11 window of the requesting client. The command
  of a client that waits for the mouse (\<open>waiting\<close>) keeps the window from being activated.\<close>

definition changeActiveWindow :: "focus_env \<Rightarrow> user_times \<Rightarrow> bool \<Rightarrow> wid \<Rightarrow> request_source \<Rightarrow> timestamp \<Rightarrow> wid option \<Rightarrow> activation_answer option" where
  "changeActiveWindow E s waiting c src time requestor =
     (let time = (if time = 0 then userTime E s c else time) in
      if src \<noteq> FromApplication then Some ActivateForced
      else if mostRecentlyActivatedWindow E = Some c then Some KeptActive
      else if allowWindowActivation E s c time False True then (if waiting then None else Some Activated)
      else (case requestor of None \<Rightarrow> Some DemandsAttention | Some c2 \<Rightarrow>
        if allowWindowActivation E s c2
             (word_of_int (timestampCompare E time (if 0 < userTime E s c2 then time else userTime E s c2))) False True
        then Some Activated else Some DemandsAttention))"

text \<open>What \<open>raiseWindowRequest\<close> and \<open>lowerWindowRequest\<close> do.\<close>

datatype raise_answer = RaiseFully | RaiseInApplication | LowerFully | LowerInApplication

definition raiseRequestAnswer :: "focus_env \<Rightarrow> user_times \<Rightarrow> wid \<Rightarrow> request_source \<Rightarrow> timestamp \<Rightarrow> raise_answer" where
  "raiseRequestAnswer E s w src time =
     (if src = FromTool \<or> allowFullClientRaising E s w time then RaiseFully else RaiseInApplication)"

definition lowerRequestAnswer :: "bool \<Rightarrow> request_source \<Rightarrow> raise_answer" where
  "lowerRequestAnswer hasUserTimeSupport src =
     (if src = FromTool \<or> \<not> hasUserTimeSupport then LowerFully else LowerInApplication)"

end
