(* ===== verification/Window_Desktops.thy ===== *)
theory Window_Desktops
  imports Focus_Chain "HOL-Library.Monad_Syntax"
begin

text \<open>
  The virtual desktops of a window (\<open>setDesktops\<close>, \<open>setOnAllDesktops\<close>, \<open>enterDesktop\<close>, \<open>leaveDesktop\<close> of \<open>src/src/window.cpp\<close>;
  \<open>sendWindowToDesktop\<close> and the slots for added and removed desktops of \<open>src/src/workspace.cpp\<close>). A change goes on to the transients
  of the window and, from a modal window, to its main windows, so that \<open>setDesktops\<close> calls itself for other windows; \<open>None\<close> is a
  recursion without end or a null current desktop. Each changed window is put first in its focus chains.
\<close>

datatype desk_call = AnnounceDesktops wid | DoSetDesktop wid | DesktopsRule wid | DesktopsChanged wid | PresenceChanged wid
  | RequestFocusOf wid | RestackUnderActive wid | RaiseOnDesktop wid | CheckPosition wid "vd option" | UpdateClientArea | ReinitCascading

text \<open>\<open>deNumber\<close> is \<open>x11DesktopNumber\<close>, which an object that was just removed from the manager still has; \<open>deRule\<close> is
  \<open>checkDesktops\<close> of the rules of a window.\<close>

record desk_env =
  deTransients :: "wid \<Rightarrow> wid list"
  deMainWindows :: "wid \<Rightarrow> wid list"
  deStackingOrder :: "wid list"
  deRule :: "wid \<Rightarrow> vd list \<Rightarrow> vd list"
  deX11Mode :: bool
  deDesktops :: "vd list"
  deNumber :: "vd \<Rightarrow> int"
  deMoveResize :: "wid option"
  deClients :: "wid list"
  deReasonable :: bool

record desk_state =
  dsEnv :: env
  dsChain :: focus_chain
  dsCalls :: "desk_call list"

abbreviation deskWindow :: "desk_state \<Rightarrow> wid \<Rightarrow> window" where "deskWindow s w \<equiv> windowAt (dsEnv s) w"

abbreviation desksOf :: "desk_state \<Rightarrow> wid \<Rightarrow> vd list" where "desksOf s w \<equiv> desktops (deskWindow s w)"

definition deskCalls :: "desk_call list \<Rightarrow> desk_state \<Rightarrow> desk_state" where
  "deskCalls cs s = s\<lparr>dsCalls := dsCalls s @ cs\<rparr>"

section \<open>Setting the desktops\<close>

text \<open>On X11 a window is on one desktop or on all; a rule can decide otherwise.\<close>

definition allowedDesktops :: "desk_env \<Rightarrow> wid \<Rightarrow> vd list \<Rightarrow> vd list" where
  "allowedDesktops E w ds = deRule E w (if deX11Mode E \<and> 1 < length ds then [last ds] else ds)"

definition assignDesktops :: "wid \<Rightarrow> vd list \<Rightarrow> desk_state \<Rightarrow> desk_state" where
  "assignDesktops w ds s = deskCalls [AnnounceDesktops w]
     (s\<lparr>dsEnv := (dsEnv s)\<lparr>windowAt := (windowAt (dsEnv s))(w := (deskWindow s w)\<lparr>desktops := ds\<rparr>)\<rparr>\<rparr>)"

text \<open>The end of \<open>setDesktops\<close>; \<open>was\<close> tells whether the window was on the current desktop, but not on all.\<close>

definition desktopsSet :: "wid \<Rightarrow> bool \<Rightarrow> desk_state \<Rightarrow> desk_state" where
  "desktopsSet w was s = deskCalls ([DoSetDesktop w, DesktopsRule w, DesktopsChanged w]
       @ (if was \<noteq> isOnCurrentDesktop (dsEnv s) (deskWindow s w) then [PresenceChanged w] else []))
     (s\<lparr>dsChain := update (dsEnv s) w MakeFirst (dsChain s)\<rparr>)"

text \<open>\<open>ensureStackingOrderInList\<close> for the windows of the stacking order.\<close>

definition inStackingOrder :: "desk_env \<Rightarrow> wid list \<Rightarrow> wid list" where
  "inStackingOrder E ws = (if length ws < 2 then ws
     else fold (\<lambda>w res. if w \<in> set res then removeAll w res @ [w] else res) (deStackingOrder E) ws)"

text \<open>\<open>MoveTo\<close> is \<open>setDesktops\<close>, \<open>MoveAll\<close> one of its loops over other windows, \<open>FollowSticky\<close> the loop of
  \<open>updateOnAllDesktopsOfTransients\<close> with \<open>setOnAllDesktops\<close> in it.\<close>

datatype desk_step = MoveTo wid "vd list" | MoveAll "wid list" "vd list" | FollowSticky wid "wid list"

partial_function (option) moving :: "desk_env \<Rightarrow> desk_step \<Rightarrow> desk_state \<Rightarrow> desk_state option" where
  "moving E step s = (case step of
       MoveTo w arg \<Rightarrow> (let ds = allowedDesktops E w arg; sticky = isOnAllDesktops (deskWindow s w);
           was = (isOnCurrentDesktop (dsEnv s) (deskWindow s w) \<and> \<not> sticky)
         in if ds = desksOf s w then Some s
         else do {
           s \<leftarrow> (if sticky \<noteq> (ds = []) then moving E (FollowSticky w (deTransients E w)) (assignDesktops w ds s)
             else Some (assignDesktops w ds s));
           s \<leftarrow> moving E (MoveAll (inStackingOrder E (deTransients E w)) ds) s;
           s \<leftarrow> (if isModal (deskWindow s w) then moving E (MoveAll (deMainWindows E w) ds) s else Some s);
           Some (desktopsSet w was s) })
     | MoveAll [] ds \<Rightarrow> Some s
     | MoveAll (w # ws) ds \<Rightarrow> do {
         s \<leftarrow> moving E (MoveTo w ds) s;
         moving E (MoveAll ws ds) s }
     | FollowSticky w [] \<Rightarrow> Some s
     | FollowSticky w (t # ts) \<Rightarrow> do {
         s \<leftarrow> (if isOnAllDesktops (deskWindow s t) = isOnAllDesktops (deskWindow s w) then Some s
           else if isOnAllDesktops (deskWindow s w) then moving E (MoveTo t []) s
           else do {
             d \<leftarrow> currentDesktop (dsEnv s);
             moving E (MoveTo t [d]) s });
         moving E (FollowSticky w ts) s })"

abbreviation setDesktops :: "desk_env \<Rightarrow> wid \<Rightarrow> vd list \<Rightarrow> desk_state \<Rightarrow> desk_state option" where
  "setDesktops E w ds \<equiv> moving E (MoveTo w ds)"

definition setOnAllDesktops :: "desk_env \<Rightarrow> wid \<Rightarrow> bool \<Rightarrow> desk_state \<Rightarrow> desk_state option" where
  "setOnAllDesktops E w b s = (if b = isOnAllDesktops (deskWindow s w) then Some s
     else if b then setDesktops E w [] s
     else do {
       d \<leftarrow> currentDesktop (dsEnv s);
       setDesktops E w [d] s })"

definition enterDesktop :: "desk_env \<Rightarrow> wid \<Rightarrow> vd \<Rightarrow> desk_state \<Rightarrow> desk_state option" where
  "enterDesktop E w d s = (if d \<in> set (desksOf s w) then Some s else setDesktops E w (desksOf s w @ [d]) s)"

definition leaveDesktop :: "desk_env \<Rightarrow> wid \<Rightarrow> vd \<Rightarrow> desk_state \<Rightarrow> desk_state option" where
  "leaveDesktop E w d s =
     (let ds = (if desksOf s w = [] then deDesktops E else desksOf s w)
      in if d \<notin> set ds then Some s else setDesktops E w (remove1 d ds) s)"

text \<open>\<open>desktopForX11Id\<close>, and \<open>desktop()\<close>, which is -1 for a window on all desktops.\<close>

definition desktopNumbered :: "desk_env \<Rightarrow> int \<Rightarrow> vd option" where
  "desktopNumbered E n = (if 1 \<le> n \<and> n \<le> int (length (deDesktops E)) then Some (deDesktops E ! nat (n - 1)) else None)"

definition windowDesktopNumber :: "desk_env \<Rightarrow> window \<Rightarrow> int" where
  "windowDesktopNumber E c = (if desktops c = [] then -1 else deNumber E (last (desktops c)))"

definition setDesktop :: "desk_env \<Rightarrow> wid \<Rightarrow> int \<Rightarrow> desk_state \<Rightarrow> desk_state option" where
  "setDesktop E w n s = (if n = -1 then setDesktops E w [] s
     else do {
       d \<leftarrow> desktopNumbered E (max 1 (min (int (length (deDesktops E))) n));
       setDesktops E w [d] s })"

section \<open>Sending windows to a desktop\<close>

text \<open>\<open>sendWindowToDesktop\<close> for a list of windows, a window's transients after it. The old desktop, for which the position of the
  window is checked, is looked up by its number: an object that was just removed stands for the desktop with its number now.\<close>

partial_function (option) sending :: "desk_env \<Rightarrow> wid list \<Rightarrow> int \<Rightarrow> bool \<Rightarrow> desk_state \<Rightarrow> desk_state option" where
  "sending E ws n quiet s = (case ws of [] \<Rightarrow> Some s
     | w # rest \<Rightarrow> do {
         s \<leftarrow> (if isOnAllDesktops (deskWindow s w) \<or> deMoveResize E = Some w \<or> (n < 1 \<and> n \<noteq> -1)
               \<or> int (length (deDesktops E)) < n then Some s
           else (let was = isOnCurrentDesktop (dsEnv s) (deskWindow s w); old = windowDesktopNumber E (deskWindow s w) in do {
             s \<leftarrow> setDesktop E w n s;
             (if windowDesktopNumber E (deskWindow s w) \<noteq> n then Some s
              else (let c = deskWindow s w;
                  s = deskCalls (if isOnCurrentDesktop (dsEnv s) c
                      then (if wantsTabFocus c \<and> deReasonable E \<and> \<not> was \<and> \<not> quiet then [RequestFocusOf w] else [RestackUnderActive w])
                      else [RaiseOnDesktop w]) s;
                  s = deskCalls [CheckPosition w (desktopNumbered E old)] s
                in do {
                  s \<leftarrow> sending E (inStackingOrder E (deTransients E w)) n quiet s;
                  Some (deskCalls [UpdateClientArea] s) })) }));
         sending E rest n quiet s })"

abbreviation sendWindowToDesktop :: "desk_env \<Rightarrow> wid \<Rightarrow> int \<Rightarrow> bool \<Rightarrow> desk_state \<Rightarrow> desk_state option" where
  "sendWindowToDesktop E w \<equiv> sending E [w]"

definition slotDesktopAdded :: "vd \<Rightarrow> desk_state \<Rightarrow> desk_state" where
  "slotDesktopAdded d s = deskCalls [ReinitCascading, UpdateClientArea] (s\<lparr>dsChain := addDesktop d (dsChain s)\<rparr>)"

text \<open>The loop over the clients of \<open>slotDesktopRemoved\<close>; the manager does not hold the desktop any more.\<close>

fun vacate :: "desk_env \<Rightarrow> vd \<Rightarrow> wid list \<Rightarrow> desk_state \<Rightarrow> desk_state option" where
  "vacate E d [] s = Some s"
| "vacate E d (w # ws) s = do {
     s \<leftarrow> (if d \<notin> set (desksOf s w) then Some s
       else if 1 < length (desksOf s w) then leaveDesktop E w d s
       else sendWindowToDesktop E w (min (deNumber E d) (int (length (deDesktops E)))) True s);
     vacate E d ws s }"

definition slotDesktopRemoved :: "desk_env \<Rightarrow> vd \<Rightarrow> desk_state \<Rightarrow> desk_state option" where
  "slotDesktopRemoved E d s = do {
     s \<leftarrow> vacate E d (deClients E) s;
     Some ((deskCalls [UpdateClientArea, ReinitCascading] s)\<lparr>dsChain := removeDesktop d (dsChain s)\<rparr>) }"

end
