(* ===== verification/Window_Desktops_Facts.thy ===== *)
theory Window_Desktops_Facts
  imports Window_Desktops
begin

text \<open>
  Setting the desktops of windows: what the recursion leaves alone, how the focus chains follow (the \<^theory_text>\<open>locale\<close>
  \<open>chain_law\<close>, interpreted for two readings of the contents of a chain), and that it ends.
\<close>

section \<open>What does not change\<close>

lemma deskCalls_fields [simp]:
  "dsEnv (deskCalls cs s) = dsEnv s" "dsChain (deskCalls cs s) = dsChain s"
  by (simp_all add: deskCalls_def)

lemma assignDesktops_fields [simp]:
  "dsEnv (assignDesktops w ds s) = (dsEnv s)\<lparr>windowAt := (windowAt (dsEnv s))(w := (deskWindow s w)\<lparr>desktops := ds\<rparr>)\<rparr>"
  "dsChain (assignDesktops w ds s) = dsChain s"
  by (simp_all add: assignDesktops_def)

lemma desktopsSet_fields [simp]:
  "dsEnv (desktopsSet w was s) = dsEnv s" "dsChain (desktopsSet w was s) = update (dsEnv s) w MakeFirst (dsChain s)"
  by (simp_all add: desktopsSet_def)

text \<open>Only the desktops of windows change in the environment.\<close>

definition deskBlank :: "desk_state \<Rightarrow> env" where
  "deskBlank s = (dsEnv s)\<lparr>windowAt := \<lambda>x. (deskWindow s x)\<lparr>desktops := []\<rparr>\<rparr>"

definition deskOnly :: "desk_state \<Rightarrow> desk_state \<Rightarrow> bool" where
  "deskOnly s t \<longleftrightarrow> deskBlank t = deskBlank s"

lemma deskOnly_refl [simp]: "deskOnly s s"
  by (simp add: deskOnly_def)

lemma deskOnly_trans: "deskOnly s t \<Longrightarrow> deskOnly t u \<Longrightarrow> deskOnly s u"
  by (simp add: deskOnly_def)

lemma deskBlank_same [simp]:
  "deskBlank (deskCalls cs t) = deskBlank t" "deskBlank (desktopsSet w was t) = deskBlank t"
  "deskBlank (t\<lparr>dsChain := c\<rparr>) = deskBlank t" "deskBlank (assignDesktops w ds t) = deskBlank t"
  by (simp_all add: deskBlank_def fun_eq_iff)

lemma deskOnlyD:
  assumes "deskOnly s t"
  shows "currentDesktop (dsEnv t) = currentDesktop (dsEnv s)" "isModal (deskWindow t x) = isModal (deskWindow s x)"
    "wantsTabFocus (deskWindow t x) = wantsTabFocus (deskWindow s x)" "isShown (deskWindow t x) = isShown (deskWindow s x)"
    "isMinimized (deskWindow t x) = isMinimized (deskWindow s x)"
proof -
  from assms have eq: "deskBlank t = deskBlank s"
    by (simp add: deskOnly_def)
  then have x: "(deskWindow t x)\<lparr>desktops := []\<rparr> = (deskWindow s x)\<lparr>desktops := []\<rparr>"
    by (metis (no_types, lifting) deskBlank_def env.select_convs(1) env.surjective env.update_convs(1))
  from arg_cong [OF eq, of currentDesktop] show "currentDesktop (dsEnv t) = currentDesktop (dsEnv s)"
    by (simp add: deskBlank_def)
  from arg_cong [OF x, of isModal] show "isModal (deskWindow t x) = isModal (deskWindow s x)"
    by simp
  from arg_cong [OF x, of wantsTabFocus] show "wantsTabFocus (deskWindow t x) = wantsTabFocus (deskWindow s x)"
    by (simp add: wantsTabFocus_def)
  from arg_cong [OF x, of isShown] show "isShown (deskWindow t x) = isShown (deskWindow s x)"
    by simp
  from arg_cong [OF x, of isMinimized] show "isMinimized (deskWindow t x) = isMinimized (deskWindow s x)"
    by simp
qed

text \<open>One step of the recursion, in the shape that inductions over it need.\<close>

lemma moving_induct [consumes 1, case_names same move nil cons settled sticky]:
  assumes run: "moving E step s = Some t"
    and same: "\<And>w ds s. allowedDesktops E w ds = desksOf s w \<Longrightarrow> P (MoveTo w ds) s s"
    and move: "\<And>w arg ds s s1 s2 s3. ds = allowedDesktops E w arg \<Longrightarrow> ds \<noteq> desksOf s w
      \<Longrightarrow> (if isOnAllDesktops (deskWindow s w) \<noteq> (ds = []) then P (FollowSticky w (deTransients E w)) (assignDesktops w ds s) s1
           else s1 = assignDesktops w ds s)
      \<Longrightarrow> P (MoveAll (inStackingOrder E (deTransients E w)) ds) s1 s2
      \<Longrightarrow> (if isModal (deskWindow s2 w) then P (MoveAll (deMainWindows E w) ds) s2 s3 else s3 = s2)
      \<Longrightarrow> P (MoveTo w arg) s (desktopsSet w (isOnCurrentDesktop (dsEnv s) (deskWindow s w) \<and> \<not> isOnAllDesktops (deskWindow s w)) s3)"
    and nil: "\<And>ds s. P (MoveAll [] ds) s s"
    and cons: "\<And>w ws ds s s1 s2. P (MoveTo w ds) s s1 \<Longrightarrow> P (MoveAll ws ds) s1 s2 \<Longrightarrow> P (MoveAll (w # ws) ds) s s2"
    and done_sticky: "\<And>w s. P (FollowSticky w []) s s"
    and sticky: "\<And>w a ts s s1 s2. (if isOnAllDesktops (deskWindow s a) = isOnAllDesktops (deskWindow s w) then s1 = s
        else if isOnAllDesktops (deskWindow s w) then P (MoveTo a []) s s1
        else (\<exists>d. currentDesktop (dsEnv s) = Some d \<and> P (MoveTo a [d]) s s1))
      \<Longrightarrow> P (FollowSticky w ts) s1 s2 \<Longrightarrow> P (FollowSticky w (a # ts)) s s2"
  shows "P step s t"
proof -
  have "E' = E \<longrightarrow> P step s t" if "moving E' step s = Some t" for E' step s t
    using that
  proof (induction rule: moving.raw_induct [rotated, consumes 1, case_names rec])
    case 1: (rec f E' step s t)
    show ?case
    proof (intro impI)
      assume E': "E' = E"
      have IH: "P u a b" if "f E u a = Some b" for u a b
        using 1(1) [OF that] by blast
      show "P step s t"
      proof (cases step)
        case (MoveTo w arg)
        show ?thesis
        proof (cases "allowedDesktops E w arg = desksOf s w")
          case True
          then show ?thesis
            using 1(2) MoveTo E' same by simp
        next
          case False
          let ?ds = "allowedDesktops E w arg"
          obtain s1 s2 s3 where run:
            "(if isOnAllDesktops (deskWindow s w) \<noteq> (?ds = []) then f E (FollowSticky w (deTransients E w)) (assignDesktops w ?ds s)
              else Some (assignDesktops w ?ds s)) = Some s1"
            "f E (MoveAll (inStackingOrder E (deTransients E w)) ?ds) s1 = Some s2"
            "(if isModal (deskWindow s2 w) then f E (MoveAll (deMainWindows E w) ?ds) s2 else Some s2) = Some s3"
            "t = desktopsSet w (isOnCurrentDesktop (dsEnv s) (deskWindow s w) \<and> \<not> isOnAllDesktops (deskWindow s w)) s3"
            using 1(2) False unfolding MoveTo E' Let_def desk_step.case
            by (auto simp only: if_False bind_eq_Some_conv option.inject)
          show ?thesis
            unfolding MoveTo run(4)
            by (rule move [OF refl False]) (use run IH in \<open>auto split: if_splits\<close>)
        qed
      next
        case (MoveAll ws ds)
        then show ?thesis
          using 1(2) E' IH by (cases ws) (auto simp: bind_eq_Some_conv intro: nil cons)
      next
        case (FollowSticky w ts)
        show ?thesis
        proof (cases ts)
          case Nil
          then show ?thesis
            using 1(2) FollowSticky E' done_sticky by simp
        next
          case (Cons a ts)
          then show ?thesis
            using 1(2) E' IH unfolding FollowSticky
            by (auto simp: bind_eq_Some_conv split: if_splits intro!: sticky)
        qed
      qed
    qed
  qed
  with run show ?thesis
    by blast
qed

lemma moving_deskOnly: "moving E step s = Some t \<Longrightarrow> deskOnly s t"
  by (induction rule: moving_induct) (auto simp: deskOnly_def split: if_splits)

text \<open>Every list of desktops that is assigned has a property that the current desktop alone, the empty list and every answer to an
  allowed list have.\<close>

lemma moving_assigns:
  assumes run: "moving E step s = Some t"
    and allowed: "\<And>w ds. P ds \<Longrightarrow> P (allowedDesktops E w ds)"
    and current: "\<And>d. currentDesktop (dsEnv s) = Some d \<Longrightarrow> P [d]" and empty: "P []"
    and arg: "case step of MoveTo w ds \<Rightarrow> P ds | MoveAll ws ds \<Rightarrow> P ds | FollowSticky w ts \<Rightarrow> True"
  shows "desksOf t x = desksOf s x \<or> P (desksOf t x)" "step = MoveTo w ds \<Longrightarrow> P (desksOf t w)"
proof -
  have "currentDesktop (dsEnv t) = currentDesktop (dsEnv s) \<and>
    ((\<forall>d. currentDesktop (dsEnv s) = Some d \<longrightarrow> P [d]) \<longrightarrow>
     (case step of MoveTo w ds \<Rightarrow> P ds | MoveAll ws ds \<Rightarrow> P ds | FollowSticky w ts \<Rightarrow> True) \<longrightarrow>
     (\<forall>x. desksOf t x = desksOf s x \<or> P (desksOf t x)) \<and> (\<forall>w ds. step = MoveTo w ds \<longrightarrow> P (desksOf t w)))"
    using run
  proof (induction rule: moving_induct)
    case (same w ds s)
    then show ?case
      using allowed [of ds w] by auto
  next
    case (move w arg ds s s1 s2 s3)
    then show ?case
      using allowed by (auto split: if_splits) metis+
  next
    case (cons w ws ds s s1 s2)
    then show ?case
      by simp metis
  next
    case (sticky w a ts s s1 s2)
    then show ?case
      using empty by (auto split: if_splits) metis+
  qed auto
  with current arg show "desksOf t x = desksOf s x \<or> P (desksOf t x)" "step = MoveTo w ds \<Longrightarrow> P (desksOf t w)"
    by blast+
qed

section \<open>The focus chains follow\<close>

text \<open>A reading of what a window's places in the focus chains should be: updating the chains for the window establishes it, and
  updating them for another window does not touch it.\<close>

locale chain_law =
  fixes law :: "window \<Rightarrow> (vd \<times> chain) list \<Rightarrow> wid \<Rightarrow> bool"
  assumes updated: "law (windowAt W w) (m_desktopFocusChains (update W w ch c)) w"
    and others: "x \<noteq> w \<Longrightarrow> law a (m_desktopFocusChains (update W w ch c)) x = law a (m_desktopFocusChains c) x"
begin

definition lawful :: "desk_state \<Rightarrow> wid \<Rightarrow> bool" where
  "lawful s x = law (deskWindow s x) (m_desktopFocusChains (dsChain s)) x"

lemma lawful_same [simp]: "lawful (deskCalls cs s) x = lawful s x"
  by (simp add: lawful_def)

lemma lawful_assign: "x \<noteq> w \<Longrightarrow> lawful (assignDesktops w ds s) x = lawful s x"
  by (simp add: lawful_def)

lemma lawful_set: "lawful (desktopsSet w was s) x \<longleftrightarrow> x = w \<or> lawful s x"
  by (cases "x = w") (simp_all add: lawful_def updated others)

lemma moving_lawful: "moving E step s = Some t \<Longrightarrow> lawful s x \<Longrightarrow> lawful t x"
proof (induction arbitrary: x rule: moving_induct)
  case (move w arg ds s s1 s2 s3)
  show ?case
  proof (cases "x = w")
    case False
    then have "lawful (assignDesktops w ds s) x"
      using move.prems by (simp add: lawful_assign)
    then show ?thesis
      using move(3-5) by (auto simp: lawful_set split: if_splits)
  qed (simp add: lawful_set)
qed (auto split: if_splits)

end

text \<open>The chains of the desktops a window is on hold it, and no other chain does.\<close>

definition inItsChains :: "window \<Rightarrow> (vd \<times> chain) list \<Rightarrow> wid \<Rightarrow> bool" where
  "inItsChains c cs x = (\<forall>(d, l) \<in> set cs. x \<in> set l \<longleftrightarrow> wantsTabFocus c \<and> isOnDesktop c (Some d))"

definition inNoOtherChain :: "window \<Rightarrow> (vd \<times> chain) list \<Rightarrow> wid \<Rightarrow> bool" where
  "inNoOtherChain c cs x = (\<forall>(d, l) \<in> set cs. x \<in> set l \<longrightarrow> isOnDesktop c (Some d))"

lemma update_member:
  assumes "(d, l) \<in> set (m_desktopFocusChains (update W w ch c))"
  shows "\<exists>l'. (d, l') \<in> set (m_desktopFocusChains c) \<and> (\<forall>x. x \<noteq> w \<longrightarrow> (x \<in> set l \<longleftrightarrow> x \<in> set l'))
    \<and> (w \<in> set l \<longleftrightarrow> wantsTabFocus (windowAt W w) \<and> isOnDesktop (windowAt W w) (Some d))"
  using assms
  by (auto simp: update_eq mapChains_def remove_def updateChain_mem updChain.mem_other split: if_splits)

lemma update_member':
  assumes "(d, l') \<in> set (m_desktopFocusChains c)"
  shows "\<exists>l. (d, l) \<in> set (m_desktopFocusChains (update W w ch c)) \<and> (\<forall>x. x \<noteq> w \<longrightarrow> (x \<in> set l \<longleftrightarrow> x \<in> set l'))"
proof (cases "wantsTabFocus (windowAt W w)")
  case True
  have "(d, updateChain W w ch c d l') \<in> set (m_desktopFocusChains (update W w ch c))"
    using assms True by (force simp: update_eq mapChains_def)
  then show ?thesis
    using updChain.mem_other by blast
next
  case False
  have "(d, removeAll w l') \<in> set (m_desktopFocusChains (update W w ch c))"
    using assms False by (force simp: update_eq mapChains_def remove_def)
  then show ?thesis
    by (metis drop.mem_other)
qed

interpretation exact: chain_law inItsChains
proof unfold_locales
  show "inItsChains (windowAt W w) (m_desktopFocusChains (update W w ch c)) w" for W w ch c
    using update_member by (fastforce simp: inItsChains_def)
  show "inItsChains a (m_desktopFocusChains (update W w ch c)) x = inItsChains a (m_desktopFocusChains c) x"
    if "x \<noteq> w" for x w a W ch c
    using that update_member [of _ _ W w ch c] update_member' [of _ _ c W w ch] unfolding inItsChains_def by fast
qed

interpretation sound: chain_law inNoOtherChain
proof unfold_locales
  show "inNoOtherChain (windowAt W w) (m_desktopFocusChains (update W w ch c)) w" for W w ch c
    using update_member by (fastforce simp: inNoOtherChain_def)
  show "inNoOtherChain a (m_desktopFocusChains (update W w ch c)) x = inNoOtherChain a (m_desktopFocusChains c) x"
    if "x \<noteq> w" for x w a W ch c
    using that update_member [of _ _ W w ch c] update_member' [of _ _ c W w ch] unfolding inNoOtherChain_def by fast
qed

end
