(* ===== verification/Window_Desktops_Returns.thy ===== *)
theory Window_Desktops_Returns
  imports Window_Desktops_Facts
begin

text \<open>
  Setting the desktops of a window ends: every round moves a window that a rule holds in place to where the rule wants it, or takes a
  window off all desktops, or brings a free window to the desktops in question; each of these can only happen as often as there are
  windows. The three counts are one number, with the first weighing most.
\<close>

section \<open>The counts\<close>

definition onX11 :: "desk_env \<Rightarrow> vd list \<Rightarrow> vd list" where
  "onX11 E ds = (if deX11Mode E \<and> 1 < length ds then [last ds] else ds)"

lemma allowedDesktops_eq: "allowedDesktops E w ds = deRule E w (onX11 E ds)"
  by (simp add: allowedDesktops_def onX11_def)

lemma onX11_simps [simp]: "onX11 E (onX11 E ds) = onX11 E ds" "onX11 E [] = []" "onX11 E [d] = [d]" "onX11 E ds = [] \<longleftrightarrow> ds = []"
  by (auto simp: onX11_def)

text \<open>A rule leaves the desktops of its window alone or decides about them.\<close>

definition freeDesks :: "desk_env \<Rightarrow> wid \<Rightarrow> bool" where
  "freeDesks E w = (\<forall>ds. deRule E w ds = ds)"

definition rulesDecide :: "desk_env \<Rightarrow> bool" where
  "rulesDecide E = (\<forall>w. freeDesks E w \<or> (\<forall>ds. deRule E w ds = deRule E w []))"

definition misplaced :: "desk_env \<Rightarrow> wid set \<Rightarrow> (wid \<Rightarrow> vd list) \<Rightarrow> nat" where
  "misplaced E U D = card {x \<in> U. \<not> freeDesks E x \<and> D x \<noteq> deRule E x []}"

definition stickies :: "desk_env \<Rightarrow> wid set \<Rightarrow> (wid \<Rightarrow> vd list) \<Rightarrow> nat" where
  "stickies E U D = card {x \<in> U. freeDesks E x \<and> D x = []}"

definition astray :: "desk_env \<Rightarrow> wid set \<Rightarrow> vd list \<Rightarrow> (wid \<Rightarrow> vd list) \<Rightarrow> nat" where
  "astray E U ds D = card {x \<in> U. freeDesks E x \<and> D x \<noteq> onX11 E ds}"

definition width :: "wid set \<Rightarrow> nat" where
  "width U = card U + 2"

text \<open>Numbers with two digits to a base.\<close>

lemma digits_less:
  assumes "(a'::nat) < a" "b' < c"
  shows "a' * c + b' < a * c + b"
proof -
  from assms(1) have "(a' + 1) * c \<le> a * c"
    by (intro mult_right_mono) auto
  with assms(2) show ?thesis
    by (simp add: algebra_simps)
qed

lemma digits_bound: "(a::nat) + 1 < c \<Longrightarrow> b < c \<Longrightarrow> a * c + b < c * c"
  using digits_less [of a c b c 0] by simp

lemma digits_le:
  assumes "(a'::nat) * c + b' \<le> a * c + b" "b < c"
  shows "a' \<le> a"
proof (rule ccontr)
  assume "\<not> a' \<le> a"
  then have "a * c + b < a' * c + b'"
    using digits_less [of a a' b c b'] assms(2) by simp
  with assms(1) show False
    by simp
qed

text \<open>The rest of the number for \<open>setDesktops\<close> and for the loop over the transients of a window that is now on all desktops or not.\<close>

definition moveRest :: "desk_env \<Rightarrow> wid set \<Rightarrow> vd list \<Rightarrow> (wid \<Rightarrow> vd list) \<Rightarrow> nat" where
  "moveRest E U ds D = (if ds = [] then 0 else stickies E U D) * width U + astray E U ds D"

definition followRest :: "desk_env \<Rightarrow> wid set \<Rightarrow> bool \<Rightarrow> (wid \<Rightarrow> vd list) \<Rightarrow> nat" where
  "followRest E U e D = (if e then astray E U [] D else stickies E U D * width U + card U + 1)"

definition stepRest :: "desk_env \<Rightarrow> wid set \<Rightarrow> desk_step \<Rightarrow> (wid \<Rightarrow> vd list) \<Rightarrow> nat" where
  "stepRest E U step D = (case step of MoveTo w ds \<Rightarrow> moveRest E U ds D | MoveAll ws ds \<Rightarrow> moveRest E U ds D
     | FollowSticky w ts \<Rightarrow> followRest E U (D w = []) D)"

definition rank :: "desk_env \<Rightarrow> wid set \<Rightarrow> desk_step \<Rightarrow> (wid \<Rightarrow> vd list) \<Rightarrow> nat" where
  "rank E U step D = misplaced E U D * (width U * width U) + stepRest E U step D"

text \<open>The counts do not grow, and while no forced window has moved, a step with the empty list leaves windows on all desktops there, any
  other leaves no window on all desktops that was not.\<close>

definition stays :: "bool \<Rightarrow> (wid \<Rightarrow> vd list) \<Rightarrow> (wid \<Rightarrow> vd list) \<Rightarrow> bool" where
  "stays e D D' = (\<forall>x. (D x = []) = e \<longrightarrow> (D' x = []) = e)"

lemma stays_refl [simp]: "stays e D D"
  by (simp add: stays_def)

lemma stays_trans: "stays e D D' \<Longrightarrow> stays e D' D'' \<Longrightarrow> stays e D D''"
  unfolding stays_def by blast

lemma stays_assign: "(ds = []) = e \<Longrightarrow> stays e D (D(w := ds))"
  by (simp add: stays_def)

definition settled :: "desk_env \<Rightarrow> wid set \<Rightarrow> bool \<Rightarrow> ((wid \<Rightarrow> vd list) \<Rightarrow> nat) \<Rightarrow> (wid \<Rightarrow> vd list) \<Rightarrow> (wid \<Rightarrow> vd list) \<Rightarrow> bool" where
  "settled E U e R D D' \<longleftrightarrow> misplaced E U D' < misplaced E U D \<or>
     (misplaced E U D' = misplaced E U D \<and> R D' \<le> R D \<and> stays e D D')"

definition stepSettled :: "desk_env \<Rightarrow> wid set \<Rightarrow> desk_step \<Rightarrow> (wid \<Rightarrow> vd list) \<Rightarrow> (wid \<Rightarrow> vd list) \<Rightarrow> bool" where
  "stepSettled E U step D D' = (case step of
       MoveTo w ds \<Rightarrow> settled E U (ds = []) (moveRest E U ds) D D'
     | MoveAll ws ds \<Rightarrow> settled E U (ds = []) (moveRest E U ds) D D'
     | FollowSticky w ts \<Rightarrow> settled E U (D w = []) (followRest E U (D w = [])) D D')"

text \<open>A window that is brought to other desktops.\<close>

definition progress :: "desk_env \<Rightarrow> wid set \<Rightarrow> wid \<Rightarrow> vd list \<Rightarrow> (wid \<Rightarrow> vd list) \<Rightarrow> (wid \<Rightarrow> vd list) \<Rightarrow> bool" where
  "progress E U w arg D D' \<longleftrightarrow> misplaced E U D' < misplaced E U D \<or>
     (freeDesks E w \<and> misplaced E U D' = misplaced E U D \<and> moveRest E U arg D' < moveRest E U arg D
      \<and> stays (arg = []) D D')"

text \<open>The lemmas on the counts, for a finite set of windows.\<close>

locale finite_windows =
  fixes E :: desk_env and U :: "wid set"
  assumes U: "finite U"
begin

lemma astray_le: "astray E U ds D \<le> card U"
  unfolding astray_def by (rule card_mono) (use U in auto)

lemma stickies_le: "stickies E U D \<le> card U"
  unfolding stickies_def by (rule card_mono) (use U in auto)

lemma moveRest_less: "moveRest E U ds D < width U * width U"
  unfolding moveRest_def by (rule digits_bound) (use astray_le [of ds D] stickies_le [of D] in \<open>auto simp: width_def\<close>)

lemma followRest_less: "followRest E U e D < width U * width U"
proof (cases e)
  case True
  then have "followRest E U e D = 0 * width U + astray E U [] D"
    by (simp add: followRest_def)
  also have "\<dots> < width U * width U"
    by (rule digits_bound) (use astray_le [of "[]" D] in \<open>auto simp: width_def\<close>)
  finally show ?thesis .
next
  case False
  have "stickies E U D * width U + (card U + 1) < width U * width U"
    by (rule digits_bound) (use stickies_le [of D] in \<open>auto simp: width_def\<close>)
  with False show ?thesis
    by (simp add: followRest_def)
qed

lemma stepRest_less: "stepRest E U step D < width U * width U"
  using moveRest_less followRest_less by (auto simp: stepRest_def split: desk_step.split)

lemma rank_misplaced: "misplaced E U D' < misplaced E U D \<Longrightarrow> rank E U step' D' < rank E U step D"
  unfolding rank_def by (rule digits_less) (use stepRest_less in auto)

section \<open>One assignment\<close>

lemma misplaced_forced:
  assumes "w \<in> U" "\<not> freeDesks E w" "D w \<noteq> deRule E w []"
  shows "misplaced E U (D(w := deRule E w [])) < misplaced E U D"
  unfolding misplaced_def by (rule psubset_card_mono) (use U assms in auto)

lemma misplaced_free: "freeDesks E w \<Longrightarrow> misplaced E U (D(w := ds)) = misplaced E U D"
  unfolding misplaced_def by (rule arg_cong [of _ _ card]) auto

lemma stickies_free:
  assumes "w \<in> U" "freeDesks E w" "D w = []" "ds \<noteq> []"
  shows "stickies E U (D(w := ds)) < stickies E U D"
  unfolding stickies_def by (rule psubset_card_mono) (use U assms in auto)

lemma stickies_same: "D w \<noteq> [] \<Longrightarrow> ds \<noteq> [] \<Longrightarrow> stickies E U (D(w := ds)) = stickies E U D"
  unfolding stickies_def by (rule arg_cong [of _ _ card]) auto

lemma astray_free:
  assumes "w \<in> U" "freeDesks E w" "D w \<noteq> onX11 E ds"
  shows "astray E U ds (D(w := onX11 E ds)) < astray E U ds D"
  unfolding astray_def by (rule psubset_card_mono) (use U assms in auto)

lemma moveRest_free:
  assumes "w \<in> U" "freeDesks E w" "D w \<noteq> onX11 E ds"
  shows "moveRest E U ds (D(w := onX11 E ds)) < moveRest E U ds D"
proof (cases "ds = [] \<or> D w \<noteq> []")
  case True
  then show ?thesis
    using astray_free [where w = w and D = D and ds = ds] assms stickies_same [of D w "onX11 E ds"] by (auto simp: moveRest_def)
next
  case False
  then have "stickies E U (D(w := onX11 E ds)) * width U + astray E U ds (D(w := onX11 E ds)) < stickies E U D * width U + astray E U ds D"
    using astray_le [of ds "D(w := onX11 E ds)"]
    by (intro digits_less stickies_free assms) (simp_all add: width_def)
  with False show ?thesis
    by (simp add: moveRest_def)
qed

lemma settled_refl: "settled E U e R D D"
  by (simp add: settled_def)

lemma settled_trans: "settled E U e R D D' \<Longrightarrow> settled E U e R D' D'' \<Longrightarrow> settled E U e R D D''"
  using stays_trans by (auto simp: settled_def)

lemma stepSettled_misplaced: "stepSettled E U step D D' \<Longrightarrow> misplaced E U D' \<le> misplaced E U D"
  by (auto simp: stepSettled_def settled_def split: desk_step.splits)

lemma settled_follow:
  assumes "settled E U (ds = []) (moveRest E U ds) D D'"
  shows "settled E U (ds = []) (followRest E U (ds = [])) D D'"
proof (cases "ds = [] \<or> misplaced E U D' < misplaced E U D")
  case True
  with assms show ?thesis
    by (auto simp: settled_def moveRest_def followRest_def)
next
  case False
  with assms have "stickies E U D' * width U + astray E U ds D' \<le> stickies E U D * width U + astray E U ds D"
    by (auto simp: settled_def moveRest_def)
  then have "stickies E U D' \<le> stickies E U D"
    by (rule digits_le) (use astray_le [of ds D] in \<open>simp add: width_def\<close>)
  with False assms show ?thesis
    by (auto simp: settled_def followRest_def)
qed

lemma moveRest_onX11 [simp]: "moveRest E U (onX11 E ds) D = moveRest E U ds D"
  by (simp add: moveRest_def astray_def)

lemma progress_settled: "progress E U w arg D D' \<Longrightarrow> stepSettled E U (MoveTo w arg) D D'"
  by (auto simp: progress_def stepSettled_def settled_def)

lemma progress_assign:
  assumes "rulesDecide E" "w \<in> U" "allowedDesktops E w arg \<noteq> D w"
  shows "progress E U w arg D (D(w := allowedDesktops E w arg))"
proof (cases "freeDesks E w")
  case True
  then have ds: "allowedDesktops E w arg = onX11 E arg"
    by (simp add: allowedDesktops_eq freeDesks_def)
  with True assms(2,3) moveRest_free [of w D arg] misplaced_free [of w D] show ?thesis
    by (simp add: progress_def stays_assign)
next
  case False
  with assms(1) have "allowedDesktops E w arg = deRule E w []"
    unfolding allowedDesktops_eq rulesDecide_def by metis
  with misplaced_forced [of w D] False assms(2,3) show ?thesis
    by (auto simp: progress_def)
qed

lemma progress_step:
  assumes "progress E U w arg D D'" "stepSettled E U (MoveAll ws (allowedDesktops E w arg)) D' D''"
  shows "progress E U w arg D D''"
proof (cases "misplaced E U D' < misplaced E U D")
  case True
  with stepSettled_misplaced [OF assms(2)] show ?thesis
    by (simp add: progress_def)
next
  case False
  with assms(1) have "freeDesks E w"
    by (simp add: progress_def)
  then have "allowedDesktops E w arg = onX11 E arg"
    by (simp add: allowedDesktops_eq freeDesks_def)
  with assms False show ?thesis
    using stays_trans by (auto simp: progress_def stepSettled_def settled_def)
qed

lemma progress_rank:
  assumes "progress E U w arg D D'"
  shows "rank E U (MoveAll ws (allowedDesktops E w arg)) D' < rank E U (MoveTo w arg) D"
proof (cases "misplaced E U D' < misplaced E U D")
  case True
  then show ?thesis
    by (rule rank_misplaced)
next
  case False
  with assms have "freeDesks E w"
    by (simp add: progress_def)
  then have "allowedDesktops E w arg = onX11 E arg"
    by (simp add: allowedDesktops_eq freeDesks_def)
  with assms False show ?thesis
    by (auto simp: progress_def rank_def stepRest_def)
qed

lemma follow_rank:
  assumes "rulesDecide E" "w \<in> U" "allowedDesktops E w arg \<noteq> D w" "(D w = []) \<noteq> (allowedDesktops E w arg = [])"
  shows "rank E U (FollowSticky w ts) (D(w := allowedDesktops E w arg)) < rank E U (MoveTo w arg) D"
    and "stepSettled E U (FollowSticky w ts) (D(w := allowedDesktops E w arg)) D' \<Longrightarrow> progress E U w arg D D'"
proof -
  let ?D = "D(w := allowedDesktops E w arg)"
  have p: "progress E U w arg D ?D"
    by (rule progress_assign) (use assms in auto)
  show "rank E U (FollowSticky w ts) ?D < rank E U (MoveTo w arg) D"
  proof (cases "misplaced E U ?D < misplaced E U D")
    case True
    then show ?thesis
      by (rule rank_misplaced)
  next
    case False
    with p have free: "freeDesks E w" "misplaced E U ?D = misplaced E U D" "moveRest E U arg ?D < moveRest E U arg D"
      by (auto simp: progress_def)
    then have ds: "allowedDesktops E w arg = onX11 E arg"
      by (simp add: allowedDesktops_eq freeDesks_def)
    have "followRest E U (onX11 E arg = []) ?D < moveRest E U arg D"
    proof (cases "arg = []")
      case True
      with free(3) show ?thesis
        by (simp add: followRest_def moveRest_def)
    next
      case False
      have "stickies E U ?D * width U + (card U + 1) < stickies E U D * width U + astray E U arg D"
        by (rule digits_less) (use stickies_free [of w D "onX11 E arg"] free(1) assms(2,4) False ds in \<open>auto simp: width_def\<close>)
      with False show ?thesis
        by (simp add: followRest_def moveRest_def)
    qed
    with free(2) ds show ?thesis
      by (simp add: rank_def stepRest_def)
  qed
  show "progress E U w arg D D'" if post: "stepSettled E U (FollowSticky w ts) ?D D'"
  proof (cases "misplaced E U ?D < misplaced E U D")
    case True
    with stepSettled_misplaced [OF post] show ?thesis
      by (simp add: progress_def)
  next
    case False
    with p have free: "freeDesks E w" "misplaced E U ?D = misplaced E U D" "moveRest E U arg ?D < moveRest E U arg D"
      by (auto simp: progress_def)
    then have ds: "allowedDesktops E w arg = onX11 E arg"
      by (simp add: allowedDesktops_eq freeDesks_def)
    show ?thesis
    proof (cases "misplaced E U D' < misplaced E U ?D")
      case True
      with free(2) show ?thesis
        by (simp add: progress_def)
    next
      case same: False
      with post ds have post': "misplaced E U D' = misplaced E U ?D" "followRest E U (arg = []) D' \<le> followRest E U (arg = []) ?D"
        "stays (arg = []) ?D D'"
        by (auto simp: stepSettled_def settled_def)
      have "moveRest E U arg D' < moveRest E U arg D"
      proof (cases "arg = []")
        case True
        with post'(2) free(3) show ?thesis
          by (simp add: followRest_def moveRest_def)
      next
        case False
        have "stickies E U D' * width U + (card U + 1) \<le> stickies E U ?D * width U + (card U + 1)"
          using post'(2) False by (simp add: followRest_def)
        then have "stickies E U D' \<le> stickies E U ?D"
          by (rule digits_le) (simp add: width_def)
        moreover have "stickies E U ?D < stickies E U D"
          by (rule stickies_free) (use free(1) assms(2,4) False ds in auto)
        ultimately have "stickies E U D' * width U + astray E U arg D' < stickies E U D * width U + astray E U arg D"
          by (intro digits_less) (use astray_le [of arg D'] in \<open>auto simp: width_def\<close>)
        with False show ?thesis
          by (simp add: moveRest_def)
      qed
      moreover have "stays (arg = []) D D'"
        by (rule stays_trans [OF stays_assign post'(3)]) (simp add: ds)
      ultimately show ?thesis
        using post'(1) free(1,2) by (simp add: progress_def)
    qed
  qed
qed

end

section \<open>The recursion ends\<close>

definition stepWithin :: "wid set \<Rightarrow> desk_step \<Rightarrow> bool" where
  "stepWithin U step = (case step of MoveTo w ds \<Rightarrow> w \<in> U | MoveAll ws ds \<Rightarrow> set ws \<subseteq> U
     | FollowSticky w ts \<Rightarrow> w \<in> U \<and> set ts \<subseteq> U)"

text \<open>Transients and main windows are clients.\<close>

definition closedWindows :: "desk_env \<Rightarrow> bool" where
  "closedWindows E = (\<forall>w. set (deTransients E w) \<subseteq> set (deClients E) \<and> set (deMainWindows E w) \<subseteq> set (deClients E))"

lemma inStackingOrder_set [simp]: "set (inStackingOrder E ws) = set ws"
proof -
  have "set (fold (\<lambda>w res. if w \<in> set res then removeAll w res @ [w] else res) order xs) = set xs" for order and xs :: "wid list"
    by (induction order arbitrary: xs) auto
  then show ?thesis
    by (simp add: inStackingOrder_def)
qed

interpretation clients: finite_windows E "set (deClients E)" for E
  by unfold_locales simp

abbreviation "deskRank E \<equiv> rank E (set (deClients E))"
abbreviation "deskSettled E \<equiv> stepSettled E (set (deClients E))"

definition returnsSettled :: "desk_env \<Rightarrow> desk_step \<Rightarrow> desk_state \<Rightarrow> bool" where
  "returnsSettled E step s = (\<exists>t. moving E step s = Some t \<and> deskSettled E step (desksOf s) (desksOf t))"

lemma moveTo_returns:
  assumes ok: "rulesDecide E" "closedWindows E" "w \<in> set (deClients E)"
    and IH: "\<And>step u. deskRank E step (desksOf u) < deskRank E (MoveTo w arg) (desksOf s)
      \<Longrightarrow> stepWithin (set (deClients E)) step \<Longrightarrow> currentDesktop (dsEnv u) = currentDesktop (dsEnv s) \<Longrightarrow> returnsSettled E step u"
  shows "returnsSettled E (MoveTo w arg) s"
proof (cases "allowedDesktops E w arg = desksOf s w")
  case True
  then have "moving E (MoveTo w arg) s = Some s"
    by (subst moving.simps) simp
  then show ?thesis
    by (simp add: returnsSettled_def stepSettled_def clients.settled_refl)
next
  case False
  let ?U = "set (deClients E)" and ?ds = "allowedDesktops E w arg" and ?s = "assignDesktops w (allowedDesktops E w arg) s"
  have member: "set (deTransients E w) \<subseteq> ?U" "set (deMainWindows E w) \<subseteq> ?U"
    using ok(2) by (simp_all add: closedWindows_def)
  let ?sticky = "isOnAllDesktops (deskWindow s w) \<noteq> (?ds = [])"
  have sticky: "(desksOf s w = []) \<noteq> (?ds = []) \<longleftrightarrow> ?sticky"
    by (simp add: isOnAllDesktops_def)
  obtain s1 where s1: "(if ?sticky then moving E (FollowSticky w (deTransients E w)) ?s else Some ?s) = Some s1"
    "progress E ?U w arg (desksOf s) (desksOf s1)" "currentDesktop (dsEnv s1) = currentDesktop (dsEnv s)"
  proof (cases ?sticky)
    case True
    have "returnsSettled E (FollowSticky w (deTransients E w)) ?s"
      using clients.follow_rank(1) [where D = "desksOf s" and w = w, OF ok(1,3) False] True sticky member ok(3)
      by (intro IH) (simp_all add: stepWithin_def fun_upd_def if_distrib [of desktops] cong: if_cong)
    then obtain s1 where s1: "moving E (FollowSticky w (deTransients E w)) ?s = Some s1"
      "deskSettled E (FollowSticky w (deTransients E w)) (desksOf ?s) (desksOf s1)"
      by (auto simp: returnsSettled_def)
    have "progress E ?U w arg (desksOf s) (desksOf s1)"
      by (rule clients.follow_rank(2) [where D = "desksOf s" and w = w, OF ok(1,3) False]) (use True sticky s1(2) in
        \<open>simp_all add: fun_upd_def if_distrib [of desktops] cong: if_cong\<close>)
    with that [of s1] True s1(1) deskOnlyD(1) [OF moving_deskOnly [OF s1(1)]] show ?thesis
      by simp
  next
    case f: False
    with that [of ?s] clients.progress_assign [where D = "desksOf s" and w = w, OF ok(1,3) False] show ?thesis
      by (simp add: fun_upd_def if_distrib [of desktops] cong: if_cong)
  qed
  have "returnsSettled E (MoveAll (inStackingOrder E (deTransients E w)) ?ds) s1"
    using clients.progress_rank [OF s1(2)] s1(3) member by (intro IH) (simp_all add: stepWithin_def)
  then obtain s2 where s2: "moving E (MoveAll (inStackingOrder E (deTransients E w)) ?ds) s1 = Some s2"
    "progress E ?U w arg (desksOf s) (desksOf s2)"
    using clients.progress_step [OF s1(2)] by (auto simp: returnsSettled_def)
  have d2: "currentDesktop (dsEnv s2) = currentDesktop (dsEnv s)"
    using deskOnlyD(1) [OF moving_deskOnly [OF s2(1)]] s1(3) by simp
  obtain s3 where s3: "(if isModal (deskWindow s2 w) then moving E (MoveAll (deMainWindows E w) ?ds) s2 else Some s2) = Some s3"
    "progress E ?U w arg (desksOf s) (desksOf s3)"
  proof (cases "isModal (deskWindow s2 w)")
    case True
    have "returnsSettled E (MoveAll (deMainWindows E w) ?ds) s2"
      using clients.progress_rank [OF s2(2)] d2 member by (intro IH) (simp_all add: stepWithin_def)
    with that True clients.progress_step [OF s2(2)] show ?thesis
      by (auto simp: returnsSettled_def)
  qed (use that [of s2] s2 in simp)
  have "\<exists>was. moving E (MoveTo w arg) s = Some (desktopsSet w was s3)"
    using False s1(1) s2(1) s3(1) by (subst moving.simps) (auto simp: Let_def)
  with clients.progress_settled [OF s3(2)] show ?thesis
    by (auto simp: returnsSettled_def)
qed

lemma moveAll_returns:
  assumes IH: "\<And>w u. w \<in> set (deClients E) \<Longrightarrow> deskRank E (MoveTo w ds) (desksOf u) \<le> n
      \<Longrightarrow> currentDesktop (dsEnv u) = cur \<Longrightarrow> returnsSettled E (MoveTo w ds) u"
    and "set ws \<subseteq> set (deClients E)" "deskRank E (MoveAll ws ds) (desksOf s) \<le> n" "currentDesktop (dsEnv s) = cur"
  shows "returnsSettled E (MoveAll ws ds) s"
  using assms(2-)
proof (induction ws arbitrary: s)
  case Nil
  have "moving E (MoveAll [] ds) s = Some s"
    by (subst moving.simps) simp
  then show ?case
    by (simp add: returnsSettled_def stepSettled_def clients.settled_refl)
next
  case (Cons w ws)
  have "returnsSettled E (MoveTo w ds) s"
    by (rule IH) (use Cons.prems in \<open>auto simp: rank_def stepRest_def\<close>)
  then obtain s1 where s1: "moving E (MoveTo w ds) s = Some s1" "deskSettled E (MoveTo w ds) (desksOf s) (desksOf s1)"
    by (auto simp: returnsSettled_def)
  have "deskRank E (MoveAll ws ds) (desksOf s1) \<le> n"
    using s1(2) Cons.prems(2) clients.rank_misplaced [of E "desksOf s1" "desksOf s" "MoveAll ws ds" "MoveAll (w # ws) ds"]
    by (auto simp: stepSettled_def settled_def rank_def stepRest_def)
  with Cons.IH [of s1] Cons.prems deskOnlyD(1) [OF moving_deskOnly [OF s1(1)]]
  obtain s2 where s2: "moving E (MoveAll ws ds) s1 = Some s2" "deskSettled E (MoveAll ws ds) (desksOf s1) (desksOf s2)"
    by (auto simp: returnsSettled_def)
  have "moving E (MoveAll (w # ws) ds) s = Some s2"
    using s1 s2 by (subst moving.simps) simp
  with s1(2) s2(2) show ?case
    using clients.settled_trans by (auto simp: returnsSettled_def stepSettled_def)
qed

lemma followSticky_returns:
  assumes IH: "\<And>w ds u. w \<in> set (deClients E) \<Longrightarrow> deskRank E (MoveTo w ds) (desksOf u) \<le> n
      \<Longrightarrow> currentDesktop (dsEnv u) = Some cur \<Longrightarrow> returnsSettled E (MoveTo w ds) u"
    and "set ts \<subseteq> set (deClients E)" "deskRank E (FollowSticky w ts) (desksOf s) \<le> n" "currentDesktop (dsEnv s) = Some cur"
  shows "returnsSettled E (FollowSticky w ts) s"
  using assms(2-)
proof (induction ts arbitrary: s)
  case Nil
  have "moving E (FollowSticky w []) s = Some s"
    by (subst moving.simps) simp
  then show ?case
    by (simp add: returnsSettled_def stepSettled_def clients.settled_refl)
next
  case (Cons a ts)
  let ?U = "set (deClients E)" and ?e = "isOnAllDesktops (deskWindow s w)"
  let ?ds = "if ?e then [] else [cur]"
  have e: "(desksOf s w = []) = ?e"
    by (simp add: isOnAllDesktops_def)
  obtain s1 where s1: "(if isOnAllDesktops (deskWindow s a) = ?e then Some s
      else if ?e then moving E (MoveTo a []) s else do { d \<leftarrow> currentDesktop (dsEnv s); moving E (MoveTo a [d]) s }) = Some s1"
    "settled E ?U ?e (followRest E ?U ?e) (desksOf s) (desksOf s1)" "currentDesktop (dsEnv s1) = Some cur"
  proof (cases "isOnAllDesktops (deskWindow s a) = ?e")
    case True
    with that [of s] clients.settled_refl Cons.prems(3) show ?thesis
      by simp
  next
    case False
    have "moveRest E ?U ?ds (desksOf s) \<le> followRest E ?U ?e (desksOf s)"
      using clients.astray_le [of E "[cur]" "desksOf s"] by (simp add: moveRest_def followRest_def)
    with Cons.prems(2) e have "deskRank E (MoveTo a ?ds) (desksOf s) \<le> n"
      by (simp add: rank_def stepRest_def)
    with IH [of a ?ds s] Cons.prems obtain t where t: "moving E (MoveTo a ?ds) s = Some t"
      "deskSettled E (MoveTo a ?ds) (desksOf s) (desksOf t)"
      by (auto simp: returnsSettled_def)
    have "settled E ?U (?ds = []) (followRest E ?U (?ds = [])) (desksOf s) (desksOf t)"
      by (rule clients.settled_follow) (use t(2) in \<open>simp add: stepSettled_def\<close>)
    moreover have "(?ds = []) = ?e"
      by simp
    ultimately have "settled E ?U ?e (followRest E ?U ?e) (desksOf s) (desksOf t)"
      by (simp only:)
    with that [of t] t(1) False Cons.prems(3) deskOnlyD(1) [OF moving_deskOnly [OF t(1)]] show ?thesis
      by (auto split: if_splits)
  qed
  have same: "(desksOf s1 w = []) = ?e \<or> misplaced E ?U (desksOf s1) < misplaced E ?U (desksOf s)"
    using s1(2) e by (auto simp: settled_def stays_def)
  then have "deskRank E (FollowSticky w ts) (desksOf s1) \<le> n"
  proof
    assume "misplaced E ?U (desksOf s1) < misplaced E ?U (desksOf s)"
    then show ?thesis
      using Cons.prems(2) clients.rank_misplaced [of E "desksOf s1" "desksOf s" "FollowSticky w ts" "FollowSticky w (a # ts)"]
      by simp
  next
    assume "(desksOf s1 w = []) = ?e"
    then show ?thesis
      using Cons.prems(2) e s1(2) clients.rank_misplaced [of E "desksOf s1" "desksOf s" "FollowSticky w ts" "FollowSticky w (a # ts)"]
      by (auto simp: rank_def stepRest_def settled_def)
  qed
  with Cons.IH [of s1] Cons.prems s1(3) obtain s2 where s2: "moving E (FollowSticky w ts) s1 = Some s2"
    "deskSettled E (FollowSticky w ts) (desksOf s1) (desksOf s2)"
    by (auto simp: returnsSettled_def)
  have "moving E (FollowSticky w (a # ts)) s = Some s2"
    using s1(1) s2(1) by (subst moving.simps) (simp add: Let_def)
  moreover from same have "settled E ?U ?e (followRest E ?U ?e) (desksOf s) (desksOf s2)"
  proof
    assume "(desksOf s1 w = []) = ?e"
    with s2(2) s1(2) clients.settled_trans show ?thesis
      by (auto simp: stepSettled_def)
  next
    assume "misplaced E ?U (desksOf s1) < misplaced E ?U (desksOf s)"
    with clients.stepSettled_misplaced [OF s2(2)] show ?thesis
      by (simp add: settled_def)
  qed
  ultimately show ?case
    using e by (simp add: returnsSettled_def stepSettled_def)
qed

theorem moving_returns:
  assumes ok: "rulesDecide E" "closedWindows E"
    and "stepWithin (set (deClients E)) step" "currentDesktop (dsEnv s) = Some cur"
  shows "returnsSettled E step s"
  using assms(3-)
proof (induction "deskRank E step (desksOf s)" arbitrary: step s rule: less_induct)
  case less
  have move: "returnsSettled E (MoveTo w ds) u" if "w \<in> set (deClients E)"
    "deskRank E (MoveTo w ds) (desksOf u) \<le> deskRank E step (desksOf s)" "currentDesktop (dsEnv u) = Some cur" for w ds u
    by (rule moveTo_returns [OF ok that(1)]) (use less.hyps that(2,3) in auto)
  show ?case
  proof (cases step)
    case (MoveTo w ds)
    then show ?thesis
      using move [of w ds s] less.prems by (simp add: stepWithin_def)
  next
    case (MoveAll ws ds)
    show ?thesis
      unfolding MoveAll by (rule moveAll_returns [OF move]) (use less.prems MoveAll in \<open>auto simp: stepWithin_def\<close>)
  next
    case (FollowSticky w ts)
    show ?thesis
      unfolding FollowSticky by (rule followSticky_returns [OF move]) (use less.prems FollowSticky in \<open>auto simp: stepWithin_def\<close>)
  qed
qed

end
