(* ===== verification/Desk_Properties.thy ===== *)
theory Desk_Properties
  imports Window_Desktops_Returns
begin

text \<open>
  What holds of the operations on the desktops of windows: they return, the focus chains follow them, and a removed desktop is left by
  every window but one that is being moved.
\<close>

section \<open>What the operations do\<close>

text \<open>Only desktops change, all the new ones have a property, and no window's places in the focus chains get wrong.\<close>

definition deskMoves :: "(vd list \<Rightarrow> bool) \<Rightarrow> desk_state \<Rightarrow> desk_state \<Rightarrow> bool" where
  "deskMoves P s t \<longleftrightarrow> deskOnly s t \<and> (\<forall>x. desksOf t x = desksOf s x \<or> P (desksOf t x))
     \<and> (\<forall>x. exact.lawful s x \<longrightarrow> exact.lawful t x) \<and> (\<forall>x. sound.lawful s x \<longrightarrow> sound.lawful t x)"

lemma deskMoves_refl [simp]: "deskMoves P s s"
  by (simp add: deskMoves_def)

lemma deskMoves_trans: "deskMoves P s t \<Longrightarrow> deskMoves P t u \<Longrightarrow> deskMoves P s u"
  unfolding deskMoves_def using deskOnly_trans by metis

lemma deskMoves_calls [simp]: "deskMoves P s (deskCalls cs t) \<longleftrightarrow> deskMoves P s t" "deskMoves P (deskCalls cs s) t \<longleftrightarrow> deskMoves P s t"
  by (simp_all add: deskMoves_def deskOnly_def)

lemma deskMoves_current: "deskMoves P s t \<Longrightarrow> currentDesktop (dsEnv t) = currentDesktop (dsEnv s)"
  by (auto simp: deskMoves_def dest: deskOnlyD(1))

lemma deskMoves_prop: "deskMoves P s t \<Longrightarrow> P (desksOf s w) \<Longrightarrow> P (desksOf t w)"
  unfolding deskMoves_def by metis

text \<open>A property of lists of desktops that holds of all that can be assigned.\<close>

definition assignable :: "desk_env \<Rightarrow> vd \<Rightarrow> (vd list \<Rightarrow> bool) \<Rightarrow> bool" where
  "assignable E cur P \<longleftrightarrow> (\<forall>w l. P l \<longrightarrow> P (allowedDesktops E w l)) \<and> P [cur] \<and> P [] \<and> (\<forall>d \<in> set (deDesktops E). P [d])"

definition deskOk :: "desk_env \<Rightarrow> bool" where
  "deskOk E \<longleftrightarrow> rulesDecide E \<and> closedWindows E \<and> wf {(t, w). t \<in> set (deTransients E w)} \<and> deDesktops E \<noteq> []"

lemma setDesktops_moves:
  assumes "deskOk E" "assignable E cur P" "w \<in> set (deClients E)" "currentDesktop (dsEnv s) = Some cur" "P ds"
  obtains t where "setDesktops E w ds s = Some t" "deskMoves P s t" "P (desksOf t w)"
proof -
  have "returnsSettled E (MoveTo w ds) s"
    by (rule moving_returns) (use assms in \<open>auto simp: deskOk_def stepWithin_def\<close>)
  then obtain t where t: "setDesktops E w ds s = Some t"
    by (auto simp: returnsSettled_def)
  have "desksOf t x = desksOf s x \<or> P (desksOf t x)" "P (desksOf t w)" for x
    using moving_assigns [OF t, of P] assms by (auto simp: assignable_def)
  then have "deskMoves P s t"
    using moving_deskOnly [OF t] exact.moving_lawful [OF t] sound.moving_lawful [OF t] by (simp add: deskMoves_def)
  with t \<open>P (desksOf t w)\<close> that show thesis
    by blast
qed

lemma desktopNumbered_in: "desktopNumbered E n = Some d \<Longrightarrow> d \<in> set (deDesktops E)"
  by (auto simp: desktopNumbered_def split: if_splits)

lemma setDesktop_moves:
  assumes "deskOk E" "assignable E cur P" "w \<in> set (deClients E)" "currentDesktop (dsEnv s) = Some cur"
  obtains t where "setDesktop E w n s = Some t" "deskMoves P s t" "P (desksOf t w)"
proof (cases "n = -1")
  case True
  have "P []"
    using assms(2) unfolding assignable_def by blast
  then obtain t where "setDesktops E w [] s = Some t" "deskMoves P s t" "P (desksOf t w)"
    by (rule setDesktops_moves [OF assms])
  with that True show ?thesis
    by (simp add: setDesktop_def)
next
  case False
  have "0 < length (deDesktops E)"
    using assms(1) by (simp add: deskOk_def)
  then obtain d where d: "desktopNumbered E (max 1 (min (int (length (deDesktops E))) n)) = Some d"
    by (auto simp: desktopNumbered_def)
  then have "P [d]"
    using assms(2) desktopNumbered_in by (simp add: assignable_def)
  then obtain t where "setDesktops E w [d] s = Some t" "deskMoves P s t" "P (desksOf t w)"
    by (rule setDesktops_moves [OF assms])
  with that False d show ?thesis
    by (simp add: setDesktop_def)
qed

section \<open>Sending windows\<close>

definition sends :: "desk_env \<Rightarrow> vd \<Rightarrow> (vd list \<Rightarrow> bool) \<Rightarrow> wid list \<Rightarrow> bool" where
  "sends E cur P ws \<longleftrightarrow> (\<forall>n quiet s. currentDesktop (dsEnv s) = Some cur \<longrightarrow>
     (\<exists>t. sending E ws n quiet s = Some t \<and> deskMoves P s t))"

lemma sendsD:
  assumes "sends E cur P ws" "currentDesktop (dsEnv s) = Some cur"
  obtains t where "sending E ws n quiet s = Some t" "deskMoves P s t"
  using assms unfolding sends_def by blast

text \<open>One window, and then the rest of the list.\<close>

definition sendOne :: "desk_env \<Rightarrow> wid \<Rightarrow> int \<Rightarrow> bool \<Rightarrow> desk_state \<Rightarrow> desk_state option" where
  "sendOne E w n quiet s = (if isOnAllDesktops (deskWindow s w) \<or> deMoveResize E = Some w \<or> (n < 1 \<and> n \<noteq> -1)
     \<or> int (length (deDesktops E)) < n then Some s
   else (let was = isOnCurrentDesktop (dsEnv s) (deskWindow s w); old = windowDesktopNumber E (deskWindow s w) in do {
     s \<leftarrow> setDesktop E w n s;
     (if windowDesktopNumber E (deskWindow s w) \<noteq> n then Some s
      else (let c = deskWindow s w;
          s = deskCalls (if isOnCurrentDesktop (dsEnv s) c
              then (if wantsTabFocus c \<and> deReasonable E \<and> \<not> was \<and> \<not> quiet then [RequestFocusOf w] else [RestackUnderActive w])
              else [RaiseOnDesktop w]) s;
          s = deskCalls [CheckPosition w (desktopNumbered E old)] s
        in do {
          s \<leftarrow> sending E (inStackingOrder E (deTransients E w)) n quiet s;
          Some (deskCalls [UpdateClientArea] s) })) }))"

lemma sending_simps: "sending E [] n quiet s = Some s"
  "sending E (w # ws) n quiet s = do { s \<leftarrow> sendOne E w n quiet s; sending E ws n quiet s }"
  by (subst sending.simps, simp) (subst sending.simps, simp only: list.case sendOne_def)

lemma sendOne_moves:
  assumes ok: "deskOk E" "assignable E cur P" "w \<in> set (deClients E)" and cur: "currentDesktop (dsEnv s) = Some cur"
    and below: "sends E cur P (inStackingOrder E (deTransients E w))"
  obtains t where "sendOne E w n quiet s = Some t" "deskMoves P s t"
    "\<not> isOnAllDesktops (deskWindow s w) \<Longrightarrow> deMoveResize E \<noteq> Some w \<Longrightarrow> 1 \<le> n \<Longrightarrow> n \<le> int (length (deDesktops E)) \<Longrightarrow> P (desksOf t w)"
proof (cases "isOnAllDesktops (deskWindow s w) \<or> deMoveResize E = Some w \<or> (n < 1 \<and> n \<noteq> -1) \<or> int (length (deDesktops E)) < n")
  case True
  with that [of s] show ?thesis
    by (auto simp: sendOne_def)
next
  case False
  obtain u where u: "setDesktop E w n s = Some u" "deskMoves P s u" "P (desksOf u w)"
    by (rule setDesktop_moves [OF ok cur])
  show ?thesis
  proof (cases "windowDesktopNumber E (deskWindow u w) = n")
    case other: False
    with that [of u] False u show ?thesis
      by (auto simp: sendOne_def)
  next
    case True
    define v where "v = deskCalls [CheckPosition w (desktopNumbered E (windowDesktopNumber E (deskWindow s w)))]
      (deskCalls (if isOnCurrentDesktop (dsEnv u) (deskWindow u w)
        then (if wantsTabFocus (deskWindow u w) \<and> deReasonable E \<and> \<not> isOnCurrentDesktop (dsEnv s) (deskWindow s w) \<and> \<not> quiet
          then [RequestFocusOf w] else [RestackUnderActive w])
        else [RaiseOnDesktop w]) u)"
    have v: "deskMoves P s v" "desksOf v w = desksOf u w"
      using u(2) by (simp_all add: v_def)
    then have "currentDesktop (dsEnv v) = Some cur"
      using deskMoves_current cur by metis
    from sendsD [OF below this] obtain t where t: "sending E (inStackingOrder E (deTransients E w)) n quiet v = Some t" "deskMoves P v t"
      by metis
    have "sendOne E w n quiet s = Some (deskCalls [UpdateClientArea] t)"
      unfolding sendOne_def Let_def if_not_P [OF False] u(1) bind.bind_lunit using True
      by (simp add: v_def [symmetric] t(1) del: deskCalls_fields)
    moreover have "P (desksOf t w)"
      using deskMoves_prop [OF t(2)] u(3) v(2) by simp
    ultimately show ?thesis
      using that [of "deskCalls [UpdateClientArea] t"] deskMoves_trans [OF v(1) t(2)] by simp
  qed
qed

lemma sends_list:
  assumes ok: "deskOk E" "assignable E cur P"
  shows "set ws \<subseteq> set (deClients E) \<Longrightarrow> (\<And>w. w \<in> set ws \<Longrightarrow> sends E cur P (inStackingOrder E (deTransients E w))) \<Longrightarrow> sends E cur P ws"
proof (induction ws)
  case (Cons w ws)
  show ?case
    unfolding sends_def
  proof (intro allI impI)
    fix n quiet and s :: desk_state
    assume cur: "currentDesktop (dsEnv s) = Some cur"
    obtain u where u: "sendOne E w n quiet s = Some u" "deskMoves P s u"
      by (rule sendOne_moves [OF ok _ cur, of w]) (use Cons.prems in auto)
    have "sends E cur P ws"
      using Cons by auto
    moreover have "currentDesktop (dsEnv u) = Some cur"
      using u(2) cur deskMoves_current by metis
    ultimately obtain t where "sending E ws n quiet u = Some t" "deskMoves P u t"
      using sendsD by metis
    then show "\<exists>t. sending E (w # ws) n quiet s = Some t \<and> deskMoves P s t"
      using u deskMoves_trans by (auto simp: sending_simps)
  qed
qed (simp add: sends_def sending_simps)

lemma sends_transients:
  assumes ok: "deskOk E" "assignable E cur P"
  shows "sends E cur P (inStackingOrder E (deTransients E w))"
proof -
  have "wf {(t, w). t \<in> set (deTransients E w)}"
    using ok(1) by (simp add: deskOk_def)
  then show ?thesis
  proof (induction w rule: wf_induct_rule)
    case (less w)
    show ?case
      by (rule sends_list [OF ok]) (use less ok(1) in \<open>auto simp: deskOk_def closedWindows_def\<close>)
  qed
qed

lemma sends_all:
  assumes "deskOk E" "assignable E cur P" "set ws \<subseteq> set (deClients E)"
  shows "sends E cur P ws"
  by (rule sends_list [OF assms]) (rule sends_transients [OF assms(1,2)])

section \<open>Leaving a removed desktop\<close>

lemma leaveDesktop_moves:
  assumes ok: "deskOk E" "assignable E cur P" "w \<in> set (deClients E)" and cur: "currentDesktop (dsEnv s) = Some cur"
    and "d \<in> set (desksOf s w)" "P (remove1 d (desksOf s w))"
  obtains t where "leaveDesktop E w d s = Some t" "deskMoves P s t" "P (desksOf t w)"
proof -
  obtain t where "setDesktops E w (remove1 d (desksOf s w)) s = Some t" "deskMoves P s t" "P (desksOf t w)"
    by (rule setDesktops_moves [OF ok cur assms(6)])
  moreover have "desksOf s w \<noteq> []"
    using assms(5) by auto
  ultimately show thesis
    using that assms(5) by (simp add: leaveDesktop_def)
qed

text \<open>Every window of the list leaves the desktop, unless it is the one that is moved interactively.\<close>

lemma vacate_moves:
  assumes ok: "deskOk E" "assignable E cur (\<lambda>l. d \<notin> set l)" and d: "1 \<le> deNumber E d"
  shows "set ws \<subseteq> set (deClients E) \<Longrightarrow> currentDesktop (dsEnv s) = Some cur \<Longrightarrow> (\<And>w. distinct (desksOf s w) \<or> d \<notin> set (desksOf s w))
    \<Longrightarrow> \<exists>t. vacate E d ws s = Some t \<and> deskMoves (\<lambda>l. d \<notin> set l) s t
      \<and> (\<forall>w \<in> set ws. deMoveResize E \<noteq> Some w \<longrightarrow> d \<notin> set (desksOf t w))"
proof (induction ws arbitrary: s)
  case (Cons w ws)
  let ?P = "\<lambda>l. d \<notin> set l" and ?n = "min (deNumber E d) (int (length (deDesktops E)))"
  have w: "w \<in> set (deClients E)"
    using Cons.prems(1) by simp
  have "\<exists>u. (if d \<notin> set (desksOf s w) then Some s
       else if 1 < length (desksOf s w) then leaveDesktop E w d s
       else sendWindowToDesktop E w ?n True s) = Some u \<and> deskMoves ?P s u \<and> (deMoveResize E \<noteq> Some w \<longrightarrow> d \<notin> set (desksOf u w))"
  proof (cases "d \<in> set (desksOf s w)")
    case True
    show ?thesis
    proof (cases "1 < length (desksOf s w)")
      case long: True
      have "d \<notin> set (remove1 d (desksOf s w))"
        using Cons.prems(3) [of w] True by (simp add: set_remove1_eq)
      from leaveDesktop_moves [OF ok w Cons.prems(2) True this] show ?thesis
        using True long by (metis (no_types, lifting))
    next
      case False
      obtain u where u: "sendOne E w ?n True s = Some u" "deskMoves ?P s u"
        "\<not> isOnAllDesktops (deskWindow s w) \<Longrightarrow> deMoveResize E \<noteq> Some w \<Longrightarrow> 1 \<le> ?n \<Longrightarrow> ?n \<le> int (length (deDesktops E))
          \<Longrightarrow> d \<notin> set (desksOf u w)"
        using sendOne_moves [OF ok w Cons.prems(2) sends_transients [OF ok], of ?n True] by metis
      have "0 < length (deDesktops E)"
        using ok(1) by (simp add: deskOk_def)
      then have "1 \<le> ?n"
        using d by linarith
      moreover have "\<not> isOnAllDesktops (deskWindow s w)"
        using True by (auto simp: isOnAllDesktops_def)
      ultimately have "deMoveResize E \<noteq> Some w \<longrightarrow> d \<notin> set (desksOf u w)"
        using u(3) by simp
      then show ?thesis
        using True False u(1,2) by (simp add: sending_simps)
    qed
  qed simp
  then obtain u where u: "(if d \<notin> set (desksOf s w) then Some s
       else if 1 < length (desksOf s w) then leaveDesktop E w d s
       else sendWindowToDesktop E w ?n True s) = Some u" "deskMoves ?P s u" "deMoveResize E \<noteq> Some w \<longrightarrow> d \<notin> set (desksOf u w)"
    by blast
  have "distinct (desksOf u x) \<or> d \<notin> set (desksOf u x)" for x
    using u(2) Cons.prems(3) [of x] unfolding deskMoves_def by metis
  with Cons.IH [of u] Cons.prems u(2) deskMoves_current [OF u(2)] obtain t where t: "vacate E d ws u = Some t" "deskMoves ?P u t"
    "\<forall>w \<in> set ws. deMoveResize E \<noteq> Some w \<longrightarrow> d \<notin> set (desksOf t w)"
    by auto
  have "vacate E d (w # ws) s = Some t"
    unfolding vacate.simps u(1) by (simp add: t(1))
  moreover have "deMoveResize E \<noteq> Some w \<longrightarrow> d \<notin> set (desksOf t w)"
    using u(3) deskMoves_prop [OF t(2)] by blast
  ultimately show ?case
    using t(3) deskMoves_trans [OF u(2) t(2)] by auto
qed simp

section \<open>The operations together\<close>

datatype desk_op = SetDesktops wid "vd list" | SetOnAllDesktops wid bool | EnterDesktop wid vd | LeaveDesktop wid vd
  | SetDesktop wid int | SendToDesktop wid int bool | DesktopRemoved vd

definition runDesk :: "desk_env \<Rightarrow> desk_op \<Rightarrow> desk_state \<Rightarrow> desk_state option" where
  "runDesk E op s = (case op of SetDesktops w ds \<Rightarrow> setDesktops E w ds s | SetOnAllDesktops w b \<Rightarrow> setOnAllDesktops E w b s
     | EnterDesktop w d \<Rightarrow> enterDesktop E w d s | LeaveDesktop w d \<Rightarrow> leaveDesktop E w d s | SetDesktop w n \<Rightarrow> setDesktop E w n s
     | SendToDesktop w n b \<Rightarrow> sendWindowToDesktop E w n b s | DesktopRemoved d \<Rightarrow> slotDesktopRemoved E d s)"

definition deskOpWindows :: "desk_op \<Rightarrow> wid list" where
  "deskOpWindows op = (case op of SetDesktops w ds \<Rightarrow> [w] | SetOnAllDesktops w b \<Rightarrow> [w] | EnterDesktop w d \<Rightarrow> [w] | LeaveDesktop w d \<Rightarrow> [w]
     | SetDesktop w n \<Rightarrow> [w] | SendToDesktop w n b \<Rightarrow> [w] | DesktopRemoved d \<Rightarrow> [])"

lemma assignable_any: "assignable E cur (\<lambda>_. True)"
  by (simp add: assignable_def)

lemma vacate_any:
  assumes ok: "deskOk E"
  shows "set ws \<subseteq> set (deClients E) \<Longrightarrow> currentDesktop (dsEnv s) = Some cur \<Longrightarrow> \<exists>t. vacate E d ws s = Some t \<and> deskMoves (\<lambda>_. True) s t"
proof (induction ws arbitrary: s)
  case (Cons w ws)
  have w: "w \<in> set (deClients E)"
    using Cons.prems(1) by simp
  let ?n = "min (deNumber E d) (int (length (deDesktops E)))"
  obtain a where a: "sendOne E w ?n True s = Some a" "deskMoves (\<lambda>_. True) s a"
    by (rule sendOne_moves [OF ok assignable_any w Cons.prems(2) sends_transients [OF ok assignable_any]])
  obtain b where b: "d \<in> set (desksOf s w) \<Longrightarrow> leaveDesktop E w d s = Some b" "deskMoves (\<lambda>_. True) s b"
  proof (cases "d \<in> set (desksOf s w)")
    case True
    then show ?thesis
      by (rule leaveDesktop_moves [OF ok assignable_any w Cons.prems(2)]) (use that in auto)
  qed (use that [of s] in simp)
  obtain u where u: "(if d \<notin> set (desksOf s w) then Some s else if 1 < length (desksOf s w) then leaveDesktop E w d s
       else sendWindowToDesktop E w ?n True s) = Some u" "deskMoves (\<lambda>_. True) s u"
  proof (cases "d \<in> set (desksOf s w)")
    case True
    with that a b show ?thesis
      by (cases "1 < length (desksOf s w)") (simp_all add: sending_simps)
  qed (use that [of s] in simp)
  with Cons.IH [of u] Cons.prems deskMoves_current [OF u(2)] obtain t where t: "vacate E d ws u = Some t" "deskMoves (\<lambda>_. True) u t"
    by auto
  have "vacate E d (w # ws) s = Some t"
    unfolding vacate.simps u(1) by (simp add: t(1))
  with deskMoves_trans [OF u(2) t(2)] show ?case
    by blast
qed simp

lemma removeDesktop_law:
  "exact.lawful s x \<Longrightarrow> exact.lawful (s\<lparr>dsChain := removeDesktop d (dsChain s)\<rparr>) x"
  "sound.lawful s x \<Longrightarrow> sound.lawful (s\<lparr>dsChain := removeDesktop d (dsChain s)\<rparr>) x"
  by (auto simp: exact.lawful_def sound.lawful_def inItsChains_def inNoOtherChain_def removeDesktop_def Let_def)

definition follows :: "desk_state \<Rightarrow> desk_state option \<Rightarrow> bool" where
  "follows s m \<longleftrightarrow> (\<exists>t. m = Some t \<and> (\<forall>x. exact.lawful s x \<longrightarrow> exact.lawful t x) \<and> (\<forall>x. sound.lawful s x \<longrightarrow> sound.lawful t x))"

lemma followsI: "m = Some t \<Longrightarrow> deskMoves (\<lambda>_. True) s t \<Longrightarrow> follows s m"
  by (auto simp: follows_def deskMoves_def)

lemma follows_refl [simp]: "follows s (Some s)"
  by (rule followsI) auto

lemma runDesk_returns:
  assumes ok: "deskOk E" and ws: "set (deskOpWindows op) \<subseteq> set (deClients E)" and cur: "currentDesktop (dsEnv s) = Some cur"
  shows "follows s (runDesk E op s)"
proof -
  note ok2 = ok assignable_any
  have set: "follows s (setDesktops E w ds s)" if "w \<in> set (deClients E)" for w ds
    by (rule setDesktops_moves [OF ok2 that cur TrueI]) (rule followsI)
  have num: "follows s (setDesktop E w n s)" if "w \<in> set (deClients E)" for w n
    by (rule setDesktop_moves [OF ok2 that cur]) (rule followsI)
  show ?thesis
  proof (cases op)
    case (SendToDesktop w n b)
    have "sends E cur (\<lambda>_. True) [w]"
      by (rule sends_all [OF ok2]) (use ws SendToDesktop in \<open>simp add: deskOpWindows_def\<close>)
    then obtain t where "sendWindowToDesktop E w n b s = Some t" "deskMoves (\<lambda>_. True) s t"
      using cur sendsD by metis
    then show ?thesis
      using followsI by (simp add: runDesk_def SendToDesktop)
  next
    case (DesktopRemoved d)
    obtain t where t: "vacate E d (deClients E) s = Some t" "deskMoves (\<lambda>_. True) s t"
      using vacate_any [OF ok subset_refl cur] by blast
    then have "exact.lawful s x \<Longrightarrow> exact.lawful (deskCalls [UpdateClientArea, ReinitCascading] t) x"
      "sound.lawful s x \<Longrightarrow> sound.lawful (deskCalls [UpdateClientArea, ReinitCascading] t) x" for x
      by (simp_all add: deskMoves_def)
    from removeDesktop_law(1) [OF this(1)] removeDesktop_law(2) [OF this(2)] show ?thesis
      by (simp add: runDesk_def DesktopRemoved slotDesktopRemoved_def t(1) follows_def)
  qed (use set num ws cur in
      \<open>auto simp: runDesk_def deskOpWindows_def setOnAllDesktops_def enterDesktop_def leaveDesktop_def Let_def\<close>)
qed

section \<open>A small session\<close>

text \<open>Two desktops, a window and a modal dialog of it, both on the first desktop and in its chain.\<close>

definition demo_desks :: desk_env where
  "demo_desks = \<lparr>deTransients = (\<lambda>w. if w = 1 then [2] else []), deMainWindows = (\<lambda>w. if w = 2 then [1] else []),
     deStackingOrder = [1, 2], deRule = (\<lambda>w ds. ds), deX11Mode = False, deDesktops = [7, 8], deNumber = (\<lambda>d. if d = 8 then 2 else 1),
     deMoveResize = None, deClients = [1, 2], deReasonable = True\<rparr>"

definition demo_desk_state :: desk_state where
  "demo_desk_state = \<lparr>dsEnv = demo_env\<lparr>windowAt := \<lambda>w. demo_window\<lparr>desktops := [7], isModal := w = 2\<rparr>, currentDesktop := Some 7\<rparr>,
     dsChain = \<lparr>m_mostRecentlyUsed = [], m_desktopFocusChains = [(7, [1, 2]), (8, [])], m_separateScreenFocus = False,
       m_activeWindow = None, m_currentDesktop = Some 7\<rparr>, dsCalls = []\<rparr>"

lemma demo_desks_ok: "deskOk demo_desks" "rulesDecide demo_desks" "closedWindows demo_desks"
proof -
  have "{(t, w). t \<in> set (deTransients demo_desks w)} \<subseteq> measure (\<lambda>w. if w = 1 then 1 else 0)"
    by (auto simp: demo_desks_def split: if_splits)
  then have "wf {(t, w). t \<in> set (deTransients demo_desks w)}"
    using wf_subset wf_measure by blast
  then show "deskOk demo_desks" "rulesDecide demo_desks" "closedWindows demo_desks"
    by (auto simp: deskOk_def rulesDecide_def freeDesks_def closedWindows_def demo_desks_def)
qed

lemma demo_desk_state_simps [simp]:
  "currentDesktop (dsEnv demo_desk_state) = Some 7" "desksOf demo_desk_state w = [7]"
  "m_desktopFocusChains (dsChain demo_desk_state) = [(7, [1, 2]), (8, [])]" "isOnDesktop (deskWindow demo_desk_state w) (Some 7)"
  by (simp_all add: demo_desk_state_def isOnDesktop_def)

section \<open>The properties\<close>

text \<open>The lists of desktops that a call of \<open>setDesktops\<close> can give to any window: the list asked for as X11 allows it, the current
  desktop, all desktops, or what the rules of some window say.\<close>

definition deskTargets :: "desk_env \<Rightarrow> vd \<Rightarrow> vd list \<Rightarrow> vd list set" where
  "deskTargets E cur ds = {onX11 E ds, [cur], []} \<union> (\<Union>y. {deRule E y [], onX11 E (deRule E y [])})"

lemma deskTargets_closed:
  assumes "rulesDecide E" "l \<in> deskTargets E cur ds"
  shows "allowedDesktops E w l \<in> deskTargets E cur ds"
proof (cases "freeDesks E w")
  case True
  then have "allowedDesktops E w l = onX11 E l"
    by (simp add: allowedDesktops_eq freeDesks_def)
  with assms(2) show ?thesis
    by (auto simp: deskTargets_def)
next
  case False
  with assms(1) have "allowedDesktops E w l = deRule E w []"
    unfolding allowedDesktops_eq rulesDecide_def by metis
  then show ?thesis
    by (auto simp: deskTargets_def)
qed



text \<open>C5: The focus chains follow the desktops of the windows. Every operation on the desktops of windows, also the removal of a
  desktop, returns; afterwards no window is in the focus chain of a desktop it is not on, if none was before, and a window whose
  desktops' chains all held it, and no others, is still in exactly the chains of the desktops it is on now.\<close>

theorem desk_chains_follow:
  assumes "deskOk E" "set (deskOpWindows op) \<subseteq> set (deClients E)" "currentDesktop (dsEnv s) = Some cur"
    and "\<forall>w. inNoOtherChain (deskWindow s w) (m_desktopFocusChains (dsChain s)) w"
  shows "\<exists>t. runDesk E op s = Some t \<and> (\<forall>w. inNoOtherChain (deskWindow t w) (m_desktopFocusChains (dsChain t)) w)
    \<and> (\<forall>w. inItsChains (deskWindow s w) (m_desktopFocusChains (dsChain s)) w \<longrightarrow> inItsChains (deskWindow t w) (m_desktopFocusChains (dsChain t)) w)"
  using runDesk_returns [OF assms(1-3)] assms(4) by (auto simp: follows_def exact.lawful_def sound.lawful_def)

theorem desk_chains_follow_witness:
  "\<exists>t. runDesk demo_desks (SendToDesktop 1 2 True) demo_desk_state = Some t
    \<and> (\<forall>w. inNoOtherChain (deskWindow t w) (m_desktopFocusChains (dsChain t)) w)"
  using desk_chains_follow [OF demo_desks_ok(1), of "SendToDesktop 1 2 True" demo_desk_state 7]
  by (auto simp: deskOpWindows_def demo_desks_def inNoOtherChain_def)

text \<open>C14: When a desktop has been removed, \<open>slotDesktopRemoved\<close> returns and no client is on it any more, except for a window that is
  being moved interactively: a window with other desktops leaves it, one with no other is sent to the desktop that has its number now,
  or to the last one, and the transients and main windows that come along get no desktop that was removed.\<close>

theorem desk_removed_vacates:
  assumes "deskOk E" "currentDesktop (dsEnv s) = Some cur" "d \<noteq> cur" "d \<notin> set (deDesktops E)" "1 \<le> deNumber E d"
    and "\<forall>w ds. d \<notin> set ds \<longrightarrow> d \<notin> set (deRule E w ds)" "\<forall>w. distinct (desktops (deskWindow s w))"
  shows "\<exists>t. slotDesktopRemoved E d s = Some t
    \<and> (\<forall>w \<in> set (deClients E). deMoveResize E \<noteq> Some w \<longrightarrow> d \<notin> set (desktops (deskWindow t w)))
    \<and> (\<forall>ch. (d, ch) \<notin> set (m_desktopFocusChains (dsChain t)))"
proof -
  have "d \<notin> set (onX11 E l)" if "d \<notin> set l" for l
    using that last_in_set [of l] by (cases l) (auto simp: onX11_def)
  then have "assignable E cur (\<lambda>l. d \<notin> set l)"
    using assms(3,4,6) by (auto simp: assignable_def allowedDesktops_eq)
  then obtain t where "vacate E d (deClients E) s = Some t"
    "\<forall>w \<in> set (deClients E). deMoveResize E \<noteq> Some w \<longrightarrow> d \<notin> set (desksOf t w)"
    using vacate_moves [OF assms(1) _ assms(5), of cur "deClients E" s] assms(2,7) by blast
  then show ?thesis
    by (auto simp: slotDesktopRemoved_def removeDesktop_def Let_def)
qed

theorem desk_removed_vacates_witness:
  "\<exists>t. slotDesktopRemoved demo_desks 9 (demo_desk_state\<lparr>dsEnv := (dsEnv demo_desk_state)\<lparr>windowAt := \<lambda>w. demo_window\<lparr>desktops := [9]\<rparr>\<rparr>\<rparr>) = Some t
    \<and> 9 \<notin> set (desktops (deskWindow t 1)) \<and> 9 \<notin> set (desktops (deskWindow t 2))"
  using desk_removed_vacates [OF demo_desks_ok(1),
      of "demo_desk_state\<lparr>dsEnv := (dsEnv demo_desk_state)\<lparr>windowAt := \<lambda>w. demo_window\<lparr>desktops := [9]\<rparr>\<rparr>\<rparr>" 7 9]
  by (auto simp: demo_desks_def)

text \<open>A window that is being moved interactively and is on the removed desktop only stays on it, because
  \<open>sendWindowToDesktop\<close> does nothing for such a window: it refers to a desktop that is about to be deleted. This happens when the
  current desktop is removed and another one takes its number, so that \<open>currentChanged\<close>, which would take the window along, is not
  emitted.\<close>

theorem desk_moving_left_behind:
  assumes "deMoveResize E = Some m" "deClients E = [m]" "desktops (deskWindow s m) = [d]"
  shows "\<exists>t. slotDesktopRemoved E d s = Some t \<and> desktops (deskWindow t m) = [d]"
  using assms by (simp add: slotDesktopRemoved_def sending_simps sendOne_def)

theorem desk_moving_left_behind_witness:
  "\<exists>t. slotDesktopRemoved (demo_desks\<lparr>deMoveResize := Some 1, deClients := [1], deDesktops := [8]\<rparr>) 7 demo_desk_state = Some t
    \<and> desktops (deskWindow t 1) = [7]"
  using desk_moving_left_behind [of "demo_desks\<lparr>deMoveResize := Some 1, deClients := [1], deDesktops := [8]\<rparr>" 1 demo_desk_state 7]
  by simp

end
