(* ===== verification/Activation.thy ===== *)
theory Activation
  imports Window_Desktops
begin

text \<open>
  Activating windows (\<open>src/src/activation.cpp\<close>, with \<open>setActive\<close> and \<open>demandAttention\<close> of \<open>window.cpp\<close>, \<open>takeFocus\<close> of the
  kinds of windows, and parts of \<open>workspace.cpp\<close>). \<open>Workspace::setActiveWindow\<close> and \<open>Window::setActive\<close> call each other, and so do
  \<open>activateWindow\<close> and \<open>takeActivity\<close>; both pairs are one function each on the kind of call, with \<open>None\<close> for a failed assertion or a
  recursion without end. The attributes of windows that activation changes are in the environment of the state.
\<close>

datatype focus_kind = X11Focus | XdgFocus | NeverFocus

datatype desktop_policy = SwitchToOtherDesktop | BringToCurrentDesktop

datatype act_call = EndMoveResize wid | CloseActivePopup | CloseUserMenu | UpdateFocusMousePosition | UpdateLayers
  | UpdateToolWindows | DisableGlobalShortcuts "wid option" | RestackAll | SetNetActive "wid option" | WindowActivated "wid option"
  | OpacityRule wid | CancelAutoRaise wid | SetShadeNormal wid | UpdateLayer wid | DoSetActive wid | ActiveChanged wid
  | UpdateMouseGrab | AttentionChanged wid bool | RaiseWindow wid | NullFocus | SetCurrentDesktop vd | DeskCall desk_call
  | Unminimized wid | ShowClient wid | UpdateUserTime wid | CancelDelayFocus | SetInputFocus wid | SendTakeFocus wid | SendPing wid
  | SetCurrentActivity string | MinimizeWindow wid | EndShowingDesktop | ClearPreview | CancelFocusOutTimers

text \<open>What activation reads elsewhere, beside the windows' relations that the desktops of windows depend on.\<close>

record act_env = desk_env +
  aeKind :: "wid \<Rightarrow> focus_kind"
  aeZombie :: "wid \<Rightarrow> bool"
  aeAcceptsInput :: "wid \<Rightarrow> bool"
  aeTakeFocusProtocol :: "wid \<Rightarrow> bool"
  aeFocusFails :: "wid \<Rightarrow> bool"
  aeDockWantsInput :: "wid \<Rightarrow> bool"
  aeSkipTaskbar :: "wid \<Rightarrow> bool"
  aeNewSinceDesktop :: "wid \<Rightarrow> bool"
  aeGroupMembers :: "wid \<Rightarrow> wid list"
  aeShadeActivated :: "wid \<Rightarrow> bool"
  aeMinimizeForced :: "wid \<Rightarrow> bool"
  aeOutputCount :: nat
  aeNextPrefersMouse :: bool
  aeDesktopPolicy :: desktop_policy
  aeMouse :: qpointf
  aeMenuWindow :: "wid option"
  aeNullWindow :: bool
  aeRootInfo :: bool

record activation =
  acEnv :: env
  acActive :: "wid option"
  acLastActive :: "wid option"
  acFlag :: "wid \<Rightarrow> bool"
  acDemands :: "wid \<Rightarrow> bool"
  acShouldGetFocus :: "wid list"
  acAttention :: "wid list"
  acChain :: focus_chain
  acBlockFocus :: int
  acRecursion :: int
  acPopup :: "wid option option"
  acCalls :: "act_call list"

definition actCalls :: "act_call list \<Rightarrow> activation \<Rightarrow> activation" where
  "actCalls cs s = s\<lparr>acCalls := acCalls s @ cs\<rparr>"

abbreviation actWindow :: "activation \<Rightarrow> wid \<Rightarrow> window" where "actWindow s w \<equiv> windowAt (acEnv s) w"

definition focusChangeEnabled :: "activation \<Rightarrow> bool" where
  "focusChangeEnabled s \<longleftrightarrow> acBlockFocus s = 0"

section \<open>Attention\<close>

definition windowAttentionChanged :: "wid \<Rightarrow> bool \<Rightarrow> activation \<Rightarrow> activation" where
  "windowAttentionChanged w on s = actCalls [AttentionChanged w on]
     (s\<lparr>acAttention := (if on then w # removeAll w (acAttention s) else removeAll w (acAttention s))\<rparr>)"

definition demandAttention :: "wid \<Rightarrow> bool \<Rightarrow> activation \<Rightarrow> activation" where
  "demandAttention w on s = (let on = (on \<and> \<not> acFlag s w) in
     if acDemands s w = on then s else windowAttentionChanged w on (s\<lparr>acDemands := (acDemands s)(w := on)\<rparr>))"

section \<open>The active window\<close>

definition closeActivePopup :: "activation \<Rightarrow> activation" where
  "closeActivePopup s = actCalls ((if acPopup s \<noteq> None then [CloseActivePopup] else []) @ [CloseUserMenu]) (s\<lparr>acPopup := None\<rparr>)"

text \<open>\<open>setActiveWindow\<close> before the old window is deactivated, and after \<open>m_activeWindow\<close> is set.\<close>

definition leaveActive :: "act_env \<Rightarrow> wid option \<Rightarrow> activation \<Rightarrow> activation" where
  "leaveActive E w s =
     (let s = (case deMoveResize E of None \<Rightarrow> s | Some m \<Rightarrow> if Some m \<noteq> w then actCalls [EndMoveResize m] s else s);
          s = (case acPopup s of None \<Rightarrow> s | Some p \<Rightarrow> if p \<noteq> w \<and> acRecursion s = 0 then closeActivePopup s else s);
          s = (case aeMenuWindow E of None \<Rightarrow> s | Some m \<Rightarrow> if Some m \<noteq> w \<and> acRecursion s = 0 then actCalls [CloseUserMenu] s else s)
      in actCalls [UpdateFocusMousePosition] (s\<lparr>acRecursion := acRecursion s + 1\<rparr>))"

text \<open>The focus chain hears of the new active window from the signal \<open>windowActivated\<close>, after the window was put first.\<close>

definition enterActive :: "act_env \<Rightarrow> wid option \<Rightarrow> activation \<Rightarrow> activation" where
  "enterActive E w s =
     (let s = (case w of None \<Rightarrow> s | Some a \<Rightarrow>
          (let s = s\<lparr>acLastActive := Some a, acChain := update (acEnv s) a MakeFirst (acChain s)\<rparr>; s = demandAttention a False s
           in if 1 < aeOutputCount E then actCalls [UpdateLayers] s else s));
          s = actCalls ([UpdateToolWindows, DisableGlobalShortcuts w, RestackAll]
            @ (if aeRootInfo E then [SetNetActive w] else []) @ [WindowActivated w])
            (s\<lparr>acChain := Focus_Chain.setActiveWindow w (acChain s)\<rparr>)
      in s\<lparr>acRecursion := acRecursion s - 1\<rparr>)"

text \<open>The rest of \<open>Window::setActive\<close>.\<close>

definition afterSetActive :: "act_env \<Rightarrow> wid \<Rightarrow> activation \<Rightarrow> activation" where
  "afterSetActive E w s = actCalls
     ((if \<not> acFlag s w then [CancelAutoRaise w] else [])
      @ (if \<not> acFlag s w \<and> aeShadeActivated E w then [SetShadeNormal w] else [])
      @ [UpdateLayer w] @ map UpdateLayer (filter (\<lambda>m. isFullScreen (actWindow s m)) (deMainWindows E w))
      @ [DoSetActive w, ActiveChanged w, UpdateMouseGrab]) s"

datatype active_call = SetActive wid bool | SetActiveWindow "wid option"

partial_function (option) activating :: "act_env \<Rightarrow> active_call \<Rightarrow> activation \<Rightarrow> activation option" where
  "activating E call s = (case call of
       SetActive w act \<Rightarrow> if aeZombie E w \<or> acFlag s w = act then Some s
         else do {
           s \<leftarrow> activating E (SetActiveWindow (if act then Some w else None)) (actCalls [OpacityRule w] (s\<lparr>acFlag := (acFlag s)(w := act)\<rparr>));
           Some (afterSetActive E w s) }
     | SetActiveWindow w \<Rightarrow> if acActive s = w then Some s
         else do {
           let s = leaveActive E w s;
           s \<leftarrow> (case acActive s of None \<Rightarrow> Some s | Some a \<Rightarrow> activating E (SetActive a False) s);
           let s = s\<lparr>acActive := w\<rparr>;
           assertThat (case w of None \<Rightarrow> True | Some a \<Rightarrow> acFlag s a);
           Some (enterActive E w s) })"

abbreviation setActive :: "act_env \<Rightarrow> wid \<Rightarrow> bool \<Rightarrow> activation \<Rightarrow> activation option" where
  "setActive E w act \<equiv> activating E (SetActive w act)"

abbreviation setActiveWindow :: "act_env \<Rightarrow> wid option \<Rightarrow> activation \<Rightarrow> activation option" where
  "setActiveWindow E w \<equiv> activating E (SetActiveWindow w)"

section \<open>The focus\<close>

definition mostRecentlyActivated :: "activation \<Rightarrow> wid option" where
  "mostRecentlyActivated s = (if acShouldGetFocus s \<noteq> [] then Some (last (acShouldGetFocus s)) else acActive s)"

definition setShouldGetFocus :: "wid \<Rightarrow> activation \<Rightarrow> activation" where
  "setShouldGetFocus w s = actCalls [RestackAll] (s\<lparr>acShouldGetFocus := acShouldGetFocus s @ [w]\<rparr>)"

text \<open>The windows that should have got the focus before this one will not get it any more.\<close>

definition gotFocusIn :: "wid \<Rightarrow> activation \<Rightarrow> activation" where
  "gotFocusIn w s = (if w \<in> set (acShouldGetFocus s)
     then s\<lparr>acShouldGetFocus := tl (dropWhile (\<lambda>v. v \<noteq> w) (acShouldGetFocus s))\<rparr> else s)"

definition focusToNull :: "act_env \<Rightarrow> activation \<Rightarrow> activation" where
  "focusToNull E s = (if aeNullWindow E then actCalls [NullFocus] (s\<lparr>acShouldGetFocus := []\<rparr>) else s)"

text \<open>The windows that are minimized when a window takes the focus while the desktop is shown.\<close>

definition x11Minimizes :: "act_env \<Rightarrow> activation \<Rightarrow> wid \<Rightarrow> wid list" where
  "x11Minimizes E s w = filter (\<lambda>c. let a = actWindow s c in
     \<not> (c = w \<or> isDock a \<or> isDesktop a \<or> aeSkipTaskbar E c \<or> (isUtility a \<and> keepAbove a))
     \<and> \<not> (aeKind E c = X11Focus \<and> aeNewSinceDesktop E c)
     \<and> transientFor (actWindow s w) \<noteq> Some c \<and> transientFor a \<noteq> Some w) (deClients E)"

definition xdgMinimizes :: "act_env \<Rightarrow> activation \<Rightarrow> wid \<Rightarrow> wid list" where
  "xdgMinimizes E s w = filter (\<lambda>c. let a = actWindow s c in
     \<not> (c = w \<or> isDock a \<or> isDesktop a \<or> aeSkipTaskbar E w)
     \<and> transientFor (actWindow s w) \<noteq> Some c \<and> transientFor a \<noteq> Some w) (deClients E)"

definition leaveShowingDesktop :: "wid list \<Rightarrow> activation \<Rightarrow> activation" where
  "leaveShowingDesktop ws s = (if showingDesktop (acEnv s)
     then actCalls (map MinimizeWindow ws @ [EndShowingDesktop]) (s\<lparr>acEnv := (acEnv s)\<lparr>showingDesktop := False\<rparr>\<rparr>) else s)"

definition x11TakeFocus :: "act_env \<Rightarrow> wid \<Rightarrow> activation \<Rightarrow> bool \<times> activation" where
  "x11TakeFocus E w s =
     (if aeAcceptsInput E w \<and> aeFocusFails E w then (False, actCalls [SetInputFocus w] s)
      else (let s = (if aeAcceptsInput E w then actCalls [SetInputFocus w] s else demandAttention w False s);
          s = (if aeTakeFocusProtocol E w then actCalls [SendTakeFocus w] s else s);
          s = setShouldGetFocus w s;
          s = (if list_ex (\<lambda>m. isDesktop (actWindow s m)) (aeGroupMembers E w) then s
               else actCalls [ClearPreview] (leaveShowingDesktop (x11Minimizes E s w) s))
        in (True, s)))"

definition xdgTakeFocus :: "act_env \<Rightarrow> wid \<Rightarrow> activation \<Rightarrow> (bool \<times> activation) option" where
  "xdgTakeFocus E w s = do {
     s \<leftarrow> (if wantsInput (actWindow s w) then setActive E w True (actCalls [SendPing w] s) else Some s);
     let s = (if \<not> isOnScreenDisplay (actWindow s w) \<and> \<not> belongsToDesktop (actWindow s w)
       then leaveShowingDesktop (xdgMinimizes E s w) s else s);
     Some (True, actCalls [ClearPreview] s) }"

definition takeFocus :: "act_env \<Rightarrow> wid \<Rightarrow> activation \<Rightarrow> (bool \<times> activation) option" where
  "takeFocus E w s = (case aeKind E w of
       X11Focus \<Rightarrow> Some (x11TakeFocus E w s) | XdgFocus \<Rightarrow> xdgTakeFocus E w s | NeverFocus \<Rightarrow> Some (False, s))"

text \<open>\<open>findModal(false)\<close>: a modal window below a window in the tree of transients. Internal windows do not look for one.\<close>

partial_function (option) firstModal :: "act_env \<Rightarrow> env \<Rightarrow> wid list \<Rightarrow> wid option option" where
  "firstModal E W ws = (case ws of [] \<Rightarrow> Some None
     | t # ts \<Rightarrow> do {
         r \<leftarrow> firstModal E W (deTransients E t);
         (case r of Some m \<Rightarrow> Some (Some m)
          | None \<Rightarrow> if isModal (windowAt W t) then Some (Some t) else firstModal E W ts) })"

definition findModal :: "act_env \<Rightarrow> activation \<Rightarrow> wid \<Rightarrow> wid option option" where
  "findModal E s w = (if aeKind E w \<noteq> NeverFocus then firstModal E (acEnv s) (deTransients E w) else Some None)"

section \<open>Activating a window\<close>

record activity_flags =
  afFocus :: bool
  afForce :: bool
  afRaise :: bool

definition justFocus :: "bool \<Rightarrow> activity_flags" where
  "justFocus force = \<lparr>afFocus = True, afForce = force, afRaise = False\<rparr>"

text \<open>The desktop window on top.\<close>

definition desktopWindow :: "act_env \<Rightarrow> activation \<Rightarrow> vd \<Rightarrow> wid option" where
  "desktopWindow E s d = findLast (\<lambda>v. let c = actWindow s v in
     isClient c \<and> isOnDesktop c (Some d) \<and> isDesktop c \<and> isShown c) (deStackingOrder E)"

definition icontains :: "qrect \<Rightarrow> qpointf \<Rightarrow> bool" where
  "icontains r p \<longleftrightarrow> of_int (irectX r) \<le> pointX p \<and> pointX p \<le> of_int (iright r) \<and> of_int (irectY r) \<le> pointY p \<and> pointY p \<le> of_int (ibottom r)"

text \<open>The topmost usable window under the mouse when the desktop \<open>d\<close> is shown; a desktop window counts as none.\<close>

definition mouseWindowOn :: "act_env \<Rightarrow> activation \<Rightarrow> vd \<Rightarrow> wid option" where
  "mouseWindowOn E s d =
     (case findLast (\<lambda>v. let c = actWindow s v in isClient c \<and> \<not> isShade c \<and> isShown c \<and> isOnDesktop c (Some d)
          \<and> isOnCurrentActivity (acEnv s) c \<and> isOnOutput (acEnv s) c (activeOutput (acEnv s))
          \<and> icontains (rtoRect (frameGeometry c)) (aeMouse E)) (deStackingOrder E) of
        None \<Rightarrow> None | Some v \<Rightarrow> if isDesktop (actWindow s v) then None else Some v)"

definition findWindowToActivateOnDesktop :: "act_env \<Rightarrow> activation \<Rightarrow> vd \<Rightarrow> wid option" where
  "findWindowToActivateOnDesktop E s d =
     (let chained = getForActivationOnActiveOutput (acEnv s) d (acChain s);
          moving = (case acActive s of None \<Rightarrow> False | Some a \<Rightarrow> deMoveResize E = Some a \<and> containsWindowOn a d (acChain s)
            \<and> isShown (actWindow s a) \<and> isOnCurrentDesktop (acEnv s) (actWindow s a))
      in if moving then acActive s
         else if aeNextPrefersMouse E then (case mouseWindowOn E s d of Some v \<Rightarrow> Some v | None \<Rightarrow> chained)
         else chained)"

definition windowForDesktop :: "act_env \<Rightarrow> activation \<Rightarrow> vd \<Rightarrow> wid option" where
  "windowForDesktop E s d =
     (case (if deReasonable E then findWindowToActivateOnDesktop E s d
        else (case acActive s of None \<Rightarrow> None
          | Some a \<Rightarrow> if isShown (actWindow s a) \<and> isOnCurrentDesktop (acEnv s) (actWindow s a) then Some a else None)) of
       Some w \<Rightarrow> Some w | None \<Rightarrow> desktopWindow E s d)"

text \<open>\<open>unminimize\<close>, which a rule can refuse, and \<open>showClient\<close>.\<close>

definition revealWindow :: "act_env \<Rightarrow> wid \<Rightarrow> activation \<Rightarrow> activation" where
  "revealWindow E w s =
     (let c = actWindow s w; stays = (isMinimized c \<and> aeMinimizeForced E w);
          shown = (case aeKind E w of X11Focus \<Rightarrow> \<not> stays | XdgFocus \<Rightarrow> \<not> aeZombie E w \<and> \<not> stays | NeverFocus \<Rightarrow> isShown c)
      in actCalls ((if isMinimized c \<and> \<not> stays then [Unminimized w] else []) @ [ShowClient w])
        (s\<lparr>acEnv := (acEnv s)\<lparr>windowAt := (windowAt (acEnv s))(w := c\<lparr>isMinimized := stays, isShown := shown\<rparr>)\<rparr>\<rparr>))"

text \<open>An operation on the desktops of windows.\<close>

definition onDesks :: "(desk_state \<Rightarrow> desk_state option) \<Rightarrow> activation \<Rightarrow> activation option" where
  "onDesks f s = do {
     t \<leftarrow> f \<lparr>dsEnv = acEnv s, dsChain = acChain s, dsCalls = []\<rparr>;
     Some (actCalls (map DeskCall (dsCalls t)) (s\<lparr>acEnv := dsEnv t, acChain := dsChain t\<rparr>)) }"

abbreviation deskEnv :: "act_env \<Rightarrow> desk_env" where "deskEnv \<equiv> desk_env.truncate"

text \<open>A modal window follows the desktops of the window it blocks.\<close>

definition followDesktops :: "act_env \<Rightarrow> wid \<Rightarrow> wid \<Rightarrow> activation \<Rightarrow> activation option" where
  "followDesktops E m w s = (let ds = desktops (actWindow s w) in if desktops (actWindow s m) = ds then Some s
     else onDesks (setDesktops (deskEnv E) m ds) s)"

definition setActiveOutput :: "outp \<Rightarrow> activation \<Rightarrow> activation" where
  "setActiveOutput p s = s\<lparr>acEnv := (acEnv s)\<lparr>activeOutput := p\<rparr>\<rparr>"

definition blockFocus :: "int \<Rightarrow> activation \<Rightarrow> activation" where
  "blockFocus n s = s\<lparr>acBlockFocus := acBlockFocus s + n\<rparr>"

text \<open>\<open>takeActivity\<close> from the point where the window and whether it is to get the focus are settled.\<close>

definition finishActivity :: "act_env \<Rightarrow> wid \<Rightarrow> bool \<Rightarrow> activity_flags \<Rightarrow> activation \<Rightarrow> (bool \<times> activation) option" where
  "finishActivity E w focus fl s = do {
     let c = actWindow s w;
     let focus = (focus \<and> ((focus \<and> afForce fl) \<or> \<not> (isDock c \<or> isSplash c) \<or> aeDockWantsInput E w));
     s \<leftarrow> (if isShade c \<and> wantsInput c \<and> focus then map_option (focusToNull E) (setActive E w True s) else Some s);
     let focus = (focus \<and> \<not> isShade c);
     (if \<not> isShown (actWindow s w) then Some (False, s)
      else do {
        (ret, s) \<leftarrow> (if focus then takeFocus E w s else Some (True, s));
        let s = (if afRaise fl then actCalls [RaiseWindow w] s else s);
        let s = (if isOnOutput (acEnv s) (actWindow s w) (activeOutput (acEnv s)) then s else setActiveOutput (outputOf (actWindow s w)) s);
        Some (ret, s) }) }"

text \<open>What the workspace does when the current desktop has changed, before it looks for a window to activate.\<close>

definition desktopChanged :: "act_env \<Rightarrow> vd \<Rightarrow> activation \<Rightarrow> activation option" where
  "desktopChanged E d s = do {
     let s = closeActivePopup (actCalls [SetCurrentDesktop d]
       (s\<lparr>acEnv := (acEnv s)\<lparr>currentDesktop := Some d\<rparr>, acChain := Focus_Chain.setCurrentDesktop (Some d) (acChain s)\<rparr>));
     s \<leftarrow> (case deMoveResize E of None \<Rightarrow> Some s | Some m \<Rightarrow> if isOnDesktop (actWindow s m) (Some d) then Some s
       else onDesks (setDesktops (deskEnv E) m [d]) s);
     Some (actCalls [ClearPreview] (leaveShowingDesktop [] s)) }"

datatype focus_call = ActivateWindow "wid option" bool | TakeActivity "wid option" activity_flags | OnNewDesktop vd

partial_function (option) focusing :: "act_env \<Rightarrow> focus_call \<Rightarrow> activation \<Rightarrow> (bool \<times> activation) option" where
  "focusing E call s = (case call of
       ActivateWindow None force \<Rightarrow> do {
         s \<leftarrow> setActiveWindow E None (focusToNull E s);
         Some (True, s) }
     | ActivateWindow (Some w) force \<Rightarrow> do {
         let s = (case deMoveResize E of None \<Rightarrow> s | Some m \<Rightarrow> if m \<noteq> w then actCalls [EndMoveResize m] s else s);
         let s = actCalls [RaiseWindow w] s;
         s \<leftarrow> (if isOnCurrentDesktop (acEnv s) (actWindow s w) then Some s
           else (case aeDesktopPolicy E of
               SwitchToOtherDesktop \<Rightarrow> do {
                 let d = last (desktops (actWindow s w));
                 s \<leftarrow> desktopChanged E d (blockFocus 1 s);
                 (r, s) \<leftarrow> focusing E (OnNewDesktop d) s;
                 Some (blockFocus (-1) s) }
             | BringToCurrentDesktop \<Rightarrow> do {
                 d \<leftarrow> currentDesktop (acEnv s);
                 onDesks (enterDesktop (deskEnv E) w d) s }));
         let s = (if isOnCurrentActivity (acEnv s) (actWindow s w) then s else actCalls [SetCurrentActivity (hd (activities (actWindow s w)))] s);
         let s = revealWindow E w s;
         (r, s) \<leftarrow> (if deReasonable E \<or> force then focusing E (TakeActivity (Some w) (justFocus force)) s else Some (True, s));
         Some (True, if aeKind E w = X11Focus then actCalls [UpdateUserTime w] s else s) }
     | TakeActivity None fl \<Rightarrow> Some (True, focusToNull E s)
     | TakeActivity (Some w) fl \<Rightarrow> do {
         let focus = (afFocus fl \<and> (focusChangeEnabled s \<or> acActive s = Some w));
         (if \<not> focus then finishActivity E w False fl s
          else do {
            modal \<leftarrow> findModal E s w;
            (case modal of
                Some m \<Rightarrow> if m = w then finishActivity E w True fl (actCalls [CancelDelayFocus] s)
                  else do {
                    s \<leftarrow> followDesktops E m w s;
                    (r, s) \<leftarrow> (if \<not> isShown (actWindow s m) \<and> \<not> isMinimized (actWindow s m)
                      then focusing E (ActivateWindow (Some m) False) s else Some (True, s));
                    let s = (if afRaise fl then actCalls [RaiseWindow w] s else s);
                    finishActivity E m True fl (actCalls [CancelDelayFocus] s) }
              | None \<Rightarrow> finishActivity E w True fl (actCalls [CancelDelayFocus] s)) }) }
     | OnNewDesktop d \<Rightarrow> do {
         let w = windowForDesktop E s d;
         s \<leftarrow> (if w \<noteq> acActive s then setActiveWindow E None s else Some s);
         (case w of None \<Rightarrow> Some (True, focusToNull E s) | Some v \<Rightarrow> focusing E (TakeActivity (Some v) (justFocus False)) s) })"

abbreviation activateWindow :: "act_env \<Rightarrow> wid option \<Rightarrow> bool \<Rightarrow> activation \<Rightarrow> (bool \<times> activation) option" where
  "activateWindow E w force \<equiv> focusing E (ActivateWindow w force)"

abbreviation requestFocus :: "act_env \<Rightarrow> wid \<Rightarrow> bool \<Rightarrow> activation \<Rightarrow> (bool \<times> activation) option" where
  "requestFocus E w force \<equiv> focusing E (TakeActivity (Some w) (justFocus force))"

section \<open>Losing and getting the focus\<close>

text \<open>\<open>QRectF::contains\<close> of the mouse.\<close>

definition windowUnderMouse :: "act_env \<Rightarrow> activation \<Rightarrow> outp \<Rightarrow> wid option" where
  "windowUnderMouse E s p = findLast (\<lambda>v. let c = actWindow s v in isClient c \<and> isShown c \<and> isOnCurrentDesktop (acEnv s) c
     \<and> isOnCurrentActivity (acEnv s) c \<and> isOnOutput (acEnv s) c p \<and> \<not> isShade c
     \<and> rcontains (frameGeometry c) (aeMouse E)) (deStackingOrder E)"

text \<open>The next window to get the focus after \<open>w\<close>, and whether it is raised because it is the one main window of \<open>w\<close>.\<close>

definition nextCandidate :: "act_env \<Rightarrow> activation \<Rightarrow> wid option \<Rightarrow> vd \<Rightarrow> wid option \<times> bool" where
  "nextCandidate E s w d =
     (let fromDesktop = (if showingDesktop (acEnv s) then desktopWindow E s d else None);
          fromMouse = (if aeNextPrefersMouse E
            then (case windowUnderMouse E s (case w of Some v \<Rightarrow> outputOf (actWindow s v) | None \<Rightarrow> activeOutput (acEnv s)) of
                None \<Rightarrow> None | Some v \<Rightarrow> if w = Some v \<or> isDesktop (actWindow s v) then None else Some v)
            else None);
          leader = (case w of None \<Rightarrow> None | Some v \<Rightarrow>
            if isTransient (actWindow s v) then (case deMainWindows E v of [m] \<Rightarrow>
                if isUsableFocusCandidate (acEnv s) m (Some v) (acChain s) then Some m else None | _ \<Rightarrow> None)
            else None);
          chained = (case nextForDesktop (acEnv s) w d (acChain s) of Some v \<Rightarrow> Some v | None \<Rightarrow> desktopWindow E s d)
      in case fromDesktop of Some v \<Rightarrow> (Some v, False)
       | None \<Rightarrow> (case fromMouse of Some v \<Rightarrow> (Some v, False)
         | None \<Rightarrow> (case leader of Some v \<Rightarrow> (Some v, True) | None \<Rightarrow> (chained, False))))"

definition activateNextWindow :: "act_env \<Rightarrow> wid option \<Rightarrow> activation \<Rightarrow> (bool \<times> activation) option" where
  "activateNextWindow E w s =
     (if \<not> (w = acActive s \<or> (acShouldGetFocus s \<noteq> [] \<and> w = Some (last (acShouldGetFocus s)))) then Some (False, s)
      else do {
        let s = closeActivePopup s;
        s \<leftarrow> (case w of None \<Rightarrow> Some s | Some v \<Rightarrow> do {
          s \<leftarrow> (if Some v = acActive s then setActiveWindow E None s else Some s);
          Some (s\<lparr>acShouldGetFocus := removeAll v (acShouldGetFocus s)\<rparr>) });
        (if \<not> focusChangeEnabled s then Some (True, focusToNull E s)
         else if \<not> deReasonable E then Some (False, s)
         else do {
           d \<leftarrow> currentDesktop (acEnv s);
           (case nextCandidate E s w d of
               (None, _) \<Rightarrow> Some (True, focusToNull E s)
             | (Some v, raise) \<Rightarrow> do {
                 (r, s) \<leftarrow> requestFocus E v False (if raise then actCalls [RaiseWindow v] s else s);
                 Some (True, s) }) }) })"

definition windowHidden :: "act_env \<Rightarrow> wid \<Rightarrow> activation \<Rightarrow> (bool \<times> activation) option" where
  "windowHidden E w s = do {
     assertThat (\<not> isShown (actWindow s w) \<or> \<not> isOnCurrentDesktop (acEnv s) (actWindow s w) \<or> \<not> isOnCurrentActivity (acEnv s) (actWindow s w));
     activateNextWindow E (Some w) s }"

definition switchToOutput :: "act_env \<Rightarrow> outp \<Rightarrow> activation \<Rightarrow> (bool \<times> activation) option" where
  "switchToOutput E p s = (if \<not> deReasonable E then Some (False, s)
     else do {
       let s = closeActivePopup s;
       d \<leftarrow> currentDesktop (acEnv s);
       let get = (case getForActivation (acEnv s) d p (acChain s) of Some v \<Rightarrow> Some v | None \<Rightarrow> desktopWindow E s d);
       (r, s) \<leftarrow> (case get of None \<Rightarrow> Some (True, s)
         | Some v \<Rightarrow> if get \<noteq> mostRecentlyActivated s then requestFocus E v False s else Some (True, s));
       Some (True, setActiveOutput p s) })"

definition restoreFocus :: "act_env \<Rightarrow> activation \<Rightarrow> (bool \<times> activation) option" where
  "restoreFocus E s = (if acShouldGetFocus s \<noteq> [] then requestFocus E (last (acShouldGetFocus s)) False s
     else (case acLastActive s of None \<Rightarrow> Some (True, s) | Some v \<Rightarrow> requestFocus E v False s))"

text \<open>The focus events of an X11 window; \<open>allowed\<close> is the answer of \<open>allowWindowActivation\<close>. The timer of a lost focus runs out
  in \<open>focusOutTimeout\<close>.\<close>

definition focusInEvent :: "act_env \<Rightarrow> wid \<Rightarrow> bool \<Rightarrow> activation \<Rightarrow> activation option" where
  "focusInEvent E w allowed s =
     (if isShade (actWindow s w) \<or> \<not> isShown (actWindow s w) \<or> \<not> isOnCurrentDesktop (acEnv s) (actWindow s w) then Some s
      else do {
        let s = gotFocusIn w (actCalls [CancelFocusOutTimers] s);
        (if allowed then setActive E w True s
         else do {
           (restored, s) \<leftarrow> restoreFocus E s;
           (if restored then Some (demandAttention w True s) else setActive E w True s) }) })"

definition focusOutTimeout :: "act_env \<Rightarrow> wid \<Rightarrow> activation \<Rightarrow> activation option" where
  "focusOutTimeout E w = setActive E w False"

text \<open>The part of \<open>Workspace::removeWindow\<close> about the focus; \<open>Window\<close> itself has been made a zombie before.\<close>

definition forgetWindow :: "wid \<Rightarrow> activation \<Rightarrow> activation" where
  "forgetWindow w s =
     (let s = (if acPopup s = Some (Some w) then closeActivePopup s else s)
      in s\<lparr>acAttention := removeAll w (acAttention s), acShouldGetFocus := removeAll w (acShouldGetFocus s),
           acActive := (if acActive s = Some w then None else acActive s),
           acLastActive := (if acLastActive s = Some w then None else acLastActive s), acChain := remove w (acChain s)\<rparr>)"

definition activateAttentionWindow :: "act_env \<Rightarrow> activation \<Rightarrow> (bool \<times> activation) option" where
  "activateAttentionWindow E s = (case acAttention s of [] \<Rightarrow> Some (True, s) | w # _ \<Rightarrow> activateWindow E (Some w) False s)"

end
