(* ===== verification/Activation_Facts.thy ===== *)
theory Activation_Facts
  imports Activation Window_Desktops_Returns
begin

text \<open>
  What every step of the activation keeps: the active window is the one whose flag is set, the windows that demand attention are the
  ones in the attention chain, and there is a current desktop. The recursion of \<open>setActive\<close> and \<open>setActiveWindow\<close> is evaluated on
  the core of the state, that is the state without the recorded calls and the popup.
\<close>

named_theorems act_keeps "the operations that keep the invariant of the activation"

section \<open>The core of the state\<close>

definition core :: "activation \<Rightarrow> activation" where
  "core s = s\<lparr>acCalls := [], acPopup := None\<rparr>"

lemma core_fields [simp]:
  "acEnv (core s) = acEnv s" "acActive (core s) = acActive s" "acLastActive (core s) = acLastActive s"
  "acFlag (core s) = acFlag s" "acDemands (core s) = acDemands s" "acShouldGetFocus (core s) = acShouldGetFocus s"
  "acAttention (core s) = acAttention s" "acChain (core s) = acChain s" "acBlockFocus (core s) = acBlockFocus s"
  "acRecursion (core s) = acRecursion s"
  by (simp_all add: core_def)

lemma core_eq_iff: "core s = core t \<longleftrightarrow>
    acEnv s = acEnv t \<and> acActive s = acActive t \<and> acLastActive s = acLastActive t \<and> acFlag s = acFlag t
  \<and> acDemands s = acDemands t \<and> acShouldGetFocus s = acShouldGetFocus t \<and> acAttention s = acAttention t
  \<and> acChain s = acChain t \<and> acBlockFocus s = acBlockFocus t \<and> acRecursion s = acRecursion t"
  by (cases s; cases t) (auto simp: core_def)

lemma actCalls_core [simp]: "core (actCalls cs s) = core s"
  by (simp add: actCalls_def core_def)

lemma actCalls_fields [simp]:
  "acEnv (actCalls cs s) = acEnv s" "acActive (actCalls cs s) = acActive s" "acLastActive (actCalls cs s) = acLastActive s"
  "acFlag (actCalls cs s) = acFlag s" "acDemands (actCalls cs s) = acDemands s"
  "acShouldGetFocus (actCalls cs s) = acShouldGetFocus s" "acAttention (actCalls cs s) = acAttention s"
  "acChain (actCalls cs s) = acChain s" "acBlockFocus (actCalls cs s) = acBlockFocus s"
  "acRecursion (actCalls cs s) = acRecursion s" "acPopup (actCalls cs s) = acPopup s"
  by (simp_all add: actCalls_def)

lemma closeActivePopup_core [simp]: "core (closeActivePopup s) = core s"
  by (simp add: closeActivePopup_def) (simp add: core_def)

lemmas closeActivePopup_fields [simp] = closeActivePopup_core [unfolded core_eq_iff]

lemma afterSetActive_core [simp]: "core (afterSetActive E w s) = core s"
  by (simp add: afterSetActive_def)

lemmas afterSetActive_fields [simp] = afterSetActive_core [unfolded core_eq_iff]

lemma leaveActive_core: "core (leaveActive E w s) = core (s\<lparr>acRecursion := acRecursion s + 1\<rparr>)"
  by (simp add: leaveActive_def Let_def core_eq_iff split: option.split)

lemmas leaveActive_fields [simp] = leaveActive_core [unfolded core_eq_iff, simplified]

text \<open>What entering the active window leaves of the core.\<close>

definition entered :: "wid option \<Rightarrow> activation \<Rightarrow> activation" where
  "entered w s = (case w of None \<Rightarrow> s\<lparr>acChain := Focus_Chain.setActiveWindow None (acChain s)\<rparr>
   | Some a \<Rightarrow> s\<lparr>acLastActive := Some a, acChain := Focus_Chain.setActiveWindow (Some a) (update (acEnv s) a MakeFirst (acChain s)),
     acDemands := (acDemands s)(a := False),
     acAttention := (if acDemands s a then removeAll a (acAttention s) else acAttention s)\<rparr>)"

lemma enterActive_core: "core (enterActive E w s) = core ((entered w s)\<lparr>acRecursion := acRecursion s - 1\<rparr>)"
  by (auto simp: enterActive_def entered_def demandAttention_def windowAttentionChanged_def Let_def core_eq_iff
      fun_upd_idem split: option.splits)

section \<open>Deactivating\<close>

lemma setActiveWindow_unset:
  assumes "acActive s = Some a" "aeZombie E a \<or> \<not> acFlag s a"
  shows "\<exists>t. activating E (SetActiveWindow None) s = Some t \<and> core t = core (entered None (s\<lparr>acActive := None\<rparr>))"
proof -
  let ?s = "leaveActive E None s"
  have stays: "activating E (SetActive a False) ?s = Some ?s"
    using assms by (subst activating.simps) auto
  have "activating E (SetActiveWindow None) s = Some (enterActive E None (?s\<lparr>acActive := None\<rparr>))"
    using assms by (subst activating.simps) (simp add: stays Let_def)
  moreover have "core (enterActive E None (?s\<lparr>acActive := None\<rparr>)) = core (entered None (s\<lparr>acActive := None\<rparr>))"
    by (simp add: enterActive_core entered_def core_eq_iff)
  ultimately show ?thesis
    by blast
qed

lemma setActive_off:
  assumes "acActive s = Some a"
  shows "\<exists>t. activating E (SetActive a False) s = Some t
    \<and> core t = (if aeZombie E a \<or> \<not> acFlag s a then core s else core (entered None (s\<lparr>acFlag := (acFlag s)(a := False), acActive := None\<rparr>)))"
proof (cases "aeZombie E a \<or> \<not> acFlag s a")
  case True
  then show ?thesis
    by (subst activating.simps) auto
next
  case False
  let ?s = "actCalls [OpacityRule a] (s\<lparr>acFlag := (acFlag s)(a := False)\<rparr>)"
  have "acActive ?s = Some a" "aeZombie E a \<or> \<not> acFlag ?s a"
    using assms by simp_all
  from setActiveWindow_unset [OF this] obtain t where
    t: "activating E (SetActiveWindow None) ?s = Some t" "core t = core (entered None (?s\<lparr>acActive := None\<rparr>))"
    by blast
  have "activating E (SetActive a False) s = Some (afterSetActive E a t)"
    using False t(1) by (subst activating.simps) simp
  moreover have "core t = core (entered None (s\<lparr>acFlag := (acFlag s)(a := False), acActive := None\<rparr>))"
    using t(2) by (simp add: core_eq_iff entered_def)
  ultimately show ?thesis
    using False by simp
qed

text \<open>The flag of the window that was active.\<close>

definition flagsOff :: "act_env \<Rightarrow> activation \<Rightarrow> wid \<Rightarrow> bool" where
  "flagsOff E s = (case acActive s of None \<Rightarrow> acFlag s
     | Some a \<Rightarrow> if aeZombie E a then acFlag s else (acFlag s)(a := False))"

text \<open>The focus chain forgets the active window when that is deactivated first.\<close>

definition chainOff :: "act_env \<Rightarrow> activation \<Rightarrow> focus_chain" where
  "chainOff E s = (case acActive s of None \<Rightarrow> acChain s
     | Some a \<Rightarrow> if aeZombie E a \<or> \<not> acFlag s a then acChain s else Focus_Chain.setActiveWindow None (acChain s))"

lemma setActiveWindow_effect:
  assumes "acActive s \<noteq> w" "\<And>a. w = Some a \<Longrightarrow> acFlag s a"
  shows "\<exists>t. activating E (SetActiveWindow w) s = Some t
    \<and> core t = core (entered w (s\<lparr>acFlag := flagsOff E s, acActive := w, acChain := chainOff E s\<rparr>))"
proof -
  let ?l = "leaveActive E w s"
  obtain t where t: "(case acActive ?l of None \<Rightarrow> Some ?l | Some a \<Rightarrow> activating E (SetActive a False) ?l) = Some t"
    and ct: "core (t\<lparr>acActive := w\<rparr>) = core (s\<lparr>acFlag := flagsOff E s, acActive := w, acChain := chainOff E s, acRecursion := acRecursion s + 1\<rparr>)"
  proof (cases "acActive s")
    case None
    have "core (?l\<lparr>acActive := w\<rparr>) = core (s\<lparr>acFlag := flagsOff E s, acActive := w, acChain := chainOff E s, acRecursion := acRecursion s + 1\<rparr>)"
      using None by (simp add: core_eq_iff flagsOff_def chainOff_def)
    with that [of ?l] None show ?thesis
      by simp
  next
    case (Some a)
    then have "acActive ?l = Some a"
      by simp
    from setActive_off [OF this, of E] obtain t where t: "activating E (SetActive a False) ?l = Some t"
      and c: "core t = (if aeZombie E a \<or> \<not> acFlag ?l a then core ?l else core (entered None (?l\<lparr>acFlag := (acFlag ?l)(a := False), acActive := None\<rparr>)))"
      by blast
    have "core (t\<lparr>acActive := w\<rparr>) = core (s\<lparr>acFlag := flagsOff E s, acActive := w, acChain := chainOff E s, acRecursion := acRecursion s + 1\<rparr>)"
      using c Some by (auto simp: core_eq_iff flagsOff_def chainOff_def entered_def split: if_splits)
    with that [of t] t Some show ?thesis
      by simp
  qed
  have flag: "acFlag t a" if "w = Some a" for a
    using ct assms that by (auto simp: core_eq_iff flagsOff_def split: option.splits if_splits)
  have "activating E (SetActiveWindow w) s = Some (enterActive E w (t\<lparr>acActive := w\<rparr>))"
    using assms(1) t flag by (subst activating.simps) (auto simp: Let_def split: option.split)
  moreover have "core (enterActive E w (t\<lparr>acActive := w\<rparr>)) = core (entered w (s\<lparr>acFlag := flagsOff E s, acActive := w, acChain := chainOff E s\<rparr>))"
    using ct by (auto simp: enterActive_core entered_def core_eq_iff split: option.splits)
  ultimately show ?thesis
    by blast
qed

section \<open>The invariant and the abstract view\<close>

definition actInv :: "act_env \<Rightarrow> activation \<Rightarrow> bool" where
  "actInv E s \<longleftrightarrow> (\<forall>w. \<not> aeZombie E w \<longrightarrow>
       (acFlag s w \<longleftrightarrow> acActive s = Some w) \<and> (w \<in> set (acAttention s) \<longleftrightarrow> acDemands s w) \<and> \<not> (acFlag s w \<and> acDemands s w))
     \<and> distinct (acAttention s) \<and> currentDesktop (acEnv s) \<noteq> None
     \<and> (\<forall>x. inNoOtherChain (actWindow s x) (m_desktopFocusChains (acChain s)) x)
     \<and> (deX11Mode E \<longrightarrow> (\<forall>x. length (desktops (actWindow s x)) \<le> 1))"

text \<open>What the other components see of the activation: the active window, the last active one, the windows that demand attention
  and the focus chains.\<close>

record focus_view =
  fvActive :: "wid option"
  fvLast :: "wid option"
  fvAttention :: "wid list"
  fvChain :: focus_chain

definition viewOf :: "activation \<Rightarrow> focus_view" where
  "viewOf s = \<lparr>fvActive = acActive s, fvLast = acLastActive s, fvAttention = acAttention s, fvChain = acChain s\<rparr>"

definition viewSetActive :: "act_env \<Rightarrow> env \<Rightarrow> wid \<Rightarrow> bool \<Rightarrow> focus_view \<Rightarrow> focus_view" where
  "viewSetActive E W w act v =
     (if aeZombie E w \<or> (fvActive v = Some w) = act then v
      else if act then \<lparr>fvActive = Some w, fvLast = Some w, fvAttention = removeAll w (fvAttention v),
        fvChain = Focus_Chain.setActiveWindow (Some w) (update W w MakeFirst
          (case fvActive v of None \<Rightarrow> fvChain v | Some a \<Rightarrow> if aeZombie E a then fvChain v else Focus_Chain.setActiveWindow None (fvChain v)))\<rparr>
      else v\<lparr>fvActive := None, fvChain := Focus_Chain.setActiveWindow None (fvChain v)\<rparr>)"

text \<open>The rest of the state.\<close>

definition sameRest :: "activation \<Rightarrow> activation \<Rightarrow> bool" where
  "sameRest s t \<longleftrightarrow> acEnv t = acEnv s \<and> acShouldGetFocus t = acShouldGetFocus s \<and> acBlockFocus t = acBlockFocus s
     \<and> acRecursion t = acRecursion s"

lemma setActiveWindow_twice [simp]:
  "Focus_Chain.setActiveWindow w (Focus_Chain.setActiveWindow v c) = Focus_Chain.setActiveWindow w c"
  by (simp add: Focus_Chain.setActiveWindow_def)

lemma actInv_core: "core s = core t \<Longrightarrow> actInv E s = actInv E t"
  by (simp add: actInv_def core_eq_iff)

lemma actInvD:
  assumes "actInv E s" "\<not> aeZombie E w"
  shows "acFlag s w \<longleftrightarrow> acActive s = Some w" "w \<in> set (acAttention s) \<longleftrightarrow> acDemands s w" "acFlag s w \<Longrightarrow> \<not> acDemands s w"
  using assms by (auto simp: actInv_def)

lemma chainOff_chains [simp]: "m_desktopFocusChains (chainOff E s) = m_desktopFocusChains (acChain s)"
  by (auto simp: chainOff_def Focus_Chain.setActiveWindow_def split: option.split)

lemma chain_fields [simp]: "m_desktopFocusChains (Focus_Chain.setActiveWindow w c) = m_desktopFocusChains c"
  "m_desktopFocusChains (Focus_Chain.setCurrentDesktop d c) = m_desktopFocusChains c"
  by (simp_all add: Focus_Chain.setActiveWindow_def Focus_Chain.setCurrentDesktop_def)

lemma actInv_unset:
  assumes "actInv E s"
  shows "actInv E (entered None (s\<lparr>acFlag := flagsOff E s, acActive := None, acChain := chainOff E s\<rparr>))"
  using assms by (auto simp: actInv_def flagsOff_def entered_def split: option.splits)

lemma update_law:
  assumes "\<forall>x. inNoOtherChain (windowAt W x) (m_desktopFocusChains c) x"
  shows "inNoOtherChain (windowAt W x) (m_desktopFocusChains (update W w MakeFirst c)) x"
  using assms by (cases "x = w") (simp_all add: sound.updated sound.others)

lemma actInv_entered:
  assumes "actInv E s" "\<not> aeZombie E w"
  shows "actInv E (entered (Some w) (s\<lparr>acFlag := (flagsOff E s)(w := True), acActive := Some w, acChain := chainOff E s\<rparr>))"
proof -
  have "inNoOtherChain (actWindow s x) (m_desktopFocusChains (update (acEnv s) w MakeFirst (chainOff E s))) x" for x
    by (rule update_law) (use assms(1) in \<open>simp add: actInv_def\<close>)
  with assms show ?thesis
    by (auto simp: actInv_def flagsOff_def entered_def distinct_removeAll split: option.splits if_splits)
qed

lemma setActiveWindow_none:
  assumes "actInv E s"
  shows "\<exists>t. activating E (SetActiveWindow None) s = Some t \<and> actInv E t \<and> sameRest s t
    \<and> fvActive (viewOf t) = None"
proof (cases "acActive s = None")
  case True
  then have "activating E (SetActiveWindow None) s = Some s"
    by (subst activating.simps) simp
  then show ?thesis
    using assms True by (simp add: sameRest_def viewOf_def)
next
  case False
  from setActiveWindow_effect [of s None E, OF False] obtain t where
    t: "activating E (SetActiveWindow None) s = Some t" and c: "core t = core (entered None (s\<lparr>acFlag := flagsOff E s, acActive := None, acChain := chainOff E s\<rparr>))"
    by auto
  from actInv_core [OF c] actInv_unset [OF assms] have "actInv E t"
    by simp
  with t c show ?thesis
    by (auto simp: sameRest_def viewOf_def core_eq_iff entered_def)
qed

lemma setActive_effect:
  assumes inv: "actInv E s"
  shows "\<exists>t. activating E (SetActive w act) s = Some t \<and> actInv E t \<and> sameRest s t
    \<and> viewOf t = viewSetActive E (acEnv s) w act (viewOf s)"
proof (cases "aeZombie E w \<or> acFlag s w = act")
  case True
  then have "activating E (SetActive w act) s = Some s"
    by (subst activating.simps) simp
  moreover have "viewSetActive E (acEnv s) w act (viewOf s) = viewOf s"
    using True actInvD(1) [OF inv, of w] by (auto simp: viewSetActive_def viewOf_def)
  ultimately show ?thesis
    using inv by (simp add: sameRest_def)
next
  case change: False
  show ?thesis
  proof (cases act)
    case True
    let ?s = "actCalls [OpacityRule w] (s\<lparr>acFlag := (acFlag s)(w := act)\<rparr>)"
    have w: "acActive s \<noteq> Some w"
      using change True actInvD(1) [OF inv] by auto
    from setActiveWindow_effect [of ?s "Some w" E] obtain t where t: "activating E (SetActiveWindow (Some w)) ?s = Some t"
      and c: "core t = core (entered (Some w) (?s\<lparr>acFlag := flagsOff E ?s, acActive := Some w, acChain := chainOff E ?s\<rparr>))"
      using w True by auto
    have flags: "flagsOff E ?s = (flagsOff E s)(w := True)"
      using w True by (auto simp: flagsOff_def fun_upd_twist split: option.split)
    have chain: "chainOff E ?s = chainOff E s"
      using w True by (auto simp: chainOff_def split: option.split)
    from c have c': "core (afterSetActive E w t) = core (entered (Some w)
        (s\<lparr>acFlag := (flagsOff E s)(w := True), acActive := Some w, acChain := chainOff E s\<rparr>))"
      unfolding flags chain by (simp add: core_eq_iff entered_def)
    have "activating E (SetActive w act) s = Some (afterSetActive E w t)"
      using change True t by (subst activating.simps) simp
    moreover have "actInv E (afterSetActive E w t)"
      using actInv_core [OF c', of E] actInv_entered [OF inv] change by simp
    moreover have "w \<in> set (acAttention s) \<longleftrightarrow> acDemands s w"
      using actInvD(2) [OF inv] change by auto
    moreover have "viewOf (afterSetActive E w t) = viewSetActive E (acEnv s) w act (viewOf s)"
      using c' w True change calculation(3) actInvD(1) [OF inv]
      by (auto simp: viewOf_def viewSetActive_def core_eq_iff entered_def chainOff_def split: option.splits)
    ultimately show ?thesis
      using c' by (simp add: sameRest_def core_eq_iff entered_def)
  next
    case False
    with change have w: "acActive s = Some w" "\<not> aeZombie E w" "acFlag s w"
      using actInvD(1) [OF inv] by auto
    from setActive_off [OF w(1), of E] obtain t where t: "activating E (SetActive w False) s = Some t"
      and c: "core t = core (entered None (s\<lparr>acFlag := flagsOff E s, acActive := None, acChain := chainOff E s\<rparr>))"
      using w by (auto simp: flagsOff_def chainOff_def entered_def core_eq_iff)
    from actInv_core [OF c, of E] actInv_unset [OF inv] have "actInv E t"
      by simp
    with t c w False show ?thesis
      by (auto simp: sameRest_def viewOf_def viewSetActive_def core_eq_iff entered_def chainOff_def)
  qed
qed

section \<open>The other operations\<close>

lemma actInv_fields [act_keeps]:
  "actInv E (actCalls cs s) \<longleftrightarrow> actInv E s" "actInv E (s\<lparr>acShouldGetFocus := ws\<rparr>) \<longleftrightarrow> actInv E s"
  "actInv E (s\<lparr>acPopup := p\<rparr>) \<longleftrightarrow> actInv E s" "actInv E (s\<lparr>acBlockFocus := n\<rparr>) \<longleftrightarrow> actInv E s"
  by (simp_all add: actInv_def)

lemma actInv_env_same [act_keeps]:
  "actInv E (s\<lparr>acEnv := (acEnv s)\<lparr>showingDesktop := b\<rparr>\<rparr>) \<longleftrightarrow> actInv E s"
  "actInv E (s\<lparr>acEnv := (acEnv s)\<lparr>activeOutput := p\<rparr>\<rparr>) \<longleftrightarrow> actInv E s"
  by (simp_all add: actInv_def)

lemma actInv_desktop [act_keeps]:
  "actInv E s \<Longrightarrow> actInv E (s\<lparr>acEnv := (acEnv s)\<lparr>currentDesktop := Some d\<rparr>, acChain := Focus_Chain.setCurrentDesktop (Some d) (acChain s)\<rparr>)"
  by (simp add: actInv_def)

lemma actInv_demandAttention [act_keeps]: "actInv E s \<Longrightarrow> actInv E (demandAttention w on s)"
  by (auto simp: actInv_def demandAttention_def windowAttentionChanged_def Let_def distinct_removeAll split: if_splits)

lemma actInv_closeActivePopup [act_keeps]: "actInv E (closeActivePopup s) \<longleftrightarrow> actInv E s"
  by (rule actInv_core) simp

lemma actInv_focusToNull [act_keeps]: "actInv E (focusToNull F s) \<longleftrightarrow> actInv E s"
  by (simp add: focusToNull_def act_keeps)

lemma actInv_leaveShowingDesktop [act_keeps]: "actInv E (leaveShowingDesktop ws s) \<longleftrightarrow> actInv E s"
  by (simp add: leaveShowingDesktop_def act_keeps)

lemma actInv_settings [act_keeps]:
  "actInv E (setShouldGetFocus w s) \<longleftrightarrow> actInv E s" "actInv E (gotFocusIn w s) \<longleftrightarrow> actInv E s"
  "actInv E (setActiveOutput p s) \<longleftrightarrow> actInv E s" "actInv E (blockFocus n s) \<longleftrightarrow> actInv E s"
  by (simp_all add: setShouldGetFocus_def gotFocusIn_def setActiveOutput_def blockFocus_def Let_def act_keeps)

lemma actInv_windows:
  assumes "\<And>x. desktops (ws x) = desktops (actWindow s x)"
  shows "actInv E (s\<lparr>acEnv := (acEnv s)\<lparr>windowAt := ws\<rparr>\<rparr>) \<longleftrightarrow> actInv E s"
  using assms by (simp add: actInv_def inNoOtherChain_def isOnDesktop_def isOnAllDesktops_def)

lemma actInv_revealWindow [act_keeps]: "actInv E (revealWindow F w s) \<longleftrightarrow> actInv E s"
  by (simp add: revealWindow_def Let_def act_keeps actInv_windows)

lemma remove_law: "inNoOtherChain c (m_desktopFocusChains d) x \<Longrightarrow> inNoOtherChain c (m_desktopFocusChains (remove w d)) x"
  by (fastforce simp: inNoOtherChain_def remove_def mapChains_def)

lemma actInv_forgetWindow:
  assumes "actInv E s" "aeZombie E w"
  shows "actInv E (forgetWindow w s)"
  using assms by (auto simp: actInv_def forgetWindow_def Let_def distinct_removeAll intro: remove_law)

section \<open>Taking the focus\<close>

text \<open>A call that returns, and keeps the invariant.\<close>

definition keeping :: "act_env \<Rightarrow> ('r \<times> activation) option \<Rightarrow> bool" where
  "keeping E m = (case m of None \<Rightarrow> False | Some (r, t) \<Rightarrow> actInv E t)"

lemma keeping_simps [simp]: "keeping E (Some (r, t)) = actInv E t" "\<not> keeping E None"
  by (simp_all add: keeping_def)

lemma keeping_bind:
  assumes "keeping E m" "\<And>r t. m = Some (r, t) \<Longrightarrow> actInv E t \<Longrightarrow> keeping E (f (r, t))"
  shows "keeping E (m \<bind> f)"
  using assms by (cases m) (auto simp: keeping_def split: option.splits prod.splits)

lemma keepingE:
  assumes "keeping E m"
  obtains r t where "m = Some (r, t)" "actInv E t"
  using assms by (auto simp: keeping_def split: option.splits)

text \<open>The virtual method \<open>Window::takeFocus\<close>: what \<open>takeActivity\<close> relies on in its implementations.\<close>

locale focus_taker =
  fixes take :: "act_env \<Rightarrow> wid \<Rightarrow> activation \<Rightarrow> (bool \<times> activation) option"
  assumes takes: "actInv E s \<Longrightarrow> keeping E (take E w s)"
begin

lemma takes_if: "actInv E s \<Longrightarrow> keeping E (if b then take E w s else Some (True, s))"
  by (simp add: takes)

lemma takes_then:
  assumes "actInv E s" "\<And>r t. actInv E t \<Longrightarrow> keeping E (f (r, t))"
  shows "keeping E ((if b then take E w s else Some (True, s)) \<bind> f)"
  by (rule keeping_bind) (use assms takes_if in auto)

end

interpretation x11: focus_taker "\<lambda>E w s. Some (x11TakeFocus E w s)"
  by unfold_locales (simp add: x11TakeFocus_def Let_def act_keeps)

lemma setActive_keeps:
  assumes "actInv E s"
  obtains t where "setActive E w act s = Some t" "actInv E t" "sameRest s t"
  using setActive_effect [OF assms] by blast

interpretation xdg: focus_taker xdgTakeFocus
proof unfold_locales
  fix E s w
  assume inv: "actInv E s"
  then have "actInv E (actCalls [SendPing w] s)"
    by (simp add: act_keeps)
  then obtain t where t: "setActive E w True (actCalls [SendPing w] s) = Some t" "actInv E t"
    by (rule setActive_keeps)
  show "keeping E (xdgTakeFocus E w s)"
    using inv t by (simp add: xdgTakeFocus_def act_keeps)
qed

interpretation taken: focus_taker takeFocus
proof unfold_locales
  fix E s w
  assume inv: "actInv E s"
  show "keeping E (takeFocus E w s)"
    using x11.takes [OF inv] xdg.takes [OF inv] inv by (simp add: takeFocus_def split: focus_kind.split)
qed

lemma finishActivity_keeps [act_keeps]:
  assumes "actInv E s"
  shows "keeping E (finishActivity E w focus fl s)"
proof -
  let ?c = "actWindow s w"
  define f where "f = (focus \<and> ((focus \<and> afForce fl) \<or> \<not> (isDock ?c \<or> isSplash ?c) \<or> aeDockWantsInput E w))"
  from assms obtain t where a: "setActive E w True s = Some t" "actInv E t"
    by (rule setActive_keeps)
  have "\<exists>t. (if isShade ?c \<and> wantsInput ?c \<and> f then map_option (focusToNull E) (setActive E w True s) else Some s) = Some t \<and> actInv E t"
    using assms a by (simp add: act_keeps)
  then obtain t where t: "(if isShade ?c \<and> wantsInput ?c \<and> f then map_option (focusToNull E) (setActive E w True s) else Some s) = Some t"
    "actInv E t"
    by blast
  have rest: "keeping E ((if b then takeFocus E w t else Some (True, t)) \<bind> (\<lambda>(r, u). Some (r,
      let u = (if afRaise fl then actCalls [RaiseWindow w] u else u)
      in if isOnOutput (acEnv u) (actWindow u w) (activeOutput (acEnv u)) then u else setActiveOutput (outputOf (actWindow u w)) u)))" for b
    by (rule taken.takes_then) (simp_all add: t act_keeps Let_def)
  show ?thesis
    unfolding finishActivity_def Let_def f_def [symmetric] t(1)
    using rest [unfolded Let_def] t(2) by simp
qed

end
