(* ===== verification/Activation_Returns.thy ===== *)
theory Activation_Returns
  imports Activation_Facts
begin

text \<open>
  Activating a window returns and keeps the invariant of the activation, whatever desktops, modal windows and rules for the focus are
  involved. The recursion goes from a window to a modal window below it in the tree of transients; switching the desktop on the way
  only leads to windows of the new desktop, because the focus chains hold no others.
\<close>

section \<open>The relations of the windows\<close>

definition transientOf :: "act_env \<Rightarrow> (wid \<times> wid) set" where
  "transientOf E = {(t, w). t \<in> set (deTransients E w)}"

text \<open>Transients are clients and form no cycles, the window that is moved is a client, and no rule decides about desktops.\<close>

definition actEnvOk :: "act_env \<Rightarrow> bool" where
  "actEnvOk E \<longleftrightarrow> (\<forall>w ds. deRule E w ds = ds) \<and> closedWindows (deskEnv E)
     \<and> (\<forall>m. deMoveResize E = Some m \<longrightarrow> m \<in> set (deClients E)) \<and> wf (transientOf E)"

lemma deskEnv_fields [simp]:
  "deTransients (deskEnv E) = deTransients E" "deMainWindows (deskEnv E) = deMainWindows E" "deRule (deskEnv E) = deRule E"
  "deClients (deskEnv E) = deClients E" "deX11Mode (deskEnv E) = deX11Mode E" "deStackingOrder (deskEnv E) = deStackingOrder E"
  by (simp_all add: desk_env.defs)

lemma actEnvOk_desk:
  assumes "actEnvOk E"
  shows "allowedDesktops (deskEnv E) w ds = onX11 (deskEnv E) ds" "rulesDecide (deskEnv E)" "closedWindows (deskEnv E)"
  using assms by (simp_all add: actEnvOk_def allowedDesktops_eq rulesDecide_def freeDesks_def)

lemma moveTo_onX11: "moving E (MoveTo w ds) s = moving E (MoveTo w (onX11 E ds)) s"
  by (subst (1 2) moving.simps) (simp add: allowedDesktops_eq)

section \<open>Desktops of windows\<close>

text \<open>A list of desktops that shows a window on the current desktop, also after X11 has shortened it.\<close>

definition reaches :: "act_env \<Rightarrow> vd \<Rightarrow> vd list \<Rightarrow> bool" where
  "reaches E cur ds \<longleftrightarrow> ds = [] \<or> (cur \<in> set ds \<and> (deX11Mode E \<longrightarrow> length ds \<le> 1))"

lemma reaches_X11: "reaches E cur ds \<Longrightarrow> reaches E cur (onX11 (deskEnv E) ds)"
  by (auto simp: reaches_def onX11_def)

lemma desks_moved:
  assumes ok: "actEnvOk E" and inv: "actInv E s" and m: "m \<in> set (deClients E)" and cur: "currentDesktop (acEnv s) = Some cur"
  obtains t where "onDesks (setDesktops (deskEnv E) m ds) s = Some t" "actInv E t" "acActive t = acActive s"
    "currentDesktop (acEnv t) = Some cur" "reaches E cur (onX11 (deskEnv E) ds) \<Longrightarrow> isOnCurrentDesktop (acEnv t) (actWindow t m)"
proof -
  let ?E = "deskEnv E" and ?d = "\<lparr>dsEnv = acEnv s, dsChain = acChain s, dsCalls = []\<rparr>"
  have "returnsSettled ?E (MoveTo m ds) ?d"
    by (rule moving_returns [where cur = cur]) (use ok m cur in \<open>simp_all add: actEnvOk_desk stepWithin_def\<close>)
  then obtain u where u: "moving ?E (MoveTo m ds) ?d = Some u"
    by (auto simp: returnsSettled_def)
  then have u': "moving ?E (MoveTo m (onX11 ?E ds)) ?d = Some u"
    by (simp add: moveTo_onX11 [symmetric])
  have only: "deskOnly ?d u"
    by (rule moving_deskOnly [OF u])
  have single: "deX11Mode E \<longrightarrow> length (desksOf u x) \<le> 1" for x
  proof -
    have "desksOf u x = desksOf ?d x \<or> (deX11Mode E \<longrightarrow> length (desksOf u x) \<le> 1)"
      by (rule moving_assigns(1) [OF u', where P = "\<lambda>l. deX11Mode E \<longrightarrow> length l \<le> 1"])
        (auto simp: actEnvOk_desk [OF ok] onX11_def)
    then show ?thesis
      using inv by (auto simp: actInv_def)
  qed
  have law: "inNoOtherChain (deskWindow u x) (m_desktopFocusChains (dsChain u)) x" for x
    using sound.moving_lawful [OF u, of x] inv by (simp add: sound.lawful_def actInv_def)
  let ?t = "actCalls (map DeskCall (dsCalls u)) (s\<lparr>acEnv := dsEnv u, acChain := dsChain u\<rparr>)"
  have curu: "currentDesktop (dsEnv u) = Some cur"
    using deskOnlyD(1) [OF only] cur by simp
  have "actInv E ?t"
    using inv single law curu by (auto simp: actInv_def)
  moreover have "isOnCurrentDesktop (acEnv ?t) (actWindow ?t m)" if r: "reaches E cur (onX11 ?E ds)"
  proof -
    have "reaches E cur (desksOf u m)"
      by (rule moving_assigns(2) [OF u', where P = "reaches E cur"])
        (use r cur in \<open>auto simp: actEnvOk_desk [OF ok] reaches_X11\<close>, simp_all add: reaches_def)
    then show ?thesis
      using curu by (auto simp: reaches_def isOnCurrentDesktop_def isOnDesktop_def isOnAllDesktops_def)
  qed
  ultimately show thesis
    using that [of ?t] u curu by (simp add: onDesks_def)
qed

lemma onCurrent_reaches:
  assumes "actInv E s" "currentDesktop (acEnv s) = Some cur" "isOnCurrentDesktop (acEnv s) (actWindow s w)"
  shows "reaches E cur (desktops (actWindow s w))"
  using assms by (auto simp: reaches_def actInv_def isOnCurrentDesktop_def isOnDesktop_def isOnAllDesktops_def)

lemma followDesktops_keeps:
  assumes ok: "actEnvOk E" and inv: "actInv E s" and m: "m \<in> set (deClients E)"
  obtains t where "followDesktops E m w s = Some t" "actInv E t"
    "isOnCurrentDesktop (acEnv s) (actWindow s w) \<Longrightarrow> isOnCurrentDesktop (acEnv t) (actWindow t m)"
proof -
  obtain cur where cur: "currentDesktop (acEnv s) = Some cur"
    using inv by (auto simp: actInv_def)
  show thesis
  proof (cases "desktops (actWindow s m) = desktops (actWindow s w)")
    case True
    have "isOnCurrentDesktop (acEnv s) (actWindow s m) = isOnCurrentDesktop (acEnv s) (actWindow s w)"
      unfolding isOnCurrentDesktop_def isOnDesktop_def isOnAllDesktops_def True by (rule refl)
    with that [of s] True inv show ?thesis
      by (simp add: followDesktops_def)
  next
    case False
    obtain t where "onDesks (setDesktops (deskEnv E) m (desktops (actWindow s w))) s = Some t" "actInv E t"
      "reaches E cur (onX11 (deskEnv E) (desktops (actWindow s w))) \<Longrightarrow> isOnCurrentDesktop (acEnv t) (actWindow t m)"
      using desks_moved [OF ok inv m cur, of "desktops (actWindow s w)"] by metis
    with that [of t] False onCurrent_reaches [OF inv cur] reaches_X11 show ?thesis
      by (auto simp: followDesktops_def)
  qed
qed

lemma enterDesktop_keeps:
  assumes "actEnvOk E" "actInv E s" "w \<in> set (deClients E)"
  obtains t where "onDesks (enterDesktop (deskEnv E) w d) s = Some t" "actInv E t"
proof -
  obtain cur where cur: "currentDesktop (acEnv s) = Some cur"
    using assms(2) by (auto simp: actInv_def)
  show thesis
  proof (cases "d \<in> set (desktops (actWindow s w))")
    case True
    with that [of "actCalls [] (s\<lparr>acEnv := acEnv s, acChain := acChain s\<rparr>)"] assms show ?thesis
      by (simp add: onDesks_def enterDesktop_def act_keeps)
  next
    case False
    obtain t where "onDesks (setDesktops (deskEnv E) w (desktops (actWindow s w) @ [d])) s = Some t" "actInv E t"
      by (rule desks_moved [OF assms cur])
    with that [of t] False show ?thesis
      by (simp add: onDesks_def enterDesktop_def)
  qed
qed

lemma leaveShowingDesktop_desktop [simp]: "currentDesktop (acEnv (leaveShowingDesktop ws s)) = currentDesktop (acEnv s)"
  by (simp add: leaveShowingDesktop_def)

lemma desktopChanged_keeps:
  assumes ok: "actEnvOk E" and inv: "actInv E s"
  obtains t where "desktopChanged E d s = Some t" "actInv E t" "currentDesktop (acEnv t) = Some d"
proof -
  define u where "u = closeActivePopup (actCalls [SetCurrentDesktop d]
    (s\<lparr>acEnv := (acEnv s)\<lparr>currentDesktop := Some d\<rparr>, acChain := Focus_Chain.setCurrentDesktop (Some d) (acChain s)\<rparr>))"
  have u: "actInv E u" "currentDesktop (acEnv u) = Some d"
    using inv by (simp_all add: u_def act_keeps)
  have "\<exists>t. (case deMoveResize E of None \<Rightarrow> Some u | Some m \<Rightarrow> if isOnDesktop (actWindow u m) (Some d) then Some u
       else onDesks (setDesktops (deskEnv E) m [d]) u) = Some t \<and> actInv E t \<and> currentDesktop (acEnv t) = Some d"
  proof (cases "deMoveResize E")
    case (Some m)
    then have "m \<in> set (deClients E)"
      using ok by (simp add: actEnvOk_def)
    then obtain t where t: "onDesks (setDesktops (deskEnv E) m [d]) u = Some t" "actInv E t" "currentDesktop (acEnv t) = Some d"
      by (rule desks_moved [OF ok u(1) _ u(2)])
    show ?thesis
      using Some u t by simp
  qed (use u in simp)
  then obtain t where t: "(case deMoveResize E of None \<Rightarrow> Some u | Some m \<Rightarrow> if isOnDesktop (actWindow u m) (Some d) then Some u
       else onDesks (setDesktops (deskEnv E) m [d]) u) = Some t" "actInv E t" "currentDesktop (acEnv t) = Some d"
    by blast
  show thesis
    by (rule that [of "actCalls [ClearPreview] (leaveShowingDesktop [] t)"])
      (use t in \<open>simp_all add: desktopChanged_def Let_def u_def [symmetric] act_keeps\<close>)
qed

section \<open>Modal windows\<close>

lemma firstModal_simps:
  "firstModal E W [] = Some None"
  "firstModal E W (t # ts) = do {
     r \<leftarrow> firstModal E W (deTransients E t);
     (case r of Some m \<Rightarrow> Some (Some m)
      | None \<Rightarrow> if isModal (windowAt W t) then Some (Some t) else firstModal E W ts) }"
  by (subst firstModal.simps, simp)+

lemma firstModal_returns:
  assumes wf: "wf (transientOf E)"
  shows "\<exists>r. firstModal E W (deTransients E w) = Some r \<and> (\<forall>m. r = Some m \<longrightarrow> (m, w) \<in> (transientOf E)\<^sup>+)"
  using wf
proof (induction w rule: wf_induct_rule)
  case (less w)
  have "\<exists>r. firstModal E W ts = Some r \<and> (\<forall>m. r = Some m \<longrightarrow> (m, w) \<in> (transientOf E)\<^sup>+)" if "set ts \<subseteq> set (deTransients E w)" for ts
    using that
  proof (induction ts)
    case (Cons t ts)
    then have tw: "(t, w) \<in> transientOf E"
      by (simp add: transientOf_def)
    from less.IH [OF this] obtain r where r: "firstModal E W (deTransients E t) = Some r"
      "\<forall>m. r = Some m \<longrightarrow> (m, t) \<in> (transientOf E)\<^sup>+"
      by blast
    from Cons obtain r' where r': "firstModal E W ts = Some r'" "\<forall>m. r' = Some m \<longrightarrow> (m, w) \<in> (transientOf E)\<^sup>+"
      by auto
    show ?case
      using r r' tw by (auto simp: firstModal_simps split: option.split intro: trancl_into_trancl)
  qed (simp add: firstModal_simps)
  from this [OF subset_refl] show ?case .
qed

lemma findModal_returns:
  assumes "actEnvOk E"
  obtains r where "findModal E s w = Some r" "\<And>m. r = Some m \<Longrightarrow> (m, w) \<in> (transientOf E)\<^sup>+" "\<And>m. r = Some m \<Longrightarrow> m \<in> set (deClients E)"
proof -
  from firstModal_returns [of E "acEnv s" w] assms obtain r where r: "findModal E s w = Some r"
    "\<forall>m. r = Some m \<longrightarrow> (m, w) \<in> (transientOf E)\<^sup>+"
    by (cases "aeKind E w = NeverFocus") (auto simp: findModal_def actEnvOk_def)
  have "m \<in> set (deClients E)" if "(m, w) \<in> (transientOf E)\<^sup>+" for m
    using that
  proof cases
    case base
    then show ?thesis
      using assms by (auto simp: transientOf_def actEnvOk_def closedWindows_def)
  next
    case (step c)
    from step(1) obtain c' where "(m, c') \<in> transientOf E"
      by (meson tranclD)
    then show ?thesis
      using assms by (auto simp: transientOf_def actEnvOk_def closedWindows_def)
  qed
  with r that show thesis
    by blast
qed

section \<open>One round of the recursion\<close>

lemma isOnCurrentDesktop_reveal [simp]:
  "isOnCurrentDesktop (acEnv (revealWindow E v s)) (actWindow (revealWindow E v s) w) = isOnCurrentDesktop (acEnv s) (actWindow s w)"
proof -
  have "desktops (actWindow (revealWindow E v s) w) = desktops (actWindow s w)"
    "currentDesktop (acEnv (revealWindow E v s)) = currentDesktop (acEnv s)"
    by (simp_all add: revealWindow_def Let_def)
  then show ?thesis
    unfolding isOnCurrentDesktop_def isOnDesktop_def isOnAllDesktops_def by (simp only:)
qed

lemma takeActivity_step:
  assumes ok: "actEnvOk E" and inv: "actInv E s"
    and activate: "\<And>m t. (m, w) \<in> (transientOf E)\<^sup>+ \<Longrightarrow> m \<in> set (deClients E) \<Longrightarrow> actInv E t
      \<Longrightarrow> (isOnCurrentDesktop (acEnv s) (actWindow s w) \<Longrightarrow> isOnCurrentDesktop (acEnv t) (actWindow t m))
      \<Longrightarrow> keeping E (focusing E (ActivateWindow (Some m) False) t)"
  shows "keeping E (focusing E (TakeActivity (Some w) fl) s)"
proof (cases "afFocus fl \<and> (focusChangeEnabled s \<or> acActive s = Some w)")
  case False
  have "focusing E (TakeActivity (Some w) fl) s = finishActivity E w False fl s"
    using False by (subst focusing.simps) (auto simp: Let_def)
  then show ?thesis
    using finishActivity_keeps [OF inv] by simp
next
  case True
  obtain r where r: "findModal E s w = Some r" "\<And>m. r = Some m \<Longrightarrow> (m, w) \<in> (transientOf E)\<^sup>+"
    "\<And>m. r = Some m \<Longrightarrow> m \<in> set (deClients E)"
    using findModal_returns [OF ok, of s w] by blast
  have fin: "keeping E (finishActivity E v True fl (actCalls [CancelDelayFocus] t))" if "actInv E t" for v t
    using that by (simp add: act_keeps)
  show ?thesis
  proof (cases "r = None \<or> r = Some w")
    case True
    have "focusing E (TakeActivity (Some w) fl) s = finishActivity E w True fl (actCalls [CancelDelayFocus] s)"
      using True r(1) \<open>afFocus fl \<and> _\<close> by (subst focusing.simps) (auto simp: Let_def)
    then show ?thesis
      using fin [OF inv] by simp
  next
    case False
    then obtain m where m: "r = Some m" "m \<noteq> w"
      by (cases r) auto
    obtain t where t: "followDesktops E m w s = Some t" "actInv E t"
      "isOnCurrentDesktop (acEnv s) (actWindow s w) \<Longrightarrow> isOnCurrentDesktop (acEnv t) (actWindow t m)"
      using followDesktops_keeps [OF ok inv r(3) [OF m(1)], of w] by metis
    have "keeping E (if \<not> isShown (actWindow t m) \<and> \<not> isMinimized (actWindow t m)
      then focusing E (ActivateWindow (Some m) False) t else Some (True, t))"
      using activate [OF r(2,3) [OF m(1)] t(2,3)] t(2) by auto
    then obtain q u where u: "(if \<not> isShown (actWindow t m) \<and> \<not> isMinimized (actWindow t m)
      then focusing E (ActivateWindow (Some m) False) t else Some (True, t)) = Some (q, u)" "actInv E u"
      by (rule keepingE)
    have "focusing E (TakeActivity (Some w) fl) s
      = finishActivity E m True fl (actCalls [CancelDelayFocus] (if afRaise fl then actCalls [RaiseWindow w] u else u))"
      using r(1) m t(1) u(1) True by (subst focusing.simps) (simp add: Let_def)
    then show ?thesis
      using fin [of "if afRaise fl then actCalls [RaiseWindow w] u else u"] u(2) by (simp add: act_keeps)
  qed
qed

lemma isOnCurrentDesktop_calls: "isOnCurrentDesktop (acEnv (actCalls cs s)) (actWindow (actCalls cs s) w) = isOnCurrentDesktop (acEnv s) (actWindow s w)"
  by simp

lemma activateWindow_step:
  assumes ok: "actEnvOk E" and inv: "actInv E s" and w: "w \<in> set (deClients E)"
    and new: "\<And>d t. \<not> isOnCurrentDesktop (acEnv s) (actWindow s w) \<Longrightarrow> actInv E t \<Longrightarrow> currentDesktop (acEnv t) = Some d
      \<Longrightarrow> keeping E (focusing E (OnNewDesktop d) t)"
    and take: "\<And>t. actInv E t \<Longrightarrow> (isOnCurrentDesktop (acEnv s) (actWindow s w) \<Longrightarrow> isOnCurrentDesktop (acEnv t) (actWindow t w))
      \<Longrightarrow> keeping E (focusing E (TakeActivity (Some w) (justFocus force)) t)"
  shows "keeping E (focusing E (ActivateWindow (Some w) force) s)"
proof -
  define s1 where "s1 = actCalls [RaiseWindow w] (case deMoveResize E of None \<Rightarrow> s | Some m \<Rightarrow> if m \<noteq> w then actCalls [EndMoveResize m] s else s)"
  have s1: "actInv E s1" "acEnv s1 = acEnv s"
    using inv by (simp_all add: s1_def act_keeps split: option.split)
  define switched where "switched = (if isOnCurrentDesktop (acEnv s1) (actWindow s1 w) then Some s1
           else (case aeDesktopPolicy E of
               SwitchToOtherDesktop \<Rightarrow> do {
                 let d = last (desktops (actWindow s1 w));
                 t \<leftarrow> desktopChanged E d (blockFocus 1 s1);
                 (r, t) \<leftarrow> focusing E (OnNewDesktop d) t;
                 Some (blockFocus (-1) t) }
             | BringToCurrentDesktop \<Rightarrow> do {
                 d \<leftarrow> currentDesktop (acEnv s1);
                 onDesks (enterDesktop (deskEnv E) w d) s1 }))"
  obtain s2 where s2: "switched = Some s2" "actInv E s2"
    "isOnCurrentDesktop (acEnv s) (actWindow s w) \<Longrightarrow> s2 = s1"
  proof (cases "isOnCurrentDesktop (acEnv s) (actWindow s w)")
    case True
    with that [of s1] s1 show ?thesis
      by (simp add: switched_def)
  next
    case other: False
    show ?thesis
    proof (cases "aeDesktopPolicy E")
      case SwitchToOtherDesktop
      let ?d = "last (desktops (actWindow s1 w))"
      have "actInv E (blockFocus 1 s1)"
        using s1 by (simp add: act_keeps)
      then obtain t where t: "desktopChanged E ?d (blockFocus 1 s1) = Some t" "actInv E t" "currentDesktop (acEnv t) = Some ?d"
        by (rule desktopChanged_keeps [OF ok])
      from new [OF other t(2,3)] obtain r u where u: "focusing E (OnNewDesktop ?d) t = Some (r, u)" "actInv E u"
        by (rule keepingE)
      show ?thesis
        by (rule that [of "blockFocus (-1) u"]) (use s1 other SwitchToOtherDesktop t u in \<open>simp_all add: switched_def act_keeps\<close>)
    next
      case BringToCurrentDesktop
      obtain cur where cur: "currentDesktop (acEnv s1) = Some cur"
        using s1(1) by (auto simp: actInv_def)
      obtain t where t: "onDesks (enterDesktop (deskEnv E) w cur) s1 = Some t" "actInv E t"
        by (rule enterDesktop_keeps [OF ok s1(1) w])
      show ?thesis
        by (rule that [of t]) (use s1 other BringToCurrentDesktop t cur in \<open>simp_all add: switched_def\<close>)
    qed
  qed
  define s3 where "s3 = revealWindow E w (if isOnCurrentActivity (acEnv s2) (actWindow s2 w) then s2
    else actCalls [SetCurrentActivity (hd (activities (actWindow s2 w)))] s2)"
  have s3: "actInv E s3" "isOnCurrentDesktop (acEnv s3) (actWindow s3 w) = isOnCurrentDesktop (acEnv s2) (actWindow s2 w)"
    using s2(2) by (simp_all add: s3_def act_keeps)
  have "isOnCurrentDesktop (acEnv s) (actWindow s w) \<Longrightarrow> isOnCurrentDesktop (acEnv s3) (actWindow s3 w)"
    using s2(3) s3(2) s1(2) by simp
  from take [OF s3(1) this] have "keeping E (if deReasonable E \<or> force
    then focusing E (TakeActivity (Some w) (justFocus force)) s3 else Some (True, s3))"
    using s3(1) by simp
  then obtain r u where u: "(if deReasonable E \<or> force
    then focusing E (TakeActivity (Some w) (justFocus force)) s3 else Some (True, s3)) = Some (r, u)" "actInv E u"
    by (rule keepingE)
  have "focusing E (ActivateWindow (Some w) force) s = switched \<bind> (\<lambda>t. let t = revealWindow E w
      (if isOnCurrentActivity (acEnv t) (actWindow t w) then t else actCalls [SetCurrentActivity (hd (activities (actWindow t w)))] t)
      in (if deReasonable E \<or> force then focusing E (TakeActivity (Some w) (justFocus force)) t else Some (True, t))
        \<bind> (\<lambda>(r, t). Some (True, if aeKind E w = X11Focus then actCalls [UpdateUserTime w] t else t)))"
    by (subst focusing.simps) (simp only: focus_call.case option.case switched_def s1_def Let_def)
  then have "focusing E (ActivateWindow (Some w) force) s = Some (True, if aeKind E w = X11Focus then actCalls [UpdateUserTime w] u else u)"
    unfolding s2(1) bind.bind_lunit Let_def s3_def [symmetric] u(1) by simp
  then show ?thesis
    using u(2) by (simp add: act_keeps)
qed

section \<open>The window for another desktop\<close>

lemma getForActivation_onDesktop:
  assumes "actInv E s" "getForActivation (acEnv s) d p (acChain s) = Some v"
  shows "isOnDesktop (actWindow s v) (Some d)"
proof -
  from assms(2) obtain ch where "map_of (m_desktopFocusChains (acChain s)) d = Some ch" "v \<in> set ch"
    by (auto simp: getForActivation_def dest: findLast_Some split: option.splits)
  moreover have "inNoOtherChain (actWindow s v) (m_desktopFocusChains (acChain s)) v"
    using assms(1) by (simp add: actInv_def)
  ultimately show ?thesis
    by (auto simp: inNoOtherChain_def dest!: map_of_SomeD)
qed

lemma windowForDesktop_current:
  assumes inv: "actInv E s" and d: "currentDesktop (acEnv s) = Some d" and v: "windowForDesktop E s d = Some v"
  shows "isOnCurrentDesktop (acEnv s) (actWindow s v)"
proof -
  have desk: "isOnDesktop (actWindow s x) (Some d)" if "desktopWindow E s d = Some x" for x
    using that by (auto simp: desktopWindow_def Let_def dest: findLast_Some)
  have mouse: "isOnDesktop (actWindow s x) (Some d)" if "mouseWindowOn E s d = Some x" for x
    using that by (auto simp: mouseWindowOn_def Let_def dest: findLast_Some split: option.splits if_splits)
  have chained: "isOnDesktop (actWindow s x) (Some d)" if "getForActivationOnActiveOutput (acEnv s) d (acChain s) = Some x" for x
    using that getForActivation_onDesktop [OF inv] by (simp add: getForActivationOnActiveOutput_def)
  have found: "isOnDesktop (actWindow s x) (Some d)" if "findWindowToActivateOnDesktop E s d = Some x" for x
    using that mouse chained d
    by (auto simp: findWindowToActivateOnDesktop_def Let_def isOnCurrentDesktop_def split: option.splits if_splits)
  show ?thesis
    using v found desk d by (auto simp: windowForDesktop_def isOnCurrentDesktop_def split: option.splits if_splits)
qed

section \<open>Every call returns\<close>

lemma wf_transientOf: "actEnvOk E \<Longrightarrow> wf ((transientOf E)\<^sup>+)"
  by (simp add: actEnvOk_def wf_trancl)

lemma takeActivity_here:
  assumes ok: "actEnvOk E"
  shows "actInv E s \<Longrightarrow> isOnCurrentDesktop (acEnv s) (actWindow s w) \<Longrightarrow> keeping E (focusing E (TakeActivity (Some w) fl) s)"
  using wf_transientOf [OF ok]
proof (induction w arbitrary: s fl rule: wf_induct_rule)
  case 2: (less w)
  show ?case
  proof (rule takeActivity_step [OF ok 2(2)])
    fix m t
    assume m: "(m, w) \<in> (transientOf E)\<^sup>+" "m \<in> set (deClients E)" "actInv E t"
      and "isOnCurrentDesktop (acEnv s) (actWindow s w) \<Longrightarrow> isOnCurrentDesktop (acEnv t) (actWindow t m)"
    then have here: "isOnCurrentDesktop (acEnv t) (actWindow t m)"
      using 2(3) by simp
    show "keeping E (focusing E (ActivateWindow (Some m) False) t)"
      by (rule activateWindow_step [OF ok m(3,2)]) (use here 2(1) m(1) in auto)
  qed
qed

lemma onNewDesktop_keeps:
  assumes ok: "actEnvOk E" and inv: "actInv E s" and d: "currentDesktop (acEnv s) = Some d"
  shows "keeping E (focusing E (OnNewDesktop d) s)"
proof -
  let ?w = "windowForDesktop E s d"
  obtain t where t: "(if ?w \<noteq> acActive s then setActiveWindow E None s else Some s) = Some t" "actInv E t" "acEnv t = acEnv s"
    using setActiveWindow_none [OF inv] inv by (cases "?w = acActive s") (auto simp: sameRest_def)
  have "keeping E (case ?w of None \<Rightarrow> Some (True, focusToNull E t) | Some v \<Rightarrow> focusing E (TakeActivity (Some v) (justFocus False)) t)"
    using t windowForDesktop_current [OF inv d] takeActivity_here [OF ok t(2)] by (auto simp: act_keeps split: option.split)
  then show ?thesis
    by (subst focusing.simps) (simp only: focus_call.case Let_def t(1) bind.bind_lunit)
qed

lemma takeActivity_keeps:
  assumes ok: "actEnvOk E"
  shows "actInv E s \<Longrightarrow> keeping E (focusing E (TakeActivity (Some w) fl) s)"
  using wf_transientOf [OF ok]
proof (induction w arbitrary: s fl rule: wf_induct_rule)
  case 2: (less w)
  show ?case
  proof (rule takeActivity_step [OF ok 2(2)])
    fix m t
    assume m: "(m, w) \<in> (transientOf E)\<^sup>+" "m \<in> set (deClients E)" "actInv E t"
    show "keeping E (focusing E (ActivateWindow (Some m) False) t)"
      by (rule activateWindow_step [OF ok m(3,2)]) (use 2(1) m(1) onNewDesktop_keeps [OF ok] in auto)
  qed
qed

lemma activateWindow_keeps:
  assumes ok: "actEnvOk E" and inv: "actInv E s" and w: "\<And>v. w = Some v \<Longrightarrow> v \<in> set (deClients E)"
  shows "keeping E (activateWindow E w force s)"
proof (cases w)
  case None
  have "actInv E (focusToNull E s)"
    using inv by (simp add: act_keeps)
  from setActiveWindow_none [OF this] obtain t where "setActiveWindow E None (focusToNull E s) = Some t" "actInv E t"
    by blast
  then show ?thesis
    unfolding None by (subst focusing.simps) simp
next
  case (Some v)
  show ?thesis
    unfolding Some
    by (rule activateWindow_step [OF ok inv w [OF Some]]) (use onNewDesktop_keeps [OF ok] takeActivity_keeps [OF ok] in auto)
qed

lemma activateNextWindow_keeps:
  assumes ok: "actEnvOk E" and inv: "actInv E s"
  shows "keeping E (activateNextWindow E w s)"
proof (cases "\<not> (w = acActive s \<or> (acShouldGetFocus s \<noteq> [] \<and> w = Some (last (acShouldGetFocus s))))")
  case True
  then show ?thesis
    unfolding activateNextWindow_def if_P [OF True] using inv by simp
next
  case False
  have p: "actInv E (closeActivePopup s)"
    using inv by (simp add: act_keeps)
  obtain t where t: "(case w of None \<Rightarrow> Some (closeActivePopup s) | Some v \<Rightarrow> do {
      s \<leftarrow> (if Some v = acActive (closeActivePopup s) then setActiveWindow E None (closeActivePopup s) else Some (closeActivePopup s));
      Some (s\<lparr>acShouldGetFocus := removeAll v (acShouldGetFocus s)\<rparr>) }) = Some t" "actInv E t"
  proof (cases w)
    case None
    with that p show ?thesis
      by simp
  next
    case (Some v)
    obtain a where "(if Some v = acActive (closeActivePopup s) then setActiveWindow E None (closeActivePopup s)
      else Some (closeActivePopup s)) = Some a" "actInv E a"
      using setActiveWindow_none [OF p] p by (cases "Some v = acActive (closeActivePopup s)") auto
    with that Some show ?thesis
      by (simp add: act_keeps)
  qed
  obtain d where d: "currentDesktop (acEnv t) = Some d"
    using t(2) by (auto simp: actInv_def)
  have focus: "keeping E (do { (r, s) \<leftarrow> requestFocus E v False (if b then actCalls [RaiseWindow v] t else t); Some (True, s) })" for v b
    by (rule keeping_bind [OF takeActivity_keeps [OF ok]]) (use t(2) in \<open>simp_all add: act_keeps\<close>)
  show ?thesis
    unfolding activateNextWindow_def if_not_P [OF False] Let_def t(1) bind.bind_lunit d
    using t(2) focus by (auto simp: act_keeps split: prod.split option.split)
qed

lemma windowHidden_keeps:
  assumes "actEnvOk E" "actInv E s"
    "\<not> isShown (actWindow s w) \<or> \<not> isOnCurrentDesktop (acEnv s) (actWindow s w) \<or> \<not> isOnCurrentActivity (acEnv s) (actWindow s w)"
  shows "keeping E (windowHidden E w s)"
  using activateNextWindow_keeps [OF assms(1,2)] assms(3) unfolding windowHidden_def by simp

lemma restoreFocus_keeps:
  assumes "actEnvOk E" "actInv E s"
  shows "keeping E (restoreFocus E s)"
  using takeActivity_keeps [OF assms] assms(2) by (simp add: restoreFocus_def split: option.split)

lemma switchToOutput_keeps:
  assumes ok: "actEnvOk E" and inv: "actInv E s"
  shows "keeping E (switchToOutput E p s)"
proof (cases "deReasonable E")
  case True
  let ?s = "closeActivePopup s"
  have p: "actInv E ?s"
    using inv by (simp add: act_keeps)
  obtain d where d: "currentDesktop (acEnv ?s) = Some d"
    using p by (auto simp: actInv_def)
  have rest: "keeping E (do { (r, s) \<leftarrow> (case g of None \<Rightarrow> Some (True, ?s)
      | Some v \<Rightarrow> if g \<noteq> mostRecentlyActivated ?s then requestFocus E v False ?s else Some (True, ?s)); Some (True, setActiveOutput p s) })" for g
    by (rule keeping_bind) (use takeActivity_keeps [OF ok p] p in \<open>auto simp: act_keeps split: option.split\<close>)
  show ?thesis
    unfolding switchToOutput_def Let_def d bind.bind_lunit by (simp only: True simp_thms if_False rest)
qed (use inv in \<open>simp add: switchToOutput_def\<close>)

lemma activateAttentionWindow_keeps:
  assumes "actEnvOk E" "actInv E s" "set (acAttention s) \<subseteq> set (deClients E)"
  shows "keeping E (activateAttentionWindow E s)"
proof (cases "acAttention s")
  case (Cons w ws)
  have "keeping E (activateWindow E (Some w) False s)"
    by (rule activateWindow_keeps [OF assms(1,2)]) (use assms(3) Cons in auto)
  with Cons show ?thesis
    by (simp add: activateAttentionWindow_def)
qed (use assms(2) in \<open>simp add: activateAttentionWindow_def\<close>)

lemma focusInEvent_keeps:
  assumes ok: "actEnvOk E" and inv: "actInv E s"
  shows "\<exists>t. focusInEvent E w allowed s = Some t \<and> actInv E t"
proof -
  define u where "u = gotFocusIn w (actCalls [CancelFocusOutTimers] s)"
  have u: "actInv E u"
    using inv by (simp add: u_def act_keeps)
  obtain a where a: "setActive E w True u = Some a" "actInv E a"
    using setActive_effect [OF u] by blast
  obtain r v where v: "restoreFocus E u = Some (r, v)" "actInv E v"
    using restoreFocus_keeps [OF ok u] by (rule keepingE)
  obtain b where b: "setActive E w True v = Some b" "actInv E b"
    using setActive_effect [OF v(2)] by blast
  show ?thesis
    using inv a v b by (simp add: focusInEvent_def Let_def u_def [symmetric] act_keeps)
qed

end
