(* ===== verification/Activation_Properties.thy ===== *)
theory Activation_Properties
  imports Activation_Returns Desk_Properties
begin

text \<open>
  What holds of activating windows: the recursion of \<open>setActive\<close> is one simple change of what the rest of the program sees, every
  operation returns, and the invariant holds in every reachable state.
\<close>

section \<open>The operations together\<close>

datatype act_op = SetActiveFlag wid bool | DemandAttention wid bool | Activate "wid option" bool | ActivateNext "wid option"
  | RequestFocus wid bool | Hidden wid | ToOutput outp | RestoreFocus | FocusIn wid bool | FocusOut wid | ActivateAttention
  | MoveDesktops wid "vd list" | ChangeDesktop vd | UpdateChain wid change | Forget wid

definition runAct :: "act_env \<Rightarrow> act_op \<Rightarrow> activation \<Rightarrow> activation option" where
  "runAct E op s = (case op of SetActiveFlag w act \<Rightarrow> setActive E w act s | DemandAttention w on \<Rightarrow> Some (demandAttention w on s)
     | Activate w force \<Rightarrow> map_option snd (activateWindow E w force s) | ActivateNext w \<Rightarrow> map_option snd (activateNextWindow E w s)
     | RequestFocus w force \<Rightarrow> map_option snd (requestFocus E w force s) | Hidden w \<Rightarrow> map_option snd (windowHidden E w s)
     | ToOutput p \<Rightarrow> map_option snd (switchToOutput E p s) | RestoreFocus \<Rightarrow> map_option snd (restoreFocus E s)
     | FocusIn w allowed \<Rightarrow> focusInEvent E w allowed s | FocusOut w \<Rightarrow> focusOutTimeout E w s
     | ActivateAttention \<Rightarrow> map_option snd (activateAttentionWindow E s)
     | MoveDesktops w ds \<Rightarrow> onDesks (setDesktops (deskEnv E) w ds) s
     | ChangeDesktop d \<Rightarrow> do { s \<leftarrow> desktopChanged E d s; map_option snd (focusing E (OnNewDesktop d) s) }
     | UpdateChain w ch \<Rightarrow> Some (s\<lparr>acChain := update (acEnv s) w ch (acChain s)\<rparr>)
     | Forget w \<Rightarrow> Some (forgetWindow w s))"

text \<open>The windows in a call are clients; a window that is reported hidden is, and one that is forgotten has been made a zombie.\<close>

definition actOpOk :: "act_env \<Rightarrow> activation \<Rightarrow> act_op \<Rightarrow> bool" where
  "actOpOk E s op = (case op of Activate (Some w) force \<Rightarrow> w \<in> set (deClients E)
     | Hidden w \<Rightarrow> \<not> isShown (actWindow s w) \<or> \<not> isOnCurrentDesktop (acEnv s) (actWindow s w) \<or> \<not> isOnCurrentActivity (acEnv s) (actWindow s w)
     | ActivateAttention \<Rightarrow> set (acAttention s) \<subseteq> set (deClients E)
     | MoveDesktops w ds \<Rightarrow> w \<in> set (deClients E) | Forget w \<Rightarrow> aeZombie E w | _ \<Rightarrow> True)"

definition keepingState :: "act_env \<Rightarrow> activation option \<Rightarrow> bool" where
  "keepingState E m \<longleftrightarrow> (\<exists>t. m = Some t \<and> actInv E t)"

lemma keepingState_Some [simp]: "keepingState E (Some t) = actInv E t"
  by (simp add: keepingState_def)

lemma keeping_map: "keeping E m \<Longrightarrow> keepingState E (map_option snd m)"
  by (auto simp: keepingState_def keeping_def split: option.splits)

lemma setActive_keeping: "actInv E s \<Longrightarrow> keepingState E (setActive E w act s)"
  using setActive_effect [of E s w act] by (auto simp: keepingState_def)

lemma focusIn_keeping: "actEnvOk E \<Longrightarrow> actInv E s \<Longrightarrow> keepingState E (focusInEvent E w allowed s)"
  using focusInEvent_keeps [of E s w allowed] by (auto simp: keepingState_def)

lemma actInv_update: "actInv E s \<Longrightarrow> actInv E (s\<lparr>acChain := update (acEnv s) w ch (acChain s)\<rparr>)"
proof -
  assume inv: "actInv E s"
  have "inNoOtherChain (actWindow s x) (m_desktopFocusChains (update (acEnv s) w ch (acChain s))) x" for x
    using inv by (cases "x = w") (simp_all add: sound.updated sound.others actInv_def)
  with inv show ?thesis
    by (simp add: actInv_def)
qed

lemma runAct_returns:
  assumes ok: "actEnvOk E" "actInv E s" and op: "actOpOk E s op"
  shows "keepingState E (runAct E op s)"
proof (cases op)
  case (MoveDesktops w ds)
  obtain cur where "currentDesktop (acEnv s) = Some cur"
    using ok(2) by (auto simp: actInv_def)
  from desks_moved [OF ok _ this, of w ds] op show ?thesis
    by (auto simp: runAct_def actOpOk_def MoveDesktops keepingState_def)
next
  case (ChangeDesktop d)
  obtain t where t: "desktopChanged E d s = Some t" "actInv E t" "currentDesktop (acEnv t) = Some d"
    by (rule desktopChanged_keeps [OF ok])
  from keeping_map [OF onNewDesktop_keeps [OF ok(1) t(2,3)]] show ?thesis
    by (simp add: runAct_def ChangeDesktop t(1))
next
  case (Activate w force)
  have "keeping E (activateWindow E w force s)"
    by (rule activateWindow_keeps [OF ok]) (use op in \<open>auto simp: actOpOk_def Activate\<close>)
  from keeping_map [OF this] show ?thesis
    by (simp add: runAct_def Activate)
next
  case (Hidden w)
  have "keeping E (windowHidden E w s)"
    by (rule windowHidden_keeps [OF ok]) (use op in \<open>simp add: actOpOk_def Hidden\<close>)
  from keeping_map [OF this] show ?thesis
    by (simp add: runAct_def Hidden)
next
  case ActivateAttention
  have "keeping E (activateAttentionWindow E s)"
    by (rule activateAttentionWindow_keeps [OF ok]) (use op in \<open>simp add: actOpOk_def ActivateAttention\<close>)
  from keeping_map [OF this] show ?thesis
    by (simp add: runAct_def ActivateAttention)
qed (use ok op setActive_keeping [OF ok(2)] focusIn_keeping [OF ok] in
    \<open>simp_all add: runAct_def actOpOk_def focusOutTimeout_def act_keeps actInv_update actInv_forgetWindow keeping_map
      takeActivity_keeps activateNextWindow_keeps switchToOutput_keeps restoreFocus_keeps\<close>)

text \<open>The reachable states: at the start nothing is active; later any operation runs, with whatever relations the windows have then,
  attributes of windows other than their desktops change, and windows become zombies.\<close>

definition actStart :: "activation \<Rightarrow> bool" where
  "actStart s \<longleftrightarrow> acActive s = None \<and> acFlag s = (\<lambda>_. False) \<and> acDemands s = (\<lambda>_. False) \<and> acAttention s = []
     \<and> currentDesktop (acEnv s) \<noteq> None \<and> (\<forall>x. length (desktops (actWindow s x)) \<le> 1) \<and> (\<forall>(d, ch) \<in> set (m_desktopFocusChains (acChain s)). ch = [])"

inductive actReachable :: "act_env \<Rightarrow> activation \<Rightarrow> bool" where
  start: "actStart s \<Longrightarrow> actReachable E s"
| run: "actReachable E s \<Longrightarrow> actEnvOk E \<Longrightarrow> actOpOk E s op \<Longrightarrow> runAct E op s = Some t \<Longrightarrow> actReachable E t"
| relations: "actReachable E s \<Longrightarrow> (\<And>w. aeZombie E w \<Longrightarrow> aeZombie F w) \<Longrightarrow> deX11Mode F = deX11Mode E \<Longrightarrow> actReachable F s"
| attributes: "actReachable E s \<Longrightarrow> (\<And>x. desktops (windowAt W x) = desktops (actWindow s x)) \<Longrightarrow> currentDesktop W \<noteq> None
    \<Longrightarrow> actReachable E (s\<lparr>acEnv := W\<rparr>)"
| desktopAdded: "actReachable E s \<Longrightarrow> actReachable E (s\<lparr>acChain := addDesktop d (acChain s)\<rparr>)"

lemma actReachable_inv: "actReachable E s \<Longrightarrow> actInv E s"
proof (induction rule: actReachable.induct)
  case (start s E)
  then show ?case
    by (auto simp: actStart_def actInv_def inNoOtherChain_def)
next
  case (run E s op t)
  then show ?case
    using runAct_returns [of E s op] by (simp add: keepingState_def)
next
  case (relations E s F)
  then show ?case
    by (auto simp: actInv_def)
next
  case (attributes E s W)
  then show ?case
    by (simp add: actInv_def inNoOtherChain_def isOnDesktop_def isOnAllDesktops_def)
next
  case (desktopAdded E s d)
  then show ?case
    by (auto simp: actInv_def inNoOtherChain_def addDesktop_def)
qed

section \<open>A small session\<close>

text \<open>The windows of \<open>demo_desks\<close> again; nothing is active.\<close>

definition demo_acts :: act_env where
  "demo_acts = desk_env.extend demo_desks \<lparr>aeKind = (\<lambda>_. X11Focus), aeZombie = (\<lambda>_. False), aeAcceptsInput = (\<lambda>_. True),
     aeTakeFocusProtocol = (\<lambda>_. False), aeFocusFails = (\<lambda>_. False), aeDockWantsInput = (\<lambda>_. False), aeSkipTaskbar = (\<lambda>_. False),
     aeNewSinceDesktop = (\<lambda>_. False), aeGroupMembers = (\<lambda>w. [w]), aeShadeActivated = (\<lambda>_. False), aeMinimizeForced = (\<lambda>_. False),
     aeOutputCount = 1, aeNextPrefersMouse = False, aeDesktopPolicy = SwitchToOtherDesktop, aeMouse = \<lparr>pointX = 0, pointY = 0\<rparr>,
     aeMenuWindow = None, aeNullWindow = True, aeRootInfo = True\<rparr>"

definition demo_act :: activation where
  "demo_act = \<lparr>acEnv = dsEnv demo_desk_state, acActive = None, acLastActive = None, acFlag = (\<lambda>_. False), acDemands = (\<lambda>_. False),
     acShouldGetFocus = [], acAttention = [], acChain = addDesktop 8 (addDesktop 7 (dsChain demo_desk_state\<lparr>m_desktopFocusChains := []\<rparr>)),
     acBlockFocus = 0, acRecursion = 0, acPopup = None, acCalls = []\<rparr>"

lemma demo_acts_simps [simp]: "aeZombie demo_acts w = False" "deClients demo_acts = [1, 2]" "deskEnv demo_acts = demo_desks"
  "deRule demo_acts w ds = ds" "deMoveResize demo_acts = None" "deTransients demo_acts = deTransients demo_desks"
  by (simp_all add: demo_acts_def demo_desks_def desk_env.defs)

lemma demo_acts_ok: "actEnvOk demo_acts"
  using demo_desks_ok by (simp add: actEnvOk_def transientOf_def deskOk_def)

lemma demo_act_simps [simp]:
  "acActive demo_act = None" "acFlag demo_act w = False" "acShouldGetFocus demo_act = []" "acAttention demo_act = []"
  "acDemands demo_act w = False" "actWindow demo_act w = deskWindow demo_desk_state w" "currentDesktop (acEnv demo_act) = Some 7"
  "m_desktopFocusChains (acChain demo_act) = [(8, []), (7, [])]" "acLastActive demo_act = None"
  by (simp_all add: demo_act_def addDesktop_def)

lemma demo_act_start: "actStart demo_act"
  by (simp add: actStart_def) (simp add: demo_act_def)

lemma demo_act_window: "isShade (actWindow demo_act w) = False" "isShown (actWindow demo_act w)"
  "isOnCurrentDesktop (acEnv demo_act) (actWindow demo_act w)"
  by (simp_all add: demo_act_def demo_desk_state_def isOnCurrentDesktop_def isOnDesktop_def demo_window_def)

section \<open>The properties\<close>









text \<open>A Wayland window that leaves the shown desktop minimizes the other windows only if it is in the task bar itself: the loop asks
  \<open>skipTaskbar()\<close> of the window that takes the focus and not of the one it looks at.\<close>

lemma xdgMinimizes_none: "aeSkipTaskbar E w \<Longrightarrow> xdgMinimizes E s w = []"
  by (simp add: xdgMinimizes_def Let_def)

end
